theory Spec2Isabelle
  imports Complex_Main "HOL-Library.AList" "HOL-Library.Log_Nat"
begin

text \<open>
  The ledger of a poker cash game: the summary of a session (totals, till balance, net
  profit, outstanding credit), the amounts that cashout notes encode, the till
  discrepancy analyzer with its external collaborator, and the claiming of a dealer's
  tips. The routes are embedded as functions of the database rows they read; the
  database is explicit state where a route writes to it, and the collaborator is a
  parameter.
\<close>

section \<open>Numbers and strings\<close>

text \<open>
  The backend stores every amount as a DOUBLE PRECISION column and computes with
  JavaScript numbers. Here an amount is an exact rational: sums, differences, the
  comparison with 1 and \<open>Math.max\<close> are the exact operations, and rounding of
  doubles is outside the model. Strings are lists of characters.
\<close>

definition is_digit :: "char \<Rightarrow> bool" where
  "is_digit c = (c \<in> set ''0123456789'')"

definition digit_val :: "char \<Rightarrow> nat" where
  "digit_val c = of_char c - 48"

definition digits_val :: "string \<Rightarrow> nat" where
  "digits_val ds = foldl (\<lambda>a c. 10 * a + digit_val c) 0 ds"

text \<open>
  \<open>parseFloat\<close> on a string that starts with an unsigned decimal literal: the
  integer digits, then an optional point with fraction digits. The routes apply it to
  the capture group of their patterns only, which always has this shape.
\<close>

definition parseFloat :: "string \<Rightarrow> rat" where
  "parseFloat s =
     (let ip = takeWhile is_digit s;
          r = dropWhile is_digit s;
          fp = (case r of [] \<Rightarrow> [] | c # r' \<Rightarrow> if c = CHR ''.'' then takeWhile is_digit r' else [])
      in of_nat (digits_val ip) + of_nat (digits_val fp) / 10 ^ length fp)"

text \<open>\<open>String.prototype.includes\<close>: the pattern occurs somewhere in the string.\<close>

fun str_includes :: "string \<Rightarrow> string \<Rightarrow> bool" where
  "str_includes [] p = (p = [])"
| "str_includes (c # cs) p = (take (length p) (c # cs) = p \<or> str_includes cs p)"

section \<open>The settlement-note patterns\<close>

text \<open>
  The four regular expressions of the routes all have the shape
  \<open>LIT1 (\d+(?:\.\d{2})?) LIT2\<close> with one capture group:
  \<^item> \<open>/received \$(\d+(?:\.\d{2})?) cash/\<close>
  \<^item> \<open>/cash paid: \$(\d+(?:\.\d{2})?)\)/\<close>
  \<^item> \<open>/credit settled: \$(\d+(?:\.\d{2})?)/\<close>
  \<^item> \<open>/paid \$(\d+(?:\.\d{2})?) credit/\<close>

  \<open>has_fraction r\<close>: the optional group \<open>(?:\.\d{2})\<close> matches at the start of \<open>r\<close>.
\<close>

definition has_fraction :: "string \<Rightarrow> bool" where
  "has_fraction r =
     (case r of
        c # d1 # d2 # _ \<Rightarrow> c = CHR ''.'' \<and> is_digit d1 \<and> is_digit d2
      | _ \<Rightarrow> False)"

text \<open>
  The ways \<open>\d+(?:\.\d{2})?\<close> can match at the start of \<open>s\<close>, in the order a
  backtracking matcher tries them: \<open>\d+\<close> is greedy, so the longest run of digits
  first and then shorter ones down to one digit; for each, the optional group is
  tried before its omission. Each candidate is the captured text with the rest of the
  string after it.
\<close>

definition amount_candidates :: "string \<Rightarrow> (string \<times> string) list" where
  "amount_candidates s =
     concat (map (\<lambda>k. (if has_fraction (drop k s) then [(take (k + 3) s, drop (k + 3) s)] else [])
                       @ [(take k s, drop k s)])
                 (rev [1..<Suc (length (takeWhile is_digit s))]))"

text \<open>The pattern matched at the very start of \<open>s\<close>: the capture group, if it matches.\<close>

definition match_at :: "string \<Rightarrow> string \<Rightarrow> string \<Rightarrow> string option" where
  "match_at lit1 lit2 s =
     (if take (length lit1) s = lit1
      then map_option fst
             (find (\<lambda>cr. take (length lit2) (snd cr) = lit2)
                   (amount_candidates (drop (length lit1) s)))
      else None)"

text \<open>
  \<open>String.prototype.match\<close> with a non-global pattern: the leftmost start position
  at which the pattern matches; the result is capture group 1 (\<open>m[1]\<close>), \<open>None\<close>
  is \<open>null\<close>.
\<close>

fun regex_match :: "string \<Rightarrow> string \<Rightarrow> string \<Rightarrow> string option" where
  "regex_match lit1 lit2 [] = match_at lit1 lit2 []"
| "regex_match lit1 lit2 (c # cs) =
     (case match_at lit1 lit2 (c # cs) of
        Some cap \<Rightarrow> Some cap
      | None \<Rightarrow> regex_match lit1 lit2 cs)"

definition match_received_cash :: "string \<Rightarrow> string option" where
  "match_received_cash = regex_match ''received $'' '' cash''"

definition match_cash_paid :: "string \<Rightarrow> string option" where
  "match_cash_paid = regex_match ''cash paid: $'' '')''"

definition match_credit_settled :: "string \<Rightarrow> string option" where
  "match_credit_settled = regex_match ''credit settled: $'' ''''"

definition match_paid_credit :: "string \<Rightarrow> string option" where
  "match_paid_credit = regex_match ''paid $'' '' credit''"

section \<open>The data model\<close>

text \<open>
  The rows of the tables \<open>player_transaction\<close>, \<open>dealer_down\<close>, \<open>expense\<close> and
  \<open>game_session\<close>, with the columns the routes read. \<open>type\<close>, \<open>paymentMethod\<close> and
  the names are TEXT columns and are compared as strings; a timestamp is a point in
  time, here a number.
\<close>

record playerTransaction =
  t_id :: string
  playerName :: string
  t_type :: string
  t_amount :: rat
  t_paymentMethod :: string
  t_notes :: "string option"
  isPaid :: bool
  t_timestamp :: nat
  t_gameSessionId :: string

record dealerDown =
  d_id :: string
  dealerName :: string
  tips :: rat
  rake :: rat
  tipsPaid :: bool
  rakeClaimed :: bool
  d_timestamp :: nat
  d_gameSessionId :: string

record expense =
  e_id :: string
  e_amount :: rat
  e_paymentMethod :: string
  paidOut :: bool
  e_timestamp :: nat
  e_gameSessionId :: string

record sessionRow =
  s_id :: string
  userId :: string
  totalRake :: rat

record database =
  db_gameSessions :: "sessionRow list"
  db_members :: "(string \<times> string) list"
  db_playerTransactions :: "playerTransaction list"
  db_dealerDowns :: "dealerDown list"
  db_expenses :: "expense list"

text \<open>
  A game session as \<open>db.gameSession.findFirst\<close> returns it with
  \<open>include: { playerTransactions, dealerDowns, expenses }\<close>.
\<close>

record gameSession = sessionRow +
  playerTransactions :: "playerTransaction list"
  dealerDowns :: "dealerDown list"
  expenses :: "expense list"

text \<open>
  \<open>where: { id: sessionId, OR: [{ userId: user.id }, { members: { some: { userId: user.id } } }] }\<close>:
  the session with this id that the user owns or is a member of. \<open>db_members\<close> holds
  the pairs (gameSessionId, userId) of \<open>game_session_member\<close>.
\<close>

definition findAccessibleSession :: "database \<Rightarrow> string \<Rightarrow> string \<Rightarrow> sessionRow option" where
  "findAccessibleSession db uid sessionId =
     find (\<lambda>s. s_id s = sessionId \<and> (userId s = uid \<or> (s_id s, uid) \<in> set (db_members db)))
          (db_gameSessions db)"

definition includeEvents :: "database \<Rightarrow> sessionRow \<Rightarrow> gameSession" where
  "includeEvents db row =
     \<lparr> s_id = s_id row, userId = userId row, totalRake = totalRake row,
       playerTransactions = filter (\<lambda>t. t_gameSessionId t = s_id row) (db_playerTransactions db),
       dealerDowns = filter (\<lambda>d. d_gameSessionId d = s_id row) (db_dealerDowns db),
       expenses = filter (\<lambda>e. e_gameSessionId e = s_id row) (db_expenses db) \<rparr>"

text \<open>The same \<open>include\<close> with \<open>orderBy: { timestamp: "asc" }\<close> on each relation.\<close>

definition orderByTimestamp :: "gameSession \<Rightarrow> gameSession" where
  "orderByTimestamp session =
     session \<lparr> playerTransactions := sort_key t_timestamp (playerTransactions session),
               dealerDowns := sort_key d_timestamp (dealerDowns session),
               expenses := sort_key e_timestamp (expenses session) \<rparr>"

text \<open>The responses of the routes: the JSON body of a 200, or a status with its error text.\<close>

datatype 'a response = Json 'a | Error nat string

section \<open>GET /api/game/:sessionId/summary\<close>

definition totalBuyIns :: "gameSession \<Rightarrow> rat" where
  "totalBuyIns session =
     foldl (\<lambda>sum t. sum + t_amount t) 0
       (filter (\<lambda>t. t_type t = ''buy-in'') (playerTransactions session))"

definition totalCashouts :: "gameSession \<Rightarrow> rat" where
  "totalCashouts session =
     foldl (\<lambda>sum t. sum + t_amount t) 0
       (filter (\<lambda>t. t_type t = ''cashout'') (playerTransactions session))"

definition totalTips :: "gameSession \<Rightarrow> rat" where
  "totalTips session = foldl (\<lambda>sum d. sum + tips d) 0 (dealerDowns session)"

definition summary_totalRake :: "gameSession \<Rightarrow> rat" where
  "summary_totalRake session =
     (if totalRake session > 0 then totalRake session
      else foldl (\<lambda>sum d. sum + rake d) 0 (dealerDowns session))"

definition totalExpenses :: "gameSession \<Rightarrow> rat" where
  "totalExpenses session = foldl (\<lambda>sum e. sum + e_amount e) 0 (expenses session)"

definition totalPaidTips :: "gameSession \<Rightarrow> rat" where
  "totalPaidTips session =
     foldl (\<lambda>sum d. sum + tips d) 0 (filter (\<lambda>d. tipsPaid d) (dealerDowns session))"

definition netProfit :: "gameSession \<Rightarrow> rat" where
  "netProfit session = summary_totalRake session - totalExpenses session"

definition cashBuyIns :: "gameSession \<Rightarrow> rat" where
  "cashBuyIns session =
     foldl (\<lambda>sum t. sum + t_amount t) 0
       (filter (\<lambda>t. t_type t = ''buy-in'' \<and> t_paymentMethod t = ''cash'')
          (playerTransactions session))"

text \<open>
  The callback of the \<open>cashCashouts\<close> reduce: \<open>if (t.notes)\<close> is false for
  \<open>null\<close> and for the empty string; the new format is tried before the old one.
\<close>

definition cashCashouts_step :: "rat \<Rightarrow> playerTransaction \<Rightarrow> rat" where
  "cashCashouts_step acc t =
     (case t_notes t of
        None \<Rightarrow> acc + t_amount t
      | Some n \<Rightarrow>
          if n = [] then acc + t_amount t
          else (case match_received_cash n of
                  Some cap \<Rightarrow> acc + parseFloat cap
                | None \<Rightarrow>
                    (case match_cash_paid n of
                       Some cap \<Rightarrow> acc + parseFloat cap
                     | None \<Rightarrow> acc + t_amount t)))"

definition cashCashouts :: "gameSession \<Rightarrow> rat" where
  "cashCashouts session =
     foldl cashCashouts_step 0
       (filter (\<lambda>t. t_type t = ''cashout'' \<and> t_paymentMethod t = ''cash'')
          (playerTransactions session))"

text \<open>\<open>t.notes?.includes(p)\<close>: \<open>undefined\<close> (falsy) when the notes are \<open>null\<close>.\<close>

definition notes_include :: "playerTransaction \<Rightarrow> string \<Rightarrow> bool" where
  "notes_include t p = (case t_notes t of None \<Rightarrow> False | Some n \<Rightarrow> str_includes n p)"

text \<open>\<open>t.notes?.match(re)\<close>: \<open>undefined\<close> when the notes are \<open>null\<close>.\<close>

definition notes_match :: "(string \<Rightarrow> string option) \<Rightarrow> playerTransaction \<Rightarrow> string option" where
  "notes_match re t = (case t_notes t of None \<Rightarrow> None | Some n \<Rightarrow> re n)"

definition autoSettledCredit_step :: "rat \<Rightarrow> playerTransaction \<Rightarrow> rat" where
  "autoSettledCredit_step acc t =
     (case notes_match match_credit_settled t of
        Some cap \<Rightarrow> acc + parseFloat cap
      | None \<Rightarrow>
          acc + (case notes_match match_paid_credit t of
                   Some cap \<Rightarrow> parseFloat cap
                 | None \<Rightarrow> 0))"

definition autoSettledCredit :: "gameSession \<Rightarrow> rat" where
  "autoSettledCredit session =
     foldl autoSettledCredit_step 0
       (filter (\<lambda>t. t_type t = ''cashout''
                   \<and> (notes_include t ''credit settled:'' \<or> notes_include t ''paid $''))
          (playerTransactions session))"

definition paidCreditBuyIns :: "gameSession \<Rightarrow> rat" where
  "paidCreditBuyIns session =
     foldl (\<lambda>sum t. sum + t_amount t) 0
       (filter (\<lambda>t. t_type t = ''buy-in'' \<and> t_paymentMethod t = ''credit'' \<and> isPaid t = True)
          (playerTransactions session))"

definition manuallyPaidCredit :: "gameSession \<Rightarrow> rat" where
  "manuallyPaidCredit session = max 0 (paidCreditBuyIns session - autoSettledCredit session)"

definition tillBalance :: "gameSession \<Rightarrow> rat" where
  "tillBalance session =
     cashBuyIns session + manuallyPaidCredit session - cashCashouts session
       - totalPaidTips session - totalExpenses session"

text \<open>
  \<open>playerCreditMap\<close> is a \<open>Map\<close> from player name to \<open>{ buyIns, cashouts }\<close>: an
  association list in insertion order, \<open>set\<close> on a present key replacing its value
  in place. \<open>playerCreditMap.get(name) || { buyIns: 0, cashouts: 0 }\<close> is the entry
  or a fresh one.
\<close>

definition credit_step :: "(string \<times> rat \<times> rat) list \<Rightarrow> playerTransaction \<Rightarrow> (string \<times> rat \<times> rat) list" where
  "credit_step m t =
     (if t_paymentMethod t = ''credit'' then
        (let existing = (case map_of m (playerName t) of Some e \<Rightarrow> e | None \<Rightarrow> (0, 0));
             existing' =
               (if t_type t = ''buy-in'' \<and> \<not> isPaid t
                then (fst existing + t_amount t, snd existing)
                else if t_type t = ''cashout''
                then (fst existing, snd existing + t_amount t)
                else existing)
         in AList.update (playerName t) existing' m)
      else m)"

definition playerCreditMap :: "gameSession \<Rightarrow> (string \<times> rat \<times> rat) list" where
  "playerCreditMap session = foldl credit_step [] (playerTransactions session)"

definition creditBalance :: "gameSession \<Rightarrow> rat" where
  "creditBalance session =
     foldl (\<lambda>cb entry. cb + max 0 (fst (snd entry) - snd (snd entry))) 0 (playerCreditMap session)"

definition playerCount :: "gameSession \<Rightarrow> nat" where
  "playerCount session = card (set (map playerName (playerTransactions session)))"

record gameSummary =
  g_totalBuyIns :: rat
  g_totalCashouts :: rat
  g_totalTips :: rat
  g_totalRake :: rat
  g_totalExpenses :: rat
  g_netProfit :: rat
  g_tillBalance :: rat
  g_playerCount :: nat
  g_creditBalance :: rat

definition computeSummary :: "gameSession \<Rightarrow> gameSummary" where
  "computeSummary session =
     \<lparr> g_totalBuyIns = totalBuyIns session,
       g_totalCashouts = totalCashouts session,
       g_totalTips = totalTips session,
       g_totalRake = summary_totalRake session,
       g_totalExpenses = totalExpenses session,
       g_netProfit = netProfit session,
       g_tillBalance = tillBalance session,
       g_playerCount = playerCount session,
       g_creditBalance = creditBalance session \<rparr>"

definition getSummary :: "database \<Rightarrow> string \<Rightarrow> string \<Rightarrow> gameSummary response" where
  "getSummary db uid sessionId =
     (case findAccessibleSession db uid sessionId of
        None \<Rightarrow> Error 404 ''Session not found''
      | Some row \<Rightarrow> Json (computeSummary (includeEvents db row)))"

section \<open>POST /api/ai/analyze-till: the expected till\<close>

text \<open>
  The analyzer computes the expected till with its own copy of the formula. Its
  callbacks test \<open>newMatch?.[1]\<close> instead of \<open>newMatch\<close>: there is a match and
  its capture group is not the empty string.
\<close>

definition truthy_capture :: "string option \<Rightarrow> string option" where
  "truthy_capture m = (case m of None \<Rightarrow> None | Some cap \<Rightarrow> if cap = [] then None else Some cap)"

definition ai_cashBuyIns :: "gameSession \<Rightarrow> rat" where
  "ai_cashBuyIns session =
     foldl (\<lambda>sum t. sum + t_amount t) 0
       (filter (\<lambda>t. t_type t = ''buy-in'' \<and> t_paymentMethod t = ''cash'')
          (playerTransactions session))"

definition ai_cashCashouts_step :: "rat \<Rightarrow> playerTransaction \<Rightarrow> rat" where
  "ai_cashCashouts_step acc t =
     (case t_notes t of
        None \<Rightarrow> acc + t_amount t
      | Some n \<Rightarrow>
          if n = [] then acc + t_amount t
          else (case truthy_capture (match_received_cash n) of
                  Some cap \<Rightarrow> acc + parseFloat cap
                | None \<Rightarrow>
                    (case truthy_capture (match_cash_paid n) of
                       Some cap \<Rightarrow> acc + parseFloat cap
                     | None \<Rightarrow> acc + t_amount t)))"

definition ai_cashCashouts :: "gameSession \<Rightarrow> rat" where
  "ai_cashCashouts session =
     foldl ai_cashCashouts_step 0
       (filter (\<lambda>t. t_type t = ''cashout'' \<and> t_paymentMethod t = ''cash'')
          (playerTransactions session))"

definition ai_autoSettledCredit_step :: "rat \<Rightarrow> playerTransaction \<Rightarrow> rat" where
  "ai_autoSettledCredit_step acc t =
     (case truthy_capture (notes_match match_credit_settled t) of
        Some cap \<Rightarrow> acc + parseFloat cap
      | None \<Rightarrow>
          acc + (case truthy_capture (notes_match match_paid_credit t) of
                   Some cap \<Rightarrow> parseFloat cap
                 | None \<Rightarrow> 0))"

definition ai_autoSettledCredit :: "gameSession \<Rightarrow> rat" where
  "ai_autoSettledCredit session =
     foldl ai_autoSettledCredit_step 0
       (filter (\<lambda>t. t_type t = ''cashout''
                   \<and> (notes_include t ''credit settled:'' \<or> notes_include t ''paid $''))
          (playerTransactions session))"

definition ai_paidCreditBuyIns :: "gameSession \<Rightarrow> rat" where
  "ai_paidCreditBuyIns session =
     foldl (\<lambda>sum t. sum + t_amount t) 0
       (filter (\<lambda>t. t_type t = ''buy-in'' \<and> t_paymentMethod t = ''credit'' \<and> isPaid t = True)
          (playerTransactions session))"

definition ai_manuallyPaidCredit :: "gameSession \<Rightarrow> rat" where
  "ai_manuallyPaidCredit session =
     max 0 (ai_paidCreditBuyIns session - ai_autoSettledCredit session)"

definition ai_totalPaidTips :: "gameSession \<Rightarrow> rat" where
  "ai_totalPaidTips session =
     foldl (\<lambda>sum d. sum + tips d) 0 (filter (\<lambda>d. tipsPaid d) (dealerDowns session))"

definition totalClaimedRake :: "gameSession \<Rightarrow> rat" where
  "totalClaimedRake session =
     foldl (\<lambda>sum d. sum + rake d) 0 (filter (\<lambda>d. rakeClaimed d) (dealerDowns session))"

definition ai_totalExpenses :: "gameSession \<Rightarrow> rat" where
  "ai_totalExpenses session = foldl (\<lambda>sum e. sum + e_amount e) 0 (expenses session)"

definition expectedTill :: "gameSession \<Rightarrow> rat" where
  "expectedTill session =
     ai_cashBuyIns session + ai_manuallyPaidCredit session - ai_cashCashouts session
       - ai_totalPaidTips session - totalClaimedRake session - ai_totalExpenses session"

section \<open>POST /api/ai/analyze-till: the collaborator's reply\<close>

text \<open>
  What \<open>JSON.parse\<close> returns. An object is the list of its properties, each name
  once. Numbers are exact, as everywhere.
\<close>

datatype json =
    JNull
  | JBool bool
  | JNum rat
  | JStr string
  | JArr "json list"
  | JObj "(string \<times> json) list"

text \<open>
  The exception the normalization can throw. The route catches every exception of its
  \<open>try\<close> block and answers all of them alike.
\<close>

datatype js_error = TypeError

text \<open>
  The formatting of numbers is the language's, not the repository's: \<open>String(n)\<close>
  and \<open>n.toFixed(2)\<close> are parameters.
\<close>

record jsFormat =
  numberToString :: "rat \<Rightarrow> string"
  toFixed2 :: "rat \<Rightarrow> string"

fun truthy :: "json \<Rightarrow> bool" where
  "truthy JNull = False"
| "truthy (JBool b) = b"
| "truthy (JNum n) = (n \<noteq> 0)"
| "truthy (JStr s) = (s \<noteq> [])"
| "truthy (JArr xs) = True"
| "truthy (JObj kv) = True"

text \<open>
  \<open>v.k\<close> for a value other than \<open>null\<close> (on \<open>null\<close> the access throws, which each
  caller tests first): the property of an object, \<open>undefined\<close> (\<open>None\<close>) when
  it is missing and on a number, string, boolean or array, for the names read here.
\<close>

fun getProp :: "json \<Rightarrow> string \<Rightarrow> json option" where
  "getProp (JObj kv) k = map_of kv k"
| "getProp v k = None"

text \<open>\<open>x || d\<close>.\<close>

definition or_else :: "json option \<Rightarrow> json \<Rightarrow> json" where
  "or_else x d = (case x of None \<Rightarrow> d | Some v \<Rightarrow> if truthy v then v else d)"

text \<open>
  \<open>String(v)\<close>. An object with an own property \<open>toString\<close> (never callable in
  parsed JSON) cannot be converted and throws a TypeError; any other object is
  \<open>[object Object]\<close>. An array is its elements joined by commas, \<open>null\<close> elements as
  the empty string, and throws when an element does.
\<close>

fun stringable :: "json \<Rightarrow> bool" where
  "stringable (JArr xs) = list_all stringable xs"
| "stringable (JObj kv) = (''toString'' \<notin> fst ` set kv)"
| "stringable v = True"

fun join :: "string \<Rightarrow> string list \<Rightarrow> string" where
  "join sep [] = []"
| "join sep [x] = x"
| "join sep (x # y # ys) = x @ sep @ join sep (y # ys)"

fun toStr :: "jsFormat \<Rightarrow> json \<Rightarrow> string" where
  "toStr f JNull = ''null''"
| "toStr f (JBool b) = (if b then ''true'' else ''false'')"
| "toStr f (JNum n) = numberToString f n"
| "toStr f (JStr s) = s"
| "toStr f (JArr xs) = join '','' (map (\<lambda>x. if x = JNull then [] else toStr f x) xs)"
| "toStr f (JObj kv) = ''[object Object]''"

definition js_String :: "jsFormat \<Rightarrow> json \<Rightarrow> js_error + string" where
  "js_String f v = (if stringable v then Inr (toStr f v) else Inl TypeError)"

definition bindE :: "'e + 'a \<Rightarrow> ('a \<Rightarrow> 'e + 'b) \<Rightarrow> 'e + 'b" where
  "bindE m k = (case m of Inl e \<Rightarrow> Inl e | Inr x \<Rightarrow> k x)"

text \<open>\<open>xs.map(f)\<close> with a callback that can throw: the first exception ends the map.\<close>

fun mapE :: "('a \<Rightarrow> 'e + 'b) \<Rightarrow> 'a list \<Rightarrow> 'e + 'b list" where
  "mapE f [] = Inr []"
| "mapE f (x # xs) = bindE (f x) (\<lambda>y. bindE (mapE f xs) (\<lambda>ys. Inr (y # ys)))"

record tillAnalysisCause =
  c_description :: string
  c_likelihood :: string
  c_amount :: "rat option"
  c_transactionIds :: "json list option"

record transactionToReview =
  r_id :: string
  r_playerName :: string
  r_type :: string
  r_amount :: rat
  r_paymentMethod :: string
  r_notes :: json
  r_reason :: string

record analyzeTillResponse =
  a_discrepancyAmount :: rat
  a_expectedTill :: rat
  a_actualTill :: rat
  a_summary :: string
  a_possibleCauses :: "tillAnalysisCause list"
  a_transactionsToReview :: "transactionToReview list"
  a_recommendations :: "string list"

definition normalizeCause :: "jsFormat \<Rightarrow> json \<Rightarrow> js_error + tillAnalysisCause" where
  "normalizeCause f cause =
     (if cause = JNull then Inl TypeError
      else
        bindE (js_String f (or_else (getProp cause ''description'') (JStr []))) (\<lambda>description.
        Inr \<lparr> c_description = description,
              c_likelihood =
                (case getProp cause ''likelihood'' of
                   Some (JStr l) \<Rightarrow> if l \<in> set [''high'', ''medium'', ''low''] then l else ''medium''
                 | _ \<Rightarrow> ''medium''),
              c_amount = (case getProp cause ''amount'' of Some (JNum a) \<Rightarrow> Some a | _ \<Rightarrow> None),
              c_transactionIds =
                (case getProp cause ''transactionIds'' of Some (JArr ids) \<Rightarrow> Some ids | _ \<Rightarrow> None) \<rparr>))"

definition normalizeReview :: "jsFormat \<Rightarrow> json \<Rightarrow> js_error + transactionToReview" where
  "normalizeReview f t =
     (if t = JNull then Inl TypeError
      else
        bindE (js_String f (or_else (getProp t ''id'') (JStr []))) (\<lambda>id'.
        bindE (js_String f (or_else (getProp t ''playerName'') (JStr ''Unknown''))) (\<lambda>name.
        bindE (js_String f (or_else (getProp t ''type'') (JStr []))) (\<lambda>type'.
        bindE (js_String f (or_else (getProp t ''paymentMethod'') (JStr []))) (\<lambda>method.
        bindE (js_String f (or_else (getProp t ''reason'') (JStr []))) (\<lambda>reason.
        Inr \<lparr> r_id = id',
              r_playerName = name,
              r_type = type',
              r_amount = (case getProp t ''amount'' of Some (JNum a) \<Rightarrow> a | _ \<Rightarrow> 0),
              r_paymentMethod = method,
              r_notes = or_else (getProp t ''notes'') JNull,
              r_reason = reason \<rparr>))))))"

text \<open>
  \<open>(v || []).map(g)\<close>: a truthy value that is not an array has no \<open>map\<close>, and the
  call throws a TypeError.
\<close>

definition mapArrayOrEmpty :: "(json \<Rightarrow> js_error + 'a) \<Rightarrow> json option \<Rightarrow> js_error + 'a list" where
  "mapArrayOrEmpty g v =
     (case or_else v (JArr []) of
        JArr xs \<Rightarrow> mapE g xs
      | _ \<Rightarrow> Inl TypeError)"

definition fallbackSummary :: "jsFormat \<Rightarrow> rat \<Rightarrow> string" where
  "fallbackSummary f discrepancyAmount =
     ''Till is '' @ (if discrepancyAmount > 0 then ''over'' else ''short'')
       @ '' by $'' @ toFixed2 f \<bar>discrepancyAmount\<bar>"

definition defaultRecommendations :: "string list" where
  "defaultRecommendations =
     [''Review all transactions for accuracy'', ''Double-check cash counts'']"

text \<open>
  "Validate and transform the response": from the parsed reply to the response,
  in the order of the route; the three figures come from the route's own values.
\<close>

definition normalizeResponse ::
  "jsFormat \<Rightarrow> rat \<Rightarrow> rat \<Rightarrow> rat \<Rightarrow> json \<Rightarrow> js_error + analyzeTillResponse" where
  "normalizeResponse f discrepancyAmount expected actualTill aiResponse =
     (if aiResponse = JNull then Inl TypeError
      else
        bindE (mapArrayOrEmpty (normalizeCause f) (getProp aiResponse ''possibleCauses'')) (\<lambda>possibleCauses.
        bindE (mapArrayOrEmpty (normalizeReview f) (getProp aiResponse ''transactionsToReview'')) (\<lambda>transactionsToReview.
        bindE (case getProp aiResponse ''recommendations'' of
                 Some (JArr rs) \<Rightarrow> mapE (js_String f) rs
               | _ \<Rightarrow> Inr defaultRecommendations) (\<lambda>recommendations.
        bindE (js_String f (or_else (getProp aiResponse ''summary'')
                 (JStr (fallbackSummary f discrepancyAmount)))) (\<lambda>summary.
        Inr \<lparr> a_discrepancyAmount = discrepancyAmount,
              a_expectedTill = expected,
              a_actualTill = actualTill,
              a_summary = summary,
              a_possibleCauses = possibleCauses,
              a_transactionsToReview = transactionsToReview,
              a_recommendations = recommendations \<rparr>)))))"

section \<open>POST /api/ai/analyze-till: the route\<close>

record analyzeTillRequest =
  sessionId :: string
  actualTillAmount :: rat

text \<open>
  What the route sends to the collaborator: the figures and the session data that
  its prompt is written from.
\<close>

record tillPrompt =
  p_expectedTill :: rat
  p_actualTill :: rat
  p_discrepancy :: rat
  p_session :: gameSession
  p_cashBuyIns :: rat
  p_manuallyPaidCredit :: rat
  p_autoSettledCredit :: rat
  p_cashCashouts :: rat
  p_paidTips :: rat
  p_claimedRake :: rat
  p_expenses :: rat

text \<open>
  What comes back: the call throws; the message has no content (\<open>null\<close>, missing or
  the empty string); \<open>JSON.parse\<close> rejects the content; or it returns a value.
\<close>

datatype collaboratorReply = CallFails | NoContent | InvalidJson | ParsedJson json

definition analysisFailed :: "analyzeTillResponse response" where
  "analysisFailed = Error 500 ''Failed to analyze till discrepancy. Please try again.''"

definition tillMatches :: "rat \<Rightarrow> rat \<Rightarrow> analyzeTillResponse" where
  "tillMatches expected actualTill =
     \<lparr> a_discrepancyAmount = 0,
       a_expectedTill = expected,
       a_actualTill = actualTill,
       a_summary = ''Your till matches the expected amount. No discrepancy detected.'',
       a_possibleCauses = [],
       a_transactionsToReview = [],
       a_recommendations = [''Your records appear to be accurate. Keep up the good work!''] \<rparr>"

definition buildPrompt :: "gameSession \<Rightarrow> rat \<Rightarrow> rat \<Rightarrow> rat \<Rightarrow> tillPrompt" where
  "buildPrompt session expected actualTill discrepancyAmount =
     \<lparr> p_expectedTill = expected,
       p_actualTill = actualTill,
       p_discrepancy = discrepancyAmount,
       p_session = session,
       p_cashBuyIns = ai_cashBuyIns session,
       p_manuallyPaidCredit = ai_manuallyPaidCredit session,
       p_autoSettledCredit = ai_autoSettledCredit session,
       p_cashCashouts = ai_cashCashouts session,
       p_paidTips = ai_totalPaidTips session,
       p_claimedRake = totalClaimedRake session,
       p_expenses = ai_totalExpenses session \<rparr>"

text \<open>
  The \<open>try\<close> block of the route: every exception in it is caught and answered with
  the same 500.
\<close>

definition interpretReply ::
  "jsFormat \<Rightarrow> rat \<Rightarrow> rat \<Rightarrow> rat \<Rightarrow> collaboratorReply \<Rightarrow> analyzeTillResponse response" where
  "interpretReply f discrepancyAmount expected actualTill reply =
     (case reply of
        CallFails \<Rightarrow> analysisFailed
      | NoContent \<Rightarrow> analysisFailed
      | InvalidJson \<Rightarrow> analysisFailed
      | ParsedJson aiResponse \<Rightarrow>
          (case normalizeResponse f discrepancyAmount expected actualTill aiResponse of
             Inl e \<Rightarrow> analysisFailed
           | Inr r \<Rightarrow> Json r))"

text \<open>
  The route, after \<open>requireAuth\<close> has let the user \<open>uid\<close> through. The result is the
  response together with the prompts sent to the collaborator, in order.
  \<open>!openaiApiKey\<close> holds for a missing and for an empty key.
\<close>

definition analyzeTill ::
  "jsFormat \<Rightarrow> string option \<Rightarrow> database \<Rightarrow> string \<Rightarrow> analyzeTillRequest
     \<Rightarrow> (tillPrompt \<Rightarrow> collaboratorReply) \<Rightarrow> analyzeTillResponse response \<times> tillPrompt list" where
  "analyzeTill f openaiApiKey db uid req collaborator =
     (if openaiApiKey = None \<or> openaiApiKey = Some []
      then (Error 500 ''AI analysis is not configured. Please contact support.'', [])
      else
        (case findAccessibleSession db uid (sessionId req) of
           None \<Rightarrow> (Error 404 ''Session not found'', [])
         | Some row \<Rightarrow>
             (let session = orderByTimestamp (includeEvents db row);
                  expected = expectedTill session;
                  discrepancyAmount = actualTillAmount req - expected
              in if \<bar>discrepancyAmount\<bar> < 1
                 then (Json (tillMatches expected (actualTillAmount req)), [])
                 else
                   (let p = buildPrompt session expected (actualTillAmount req) discrepancyAmount
                    in (interpretReply f discrepancyAmount expected (actualTillAmount req)
                          (collaborator p),
                        [p])))))"

section \<open>POST /api/dealers/claim-tips-by-dealer\<close>

record claimTipsByDealerRequest =
  q_dealerName :: string
  q_gameSessionId :: string
  q_percentage :: "rat option"

record claimTipsByDealerResponse =
  updatedCount :: nat
  totalTipsClaimed :: rat
  ownerCut :: rat
  dealerPayout :: rat

text \<open>
  \<open>where: { gameSessionId, dealerName, tipsPaid: false }\<close>, the filter of both
  \<open>findMany\<close> and \<open>updateMany\<close>.
\<close>

definition unpaidOf :: "claimTipsByDealerRequest \<Rightarrow> dealerDown \<Rightarrow> bool" where
  "unpaidOf data d =
     (d_gameSessionId d = q_gameSessionId data \<and> dealerName d = q_dealerName data
        \<and> tipsPaid d = False)"

text \<open>
  The route for the user \<open>uid\<close>: the response and the database after it.
  \<open>data.percentage ?? 100\<close> is the default.
\<close>

definition claimTipsByDealer ::
  "database \<Rightarrow> string \<Rightarrow> claimTipsByDealerRequest
     \<Rightarrow> claimTipsByDealerResponse response \<times> database" where
  "claimTipsByDealer db uid data =
     (let percentage = (case q_percentage data of None \<Rightarrow> 100 | Some p \<Rightarrow> p)
      in if find (\<lambda>s. s_id s = q_gameSessionId data) (db_gameSessions db) = None
         then (Error 404 ''Game session does not exist. It may have been deleted.'', db)
         else if find (\<lambda>s. s_id s = q_gameSessionId data \<and> userId s = uid) (db_gameSessions db) = None
         then (Error 403 ''You don't have access to this game session. You may be logged in with a different account.'', db)
         else
           (let unpaidDowns = filter (unpaidOf data) (db_dealerDowns db)
            in if length unpaidDowns = 0
               then (Json \<lparr> updatedCount = 0, totalTipsClaimed = 0, ownerCut = 0, dealerPayout = 0 \<rparr>, db)
               else
                 (let totalTips = foldl (\<lambda>sum d. sum + tips d) 0 unpaidDowns;
                      payout = (totalTips * percentage) / 100;
                      cut = totalTips - payout;
                      count = length (filter (unpaidOf data) (db_dealerDowns db));
                      db' = db \<lparr> db_dealerDowns :=
                              map (\<lambda>d. if unpaidOf data d then d \<lparr> tipsPaid := True \<rparr> else d)
                                  (db_dealerDowns db) \<rparr>
                  in (Json \<lparr> updatedCount = count, totalTipsClaimed = totalTips,
                              ownerCut = cut, dealerPayout = payout \<rparr>,
                      db'))))"

section \<open>The patterns, declaratively\<close>

text \<open>
  The text the capture group accepts: one or more digits, alone or followed by a
  point and exactly two digits.
\<close>

definition is_amount :: "string \<Rightarrow> bool" where
  "is_amount a =
     (let ip = takeWhile is_digit a; r = dropWhile is_digit a
      in ip \<noteq> [] \<and> (r = [] \<or> (length r = 3 \<and> has_fraction r)))"

text \<open>
  The specification's wording of an amount, "a non-negative decimal with up to two
  fraction digits": digits, alone or followed by a point and one or two digits.
\<close>

definition spec_amount :: "string \<Rightarrow> bool" where
  "spec_amount a =
     (let ip = takeWhile is_digit a; r = dropWhile is_digit a
      in ip \<noteq> [] \<and>
         (r = [] \<or> (hd r = CHR ''.'' \<and> tl r \<noteq> [] \<and> length (tl r) \<le> 2 \<and> list_all is_digit (tl r))))"

text \<open>
  An occurrence of the pattern in the notes \<open>n\<close>: at position \<open>i\<close> stands \<open>lit1\<close>,
  then the amount \<open>a\<close>, then \<open>lit2\<close>.
\<close>

definition occurs_at :: "string \<Rightarrow> string \<Rightarrow> string \<Rightarrow> nat \<Rightarrow> string \<Rightarrow> bool" where
  "occurs_at lit1 lit2 n i a =
     (is_amount a \<and> take (length lit1 + length a + length lit2) (drop i n) = lit1 @ a @ lit2)"

text \<open>
  The text after the amount begins with a character that is neither a digit nor the
  point, so that the amount before it cannot be read in two ways.
\<close>

definition closes_amount :: "string \<Rightarrow> bool" where
  "closes_amount lit2 = (case lit2 of [] \<Rightarrow> False | c # _ \<Rightarrow> \<not> is_digit c \<and> c \<noteq> CHR ''.'')"

section \<open>Example data\<close>

definition mkTx ::
  "string \<Rightarrow> string \<Rightarrow> string \<Rightarrow> rat \<Rightarrow> string \<Rightarrow> string option \<Rightarrow> bool \<Rightarrow> playerTransaction" where
  "mkTx i player ty amt method nts paid =
     \<lparr> t_id = i, playerName = player, t_type = ty, t_amount = amt, t_paymentMethod = method,
       t_notes = nts, isPaid = paid, t_timestamp = 0, t_gameSessionId = ''s1'' \<rparr>"

definition mkDown :: "string \<Rightarrow> string \<Rightarrow> rat \<Rightarrow> rat \<Rightarrow> bool \<Rightarrow> bool \<Rightarrow> dealerDown" where
  "mkDown i dealer tp rk paid claimed =
     \<lparr> d_id = i, dealerName = dealer, tips = tp, rake = rk, tipsPaid = paid,
       rakeClaimed = claimed, d_timestamp = 0, d_gameSessionId = ''s1'' \<rparr>"

definition mkExpense :: "string \<Rightarrow> rat \<Rightarrow> bool \<Rightarrow> expense" where
  "mkExpense i amt paid =
     \<lparr> e_id = i, e_amount = amt, e_paymentMethod = ''cash'', paidOut = paid,
       e_timestamp = 0, e_gameSessionId = ''s1'' \<rparr>"

definition mkSession ::
  "rat \<Rightarrow> playerTransaction list \<Rightarrow> dealerDown list \<Rightarrow> expense list \<Rightarrow> gameSession" where
  "mkSession r txs downs exps =
     \<lparr> s_id = ''s1'', userId = ''u1'', totalRake = r,
       playerTransactions = txs, dealerDowns = downs, expenses = exps \<rparr>"

definition cash_buyin :: playerTransaction where
  "cash_buyin = mkTx ''t1'' ''Ann'' ''buy-in'' 500 ''cash'' None True"

definition hybrid_cashout :: playerTransaction where
  "hybrid_cashout =
     mkTx ''t2'' ''Ann'' ''cashout'' 300 ''cash'' (Some ''received $150 cash, paid $150 credit'') True"

definition legacy_cashout :: playerTransaction where
  "legacy_cashout =
     mkTx ''t3'' ''Bob'' ''cashout'' 400 ''cash'' (Some ''(cash paid: $120.50)'') True"

definition plain_cashout :: playerTransaction where
  "plain_cashout = mkTx ''t4'' ''Cat'' ''cashout'' 300 ''cash'' (Some ''thanks'') True"

definition one_digit_cashout :: playerTransaction where
  "one_digit_cashout =
     mkTx ''t5'' ''Dan'' ''cashout'' 100 ''cash'' (Some ''received $12.5 cash'') True"

definition paid_credit_buyin :: playerTransaction where
  "paid_credit_buyin = mkTx ''t7'' ''Ann'' ''buy-in'' 500 ''credit'' None True"

definition settled_cashout :: playerTransaction where
  "settled_cashout =
     mkTx ''t8'' ''Bob'' ''cashout'' 400 ''credit'' (Some ''credit settled: $400.00'') True"

text \<open>
  Cashouts on credit whose notes settle an amount with cents, and two whose notes
  write the amount with one fraction digit.
\<close>

definition cents_settled_cashout :: playerTransaction where
  "cents_settled_cashout =
     mkTx ''t9'' ''Bob'' ''cashout'' 450 ''credit'' (Some ''credit settled: $400.50'') True"

definition cents_paid_cashout :: playerTransaction where
  "cents_paid_cashout =
     mkTx ''t10'' ''Ann'' ''cashout'' 300 ''cash'' (Some ''received $149.75 cash, paid $150.25 credit'') True"

definition one_digit_settled_cashout :: playerTransaction where
  "one_digit_settled_cashout =
     mkTx ''t11'' ''Ann'' ''cashout'' 100 ''credit'' (Some ''credit settled: $12.5'') True"

definition one_digit_paid_cashout :: playerTransaction where
  "one_digit_paid_cashout =
     mkTx ''t12'' ''Ann'' ''cashout'' 100 ''cash'' (Some ''received $87.50 cash, paid $12.5 credit'') True"

definition claimed_down :: dealerDown where
  "claimed_down = mkDown ''d1'' ''Dee'' 40 25 True True"

definition unclaimed_down :: dealerDown where
  "unclaimed_down = mkDown ''d2'' ''Dee'' 10 15 False False"

definition example_session :: gameSession where
  "example_session =
     mkSession 0 [cash_buyin, plain_cashout] [claimed_down, unclaimed_down] [mkExpense ''e1'' 30 False]"

section \<open>Credit per player\<close>

text \<open>
  The specification's wording of \<open>creditBalance\<close>: group the credit transactions by
  player name; for each player, the unpaid buy-ins minus the cashouts, floored at 0;
  sum across the players.
\<close>

definition unpaidCreditBuyIns :: "string \<Rightarrow> playerTransaction list \<Rightarrow> rat" where
  "unpaidCreditBuyIns p txs =
     sum_list (map t_amount
       (filter (\<lambda>t. playerName t = p \<and> t_paymentMethod t = ''credit''
                    \<and> t_type t = ''buy-in'' \<and> \<not> isPaid t) txs))"

definition creditCashouts :: "string \<Rightarrow> playerTransaction list \<Rightarrow> rat" where
  "creditCashouts p txs =
     sum_list (map t_amount
       (filter (\<lambda>t. playerName t = p \<and> t_paymentMethod t = ''credit''
                    \<and> t_type t = ''cashout'') txs))"

definition netOwed :: "playerTransaction list \<Rightarrow> string \<Rightarrow> rat" where
  "netOwed txs p = max 0 (unpaidCreditBuyIns p txs - creditCashouts p txs)"

definition creditPlayers :: "playerTransaction list \<Rightarrow> string list" where
  "creditPlayers txs = remdups (map playerName (filter (\<lambda>t. t_paymentMethod t = ''credit'') txs))"

definition spec_creditBalance :: "playerTransaction list \<Rightarrow> rat" where
  "spec_creditBalance txs = sum_list (map (netOwed txs) (creditPlayers txs))"

text \<open>The entry of a player in \<open>playerCreditMap\<close>, or a fresh one.\<close>

definition entryOf :: "(string \<times> rat \<times> rat) list \<Rightarrow> string \<Rightarrow> rat \<times> rat" where
  "entryOf m p = (case map_of m p of Some e \<Rightarrow> e | None \<Rightarrow> (0, 0))"

definition credit_ledger :: "playerTransaction list" where
  "credit_ledger =
     [mkTx ''c1'' ''Ann'' ''buy-in'' 500 ''credit'' None False,
      mkTx ''c2'' ''Bob'' ''cashout'' 100 ''credit'' None True,
      mkTx ''c3'' ''Ann'' ''cashout'' 300 ''credit'' (Some ''received $150 cash, paid $150 credit'') True,
      mkTx ''c4'' ''Cat'' ''buy-in'' 250 ''credit'' None True,
      mkTx ''c5'' ''Bob'' ''buy-in'' 40 ''credit'' None False,
      mkTx ''c6'' ''Dan'' ''buy-in'' 70 ''cash'' None True]"

section \<open>Claiming tips: the parts of the route\<close>

text \<open>
  The percentage of the request with its default, the effect of \<open>updateMany\<close> on
  the dealer-downs, and the response of a call that finds nothing to claim.
\<close>

definition percentageOf :: "claimTipsByDealerRequest \<Rightarrow> rat" where
  "percentageOf data = (case q_percentage data of None \<Rightarrow> 100 | Some p \<Rightarrow> p)"

definition markPaid :: "claimTipsByDealerRequest \<Rightarrow> dealerDown list \<Rightarrow> dealerDown list" where
  "markPaid data downs = map (\<lambda>d. if unpaidOf data d then d \<lparr> tipsPaid := True \<rparr> else d) downs"

definition nothingClaimed :: claimTipsByDealerResponse where
  "nothingClaimed = \<lparr> updatedCount = 0, totalTipsClaimed = 0, ownerCut = 0, dealerPayout = 0 \<rparr>"

definition dealers_db :: database where
  "dealers_db =
     \<lparr> db_gameSessions = [\<lparr> s_id = ''s1'', userId = ''u1'', totalRake = 0 \<rparr>],
       db_members = [],
       db_playerTransactions = [],
       db_dealerDowns =
         [mkDown ''d1'' ''Dee'' 40 25 False False,
          mkDown ''d2'' ''Eli'' 5 10 False False,
          mkDown ''d3'' ''Dee'' 60 15 False True,
          mkDown ''d4'' ''Dee'' 10 5 True False],
       db_expenses = [] \<rparr>"

definition claim_dee :: claimTipsByDealerRequest where
  "claim_dee = \<lparr> q_dealerName = ''Dee'', q_gameSessionId = ''s1'', q_percentage = Some 70 \<rparr>"

section \<open>The analyzer: example data\<close>

text \<open>The likelihood tiers of the contract.\<close>

definition likelihoods :: "string set" where
  "likelihoods = {''high'', ''medium'', ''low''}"

definition plain_format :: jsFormat where
  "plain_format = \<lparr> numberToString = (\<lambda>n. ''<number>''), toFixed2 = (\<lambda>n. ''<amount>'') \<rparr>"

definition failing_collaborator :: "tillPrompt \<Rightarrow> collaboratorReply" where
  "failing_collaborator p = CallFails"

definition terse_collaborator :: "tillPrompt \<Rightarrow> collaboratorReply" where
  "terse_collaborator p = ParsedJson (JObj [])"

definition chatty_collaborator :: "tillPrompt \<Rightarrow> collaboratorReply" where
  "chatty_collaborator p =
     ParsedJson (JObj [(''summary'', JStr ''The till is short.''),
                       (''discrepancyAmount'', JNum 0),
                       (''expectedTill'', JNum 1000000),
                       (''actualTill'', JNum 1000000),
                       (''recommendations'', JArr [JStr ''Recount'']),
                       (''possibleCauses'', JArr [JObj [(''description'', JStr ''Miscount''),
                                                        (''likelihood'', JStr ''certain'')]])])"

definition till_db :: database where
  "till_db =
     \<lparr> db_gameSessions = [\<lparr> s_id = ''s1'', userId = ''u1'', totalRake = 0 \<rparr>],
       db_members = [],
       db_playerTransactions = [cash_buyin, plain_cashout],
       db_dealerDowns = [],
       db_expenses = [] \<rparr>"

definition count_200 :: analyzeTillRequest where
  "count_200 = \<lparr> sessionId = ''s1'', actualTillAmount = 200 \<rparr>"

definition count_150 :: analyzeTillRequest where
  "count_150 = \<lparr> sessionId = ''s1'', actualTillAmount = 150 \<rparr>"

definition vague_cause :: json where
  "vague_cause = JObj [(''likelihood'', JStr ''certain''), (''amount'', JStr ''12'')]"

definition exact_cause :: json where
  "exact_cause = JObj [(''description'', JStr ''Tip not marked''), (''likelihood'', JStr ''high''),
                       (''amount'', JNum 0)]"

section \<open>The till formulas with rounding\<close>

text \<open>
  JavaScript computes with IEEE doubles: every sum, every difference and every
  \<open>parseFloat\<close> is the exact result rounded to a double. Here the two till formulas
  are written once more, operation by operation as the routes have them, with the
  rounding \<open>rnd\<close> applied after each; \<open>rnd\<close> is a parameter, and with the identity
  for \<open>rnd\<close> these are the exact formulas above.
\<close>

definition r_cashBuyIns :: "(rat \<Rightarrow> rat) \<Rightarrow> gameSession \<Rightarrow> rat" where
  "r_cashBuyIns rnd session =
     foldl (\<lambda>sum t. rnd (sum + t_amount t)) 0
       (filter (\<lambda>t. t_type t = ''buy-in'' \<and> t_paymentMethod t = ''cash'')
          (playerTransactions session))"

definition r_cashCashouts_step :: "(rat \<Rightarrow> rat) \<Rightarrow> rat \<Rightarrow> playerTransaction \<Rightarrow> rat" where
  "r_cashCashouts_step rnd acc t =
     (case t_notes t of
        None \<Rightarrow> rnd (acc + t_amount t)
      | Some n \<Rightarrow>
          if n = [] then rnd (acc + t_amount t)
          else (case match_received_cash n of
                  Some cap \<Rightarrow> rnd (acc + rnd (parseFloat cap))
                | None \<Rightarrow>
                    (case match_cash_paid n of
                       Some cap \<Rightarrow> rnd (acc + rnd (parseFloat cap))
                     | None \<Rightarrow> rnd (acc + t_amount t))))"

definition r_cashCashouts :: "(rat \<Rightarrow> rat) \<Rightarrow> gameSession \<Rightarrow> rat" where
  "r_cashCashouts rnd session =
     foldl (r_cashCashouts_step rnd) 0
       (filter (\<lambda>t. t_type t = ''cashout'' \<and> t_paymentMethod t = ''cash'')
          (playerTransactions session))"

definition r_autoSettledCredit_step :: "(rat \<Rightarrow> rat) \<Rightarrow> rat \<Rightarrow> playerTransaction \<Rightarrow> rat" where
  "r_autoSettledCredit_step rnd acc t =
     (case notes_match match_credit_settled t of
        Some cap \<Rightarrow> rnd (acc + rnd (parseFloat cap))
      | None \<Rightarrow>
          rnd (acc + (case notes_match match_paid_credit t of
                        Some cap \<Rightarrow> rnd (parseFloat cap)
                      | None \<Rightarrow> 0)))"

definition r_autoSettledCredit :: "(rat \<Rightarrow> rat) \<Rightarrow> gameSession \<Rightarrow> rat" where
  "r_autoSettledCredit rnd session =
     foldl (r_autoSettledCredit_step rnd) 0
       (filter (\<lambda>t. t_type t = ''cashout''
                   \<and> (notes_include t ''credit settled:'' \<or> notes_include t ''paid $''))
          (playerTransactions session))"

definition r_paidCreditBuyIns :: "(rat \<Rightarrow> rat) \<Rightarrow> gameSession \<Rightarrow> rat" where
  "r_paidCreditBuyIns rnd session =
     foldl (\<lambda>sum t. rnd (sum + t_amount t)) 0
       (filter (\<lambda>t. t_type t = ''buy-in'' \<and> t_paymentMethod t = ''credit'' \<and> isPaid t = True)
          (playerTransactions session))"

definition r_manuallyPaidCredit :: "(rat \<Rightarrow> rat) \<Rightarrow> gameSession \<Rightarrow> rat" where
  "r_manuallyPaidCredit rnd session =
     max 0 (rnd (r_paidCreditBuyIns rnd session - r_autoSettledCredit rnd session))"

definition r_totalPaidTips :: "(rat \<Rightarrow> rat) \<Rightarrow> gameSession \<Rightarrow> rat" where
  "r_totalPaidTips rnd session =
     foldl (\<lambda>sum d. rnd (sum + tips d)) 0 (filter (\<lambda>d. tipsPaid d) (dealerDowns session))"

definition r_totalExpenses :: "(rat \<Rightarrow> rat) \<Rightarrow> gameSession \<Rightarrow> rat" where
  "r_totalExpenses rnd session = foldl (\<lambda>sum e. rnd (sum + e_amount e)) 0 (expenses session)"

text \<open>
  \<open>cashBuyIns + manuallyPaidCredit - cashCashouts - totalPaidTips - totalExpenses\<close>,
  evaluated from the left.
\<close>

definition r_tillBalance :: "(rat \<Rightarrow> rat) \<Rightarrow> gameSession \<Rightarrow> rat" where
  "r_tillBalance rnd session =
     rnd (rnd (rnd (rnd (r_cashBuyIns rnd session + r_manuallyPaidCredit rnd session)
                    - r_cashCashouts rnd session)
               - r_totalPaidTips rnd session)
          - r_totalExpenses rnd session)"

text \<open>The analyzer's copy.\<close>

definition r_ai_cashBuyIns :: "(rat \<Rightarrow> rat) \<Rightarrow> gameSession \<Rightarrow> rat" where
  "r_ai_cashBuyIns rnd session =
     foldl (\<lambda>sum t. rnd (sum + t_amount t)) 0
       (filter (\<lambda>t. t_type t = ''buy-in'' \<and> t_paymentMethod t = ''cash'')
          (playerTransactions session))"

definition r_ai_cashCashouts_step :: "(rat \<Rightarrow> rat) \<Rightarrow> rat \<Rightarrow> playerTransaction \<Rightarrow> rat" where
  "r_ai_cashCashouts_step rnd acc t =
     (case t_notes t of
        None \<Rightarrow> rnd (acc + t_amount t)
      | Some n \<Rightarrow>
          if n = [] then rnd (acc + t_amount t)
          else (case truthy_capture (match_received_cash n) of
                  Some cap \<Rightarrow> rnd (acc + rnd (parseFloat cap))
                | None \<Rightarrow>
                    (case truthy_capture (match_cash_paid n) of
                       Some cap \<Rightarrow> rnd (acc + rnd (parseFloat cap))
                     | None \<Rightarrow> rnd (acc + t_amount t))))"

definition r_ai_cashCashouts :: "(rat \<Rightarrow> rat) \<Rightarrow> gameSession \<Rightarrow> rat" where
  "r_ai_cashCashouts rnd session =
     foldl (r_ai_cashCashouts_step rnd) 0
       (filter (\<lambda>t. t_type t = ''cashout'' \<and> t_paymentMethod t = ''cash'')
          (playerTransactions session))"

definition r_ai_autoSettledCredit_step :: "(rat \<Rightarrow> rat) \<Rightarrow> rat \<Rightarrow> playerTransaction \<Rightarrow> rat" where
  "r_ai_autoSettledCredit_step rnd acc t =
     (case truthy_capture (notes_match match_credit_settled t) of
        Some cap \<Rightarrow> rnd (acc + rnd (parseFloat cap))
      | None \<Rightarrow>
          rnd (acc + (case truthy_capture (notes_match match_paid_credit t) of
                        Some cap \<Rightarrow> rnd (parseFloat cap)
                      | None \<Rightarrow> 0)))"

definition r_ai_autoSettledCredit :: "(rat \<Rightarrow> rat) \<Rightarrow> gameSession \<Rightarrow> rat" where
  "r_ai_autoSettledCredit rnd session =
     foldl (r_ai_autoSettledCredit_step rnd) 0
       (filter (\<lambda>t. t_type t = ''cashout''
                   \<and> (notes_include t ''credit settled:'' \<or> notes_include t ''paid $''))
          (playerTransactions session))"

definition r_ai_paidCreditBuyIns :: "(rat \<Rightarrow> rat) \<Rightarrow> gameSession \<Rightarrow> rat" where
  "r_ai_paidCreditBuyIns rnd session =
     foldl (\<lambda>sum t. rnd (sum + t_amount t)) 0
       (filter (\<lambda>t. t_type t = ''buy-in'' \<and> t_paymentMethod t = ''credit'' \<and> isPaid t = True)
          (playerTransactions session))"

definition r_ai_manuallyPaidCredit :: "(rat \<Rightarrow> rat) \<Rightarrow> gameSession \<Rightarrow> rat" where
  "r_ai_manuallyPaidCredit rnd session =
     max 0 (rnd (r_ai_paidCreditBuyIns rnd session - r_ai_autoSettledCredit rnd session))"

definition r_ai_totalPaidTips :: "(rat \<Rightarrow> rat) \<Rightarrow> gameSession \<Rightarrow> rat" where
  "r_ai_totalPaidTips rnd session =
     foldl (\<lambda>sum d. rnd (sum + tips d)) 0 (filter (\<lambda>d. tipsPaid d) (dealerDowns session))"

definition r_totalClaimedRake :: "(rat \<Rightarrow> rat) \<Rightarrow> gameSession \<Rightarrow> rat" where
  "r_totalClaimedRake rnd session =
     foldl (\<lambda>sum d. rnd (sum + rake d)) 0 (filter (\<lambda>d. rakeClaimed d) (dealerDowns session))"

definition r_ai_totalExpenses :: "(rat \<Rightarrow> rat) \<Rightarrow> gameSession \<Rightarrow> rat" where
  "r_ai_totalExpenses rnd session =
     foldl (\<lambda>sum e. rnd (sum + e_amount e)) 0 (expenses session)"

text \<open>
  \<open>cashBuyIns + manuallyPaidCredit - cashCashouts - totalPaidTips - totalClaimedRake
  - totalExpenses\<close>, evaluated from the left.
\<close>

definition r_expectedTill :: "(rat \<Rightarrow> rat) \<Rightarrow> gameSession \<Rightarrow> rat" where
  "r_expectedTill rnd session =
     rnd (rnd (rnd (rnd (rnd (r_ai_cashBuyIns rnd session + r_ai_manuallyPaidCredit rnd session)
                         - r_ai_cashCashouts rnd session)
                    - r_ai_totalPaidTips rnd session)
               - r_totalClaimedRake rnd session)
          - r_ai_totalExpenses rnd session)"

section \<open>Rounding to a double\<close>

text \<open>
  The rounding of IEEE 754 binary64, on the rationals: to the nearest double, ties to
  the one with an even significand, with 53 bits of significand and subnormals below
  \<open>2^-1022\<close>. A result beyond the largest double is infinity in the language; amounts
  of that size (above \<open>10^308\<close>) are not modelled, and the rounding here continues
  with larger exponents.

  \<open>pow2 e\<close> is \<open>2^e\<close>; \<open>exponent_of x\<close> is the exponent of \<open>x > 0\<close>, the \<open>e\<close> with
  \<open>2^e \<le> x < 2^(e+1)\<close>.
\<close>

definition pow2 :: "int \<Rightarrow> rat" where
  "pow2 e = (if 0 \<le> e then 2 ^ nat e else 1 / 2 ^ nat (- e))"

definition exponent_of :: "rat \<Rightarrow> int" where
  "exponent_of x = (if 1 \<le> x then bitlen \<lfloor>x\<rfloor> - 1 else - bitlen (\<lceil>1 / x\<rceil> - 1))"

definition round_half_even :: "rat \<Rightarrow> int" where
  "round_half_even q =
     (let f = \<lfloor>q\<rfloor>; r = q - of_int f
      in if r < 1 / 2 then f else if 1 / 2 < r then f + 1 else if even f then f else f + 1)"

definition binary64 :: "rat \<Rightarrow> rat" where
  "binary64 x =
     (if x = 0 then 0
      else (let e = max (exponent_of \<bar>x\<bar>) (- 1022); ulp = pow2 (e - 52)
            in sgn x * of_int (round_half_even (\<bar>x\<bar> / ulp)) * ulp))"

text \<open>
  A session whose rake of 10.1 is claimed and whose expense is 30.3 (the doubles
  nearest to these), and the same session with the rake unclaimed.
\<close>

definition rounding_session :: gameSession where
  "rounding_session =
     mkSession 0 [cash_buyin, plain_cashout]
       [mkDown ''d1'' ''Dee'' 40 (binary64 (101 / 10)) True True]
       [mkExpense ''e1'' (binary64 (303 / 10)) False]"

definition unclaimed_session :: gameSession where
  "unclaimed_session =
     mkSession 0 [cash_buyin, plain_cashout]
       [mkDown ''d1'' ''Dee'' 40 (binary64 (101 / 10)) True False]
       [mkExpense ''e1'' (binary64 (303 / 10)) False]"

section \<open>Sums\<close>

lemma foldl_plus_sum_list:
  fixes f :: "'a \<Rightarrow> rat"
  shows "foldl (\<lambda>sum x. sum + f x) a xs = a + sum_list (map f xs)"
  by (induction xs arbitrary: a) (simp_all add: add.assoc)

lemmas eval_defs = mkTx_def is_amount_def occurs_at_def has_fraction_def is_digit_def
  parseFloat_def digits_val_def digit_val_def match_at_def amount_candidates_def


section \<open>The matcher finds the occurrences of its pattern\<close>

lemma dot_not_digit: "\<not> is_digit CHR ''.''"
  by (simp add: is_digit_def)

lemma has_fraction_hd: "has_fraction r \<Longrightarrow> r \<noteq> [] \<and> hd r = CHR ''.''"
  by (auto simp: has_fraction_def split: list.splits)

lemma has_fraction_take3: "has_fraction r \<Longrightarrow> length (take 3 r) = 3 \<and> has_fraction (take 3 r)"
  by (auto simp: has_fraction_def split: list.splits)

lemma has_fraction_digit_prefix:
  assumes "k < length (takeWhile is_digit s)"
  shows "\<not> has_fraction (drop k s)"
proof
  assume h: "has_fraction (drop k s)"
  have "s ! k = (takeWhile is_digit s) ! k" using assms by (simp add: takeWhile_nth)
  moreover have "is_digit ((takeWhile is_digit s) ! k)" using assms
    by (metis nth_mem set_takeWhileD)
  moreover have "k < length s" using assms
    by (meson length_takeWhile_le less_le_trans)
  ultimately have "is_digit (hd (drop k s))" by (simp add: hd_drop_conv_nth)
  with h show False using has_fraction_hd dot_not_digit by metis
qed

lemma takeWhile_take_prefix:
  assumes "k \<le> length (takeWhile P s)"
  shows "takeWhile P (take k s) = take k s" and "dropWhile P (take k s) = []"
proof -
  have "take k s = take k (takeWhile P s)"
    using assms by (metis append_eq_conv_conj takeWhile_dropWhile_id take_append take_all_iff diff_is_0_eq' take_0 append_Nil2 length_take min.absorb2)
  then have "\<forall>x \<in> set (take k s). P x"
    by (metis in_set_takeD set_takeWhileD)
  then show "takeWhile P (take k s) = take k s" and "dropWhile P (take k s) = []"
    by simp_all
qed

lemma set_amount_candidates:
  "set (amount_candidates s) =
     {(take k s, drop k s) | k. 1 \<le> k \<and> k \<le> length (takeWhile is_digit s)}
     \<union> {(take (k + 3) s, drop (k + 3) s) | k.
          1 \<le> k \<and> k \<le> length (takeWhile is_digit s) \<and> has_fraction (drop k s)}"
  by (auto simp: amount_candidates_def)

lemma candidate_append: "(cap, rest) \<in> set (amount_candidates s) \<Longrightarrow> cap @ rest = s"
  by (auto simp: set_amount_candidates)

lemma digits_is_amount:
  assumes "1 \<le> k" "k \<le> length (takeWhile is_digit s)"
  shows "is_amount (take k s)"
proof -
  have "k \<le> length s" using assms(2) length_takeWhile_le le_trans by blast
  then have "take k s \<noteq> []" using assms(1) by auto
  then show ?thesis
    unfolding is_amount_def Let_def takeWhile_take_prefix[OF assms(2)] by simp
qed

lemma fraction_is_amount:
  assumes "1 \<le> k" "k \<le> length (takeWhile is_digit s)" "has_fraction (drop k s)"
  shows "is_amount (take (k + 3) s)"
proof -
  have kN: "k = length (takeWhile is_digit s)"
    using assms(2,3) has_fraction_digit_prefix[of k s] by force
  have split: "take (k + 3) s = take k s @ take 3 (drop k s)"
    by (simp add: take_add)
  have f3: "length (take 3 (drop k s)) = 3" "has_fraction (take 3 (drop k s))"
    using has_fraction_take3[OF assms(3)] by simp_all
  have hd3: "take 3 (drop k s) \<noteq> []" "\<not> is_digit (hd (take 3 (drop k s)))"
    using has_fraction_hd[OF f3(2)] dot_not_digit by auto
  have all: "\<forall>x \<in> set (take k s). is_digit x"
    using takeWhile_take_prefix(1)[OF assms(2)] by (metis set_takeWhileD)
  have tw: "takeWhile is_digit (take (k + 3) s) = take k s"
    unfolding split using all hd3 by (simp add: takeWhile_append2 takeWhile_eq_Nil_iff)
  have dw: "dropWhile is_digit (take (k + 3) s) = take 3 (drop k s)"
    unfolding split using all hd3 by (simp add: dropWhile_append2 dropWhile_eq_self_iff)
  have "k \<le> length s" using assms(2) length_takeWhile_le le_trans by blast
  then have "take k s \<noteq> []" using assms(1) by auto
  then show ?thesis
    unfolding is_amount_def Let_def tw dw using f3 by simp
qed

lemma candidate_is_amount: "(cap, rest) \<in> set (amount_candidates s) \<Longrightarrow> is_amount cap"
  by (auto simp: set_amount_candidates digits_is_amount fraction_is_amount)

lemma is_amount_nonempty: "is_amount a \<Longrightarrow> a \<noteq> []"
  by (auto simp: is_amount_def)

lemma find_SomeD: "find P xs = Some x \<Longrightarrow> x \<in> set xs \<and> P x"
  by (induction xs) (auto split: if_splits)

lemma match_at_sound:
  assumes "match_at lit1 lit2 s = Some a"
  shows "occurs_at lit1 lit2 s 0 a"
proof -
  from assms have p1: "take (length lit1) s = lit1"
    by (auto simp: match_at_def split: if_splits)
  from assms obtain rest where
    f: "find (\<lambda>cr. take (length lit2) (snd cr) = lit2) (amount_candidates (drop (length lit1) s))
          = Some (a, rest)"
    by (auto simp: match_at_def split: if_splits)
  then have mem: "(a, rest) \<in> set (amount_candidates (drop (length lit1) s))"
    and p2: "take (length lit2) rest = lit2"
    using find_SomeD[OF f] by simp_all
  have "s = lit1 @ a @ rest"
    using candidate_append[OF mem] p1 by (metis append_take_drop_id)
  then have "take (length lit1 + length a + length lit2) (drop 0 s) = lit1 @ a @ lit2"
    using p2 by simp
  then show ?thesis
    using candidate_is_amount[OF mem] by (simp add: occurs_at_def)
qed

lemma is_amount_cases:
  assumes "is_amount a"
  shows "(a \<noteq> [] \<and> (\<forall>x \<in> set a. is_digit x))
       \<or> (\<exists>ip d1 d2. a = ip @ [CHR ''.'', d1, d2] \<and> ip \<noteq> [] \<and> (\<forall>x \<in> set ip. is_digit x)
                      \<and> is_digit d1 \<and> is_digit d2)"
proof (cases "dropWhile is_digit a = []")
  case True
  then have "\<forall>x \<in> set a. is_digit x" by (simp add: dropWhile_eq_Nil_conv)
  then show ?thesis using assms by (auto simp: is_amount_def)
next
  case False
  with assms have l: "length (dropWhile is_digit a) = 3" and h: "has_fraction (dropWhile is_digit a)"
    and ne: "takeWhile is_digit a \<noteq> []"
    by (auto simp: is_amount_def Let_def)
  from l h obtain d1 d2 where r: "dropWhile is_digit a = [CHR ''.'', d1, d2]" "is_digit d1" "is_digit d2"
    by (auto simp: has_fraction_def split: list.splits)
  have "a = takeWhile is_digit a @ [CHR ''.'', d1, d2]"
    using r(1) takeWhile_dropWhile_id[of is_digit a] by simp
  moreover have "\<forall>x \<in> set (takeWhile is_digit a). is_digit x"
    by (meson set_takeWhileD)
  ultimately show ?thesis using ne r by blast
qed

lemma amount_is_candidate:
  assumes "is_amount a"
  shows "(a, t) \<in> set (amount_candidates (a @ t))"
  using is_amount_cases[OF assms]
proof (elim disjE exE conjE)
  assume ne: "a \<noteq> []" and d: "\<forall>x \<in> set a. is_digit x"
  have "length a \<le> length (takeWhile is_digit (a @ t))"
    using d by (simp add: takeWhile_append2)
  moreover have "1 \<le> length a" using ne by (simp add: Suc_leI)
  ultimately show ?thesis
    unfolding set_amount_candidates by (intro UnI1) force
next
  fix ip d1 d2
  assume a: "a = ip @ [CHR ''.'', d1, d2]" and ne: "ip \<noteq> []" and d: "\<forall>x \<in> set ip. is_digit x"
    and d1: "is_digit d1" and d2: "is_digit d2"
  have tw: "takeWhile is_digit (a @ t) = ip"
    using d dot_not_digit by (simp add: a takeWhile_append2)
  have hf: "has_fraction (drop (length ip) (a @ t))"
    using d1 d2 by (simp add: a has_fraction_def)
  have "1 \<le> length ip" using ne by (simp add: Suc_leI)
  moreover have "take (length ip + 3) (a @ t) = a" "drop (length ip + 3) (a @ t) = t"
    by (simp_all add: a)
  ultimately show ?thesis
    unfolding set_amount_candidates using tw hf by (intro UnI2) force
qed

lemma occurs_at_0_split:
  assumes "occurs_at lit1 lit2 s 0 a"
  shows "\<exists>t. s = lit1 @ a @ lit2 @ t"
proof -
  from assms have "take (length (lit1 @ a @ lit2)) s = lit1 @ a @ lit2"
    by (simp add: occurs_at_def add.assoc)
  then have "s = (lit1 @ a @ lit2) @ drop (length (lit1 @ a @ lit2)) s"
    by (metis append_take_drop_id)
  then show ?thesis by (metis append.assoc)
qed

lemma match_at_complete:
  assumes "occurs_at lit1 lit2 s 0 a"
  shows "\<exists>a'. match_at lit1 lit2 s = Some a'"
proof -
  from occurs_at_0_split[OF assms] obtain t where s: "s = lit1 @ a @ lit2 @ t" by blast
  have am: "is_amount a" using assms by (simp add: occurs_at_def)
  have mem: "(a, lit2 @ t) \<in> set (amount_candidates (drop (length lit1) s))"
    using amount_is_candidate[OF am, of "lit2 @ t"] by (simp add: s)
  have "\<exists>cr. cr \<in> set (amount_candidates (drop (length lit1) s)) \<and> take (length lit2) (snd cr) = lit2"
    using mem by (intro exI[of _ "(a, lit2 @ t)"]) simp
  then have "find (\<lambda>cr. take (length lit2) (snd cr) = lit2) (amount_candidates (drop (length lit1) s)) \<noteq> None"
    by (simp add: find_None_iff)
  then show ?thesis
    by (auto simp: match_at_def s)
qed

lemma amount_candidates_hd:
  assumes "1 \<le> length (takeWhile is_digit s)"
  shows "\<exists>more. amount_candidates s =
     (if has_fraction (drop (length (takeWhile is_digit s)) s)
      then [(take (length (takeWhile is_digit s) + 3) s, drop (length (takeWhile is_digit s) + 3) s)]
      else [])
     @ [(take (length (takeWhile is_digit s)) s, drop (length (takeWhile is_digit s)) s)] @ more"
proof -
  obtain N where N: "length (takeWhile is_digit s) = Suc N"
    using assms by (cases "length (takeWhile is_digit s)") auto
  have "rev [1..<Suc (Suc N)] = Suc N # rev [1..<Suc N]" by simp
  then show ?thesis
    unfolding amount_candidates_def N by (simp del: upt_Suc)
qed

lemma match_at_exact:
  assumes "occurs_at lit1 lit2 s 0 a" and "closes_amount lit2"
  shows "match_at lit1 lit2 s = Some a"
proof -
  from occurs_at_0_split[OF assms(1)] obtain t where s: "s = lit1 @ a @ lit2 @ t" by blast
  have am: "is_amount a" using assms by (simp add: occurs_at_def)
  from assms(2) obtain c l2 where l2: "lit2 = c # l2" "\<not> is_digit c" "c \<noteq> CHR ''.''"
    by (auto simp: closes_amount_def split: list.splits)
  let ?s = "a @ lit2 @ t"
  have first: "\<exists>more. amount_candidates ?s = (a, lit2 @ t) # more"
    using is_amount_cases[OF am]
  proof (elim disjE exE conjE)
    assume ne: "a \<noteq> []" and d: "\<forall>x \<in> set a. is_digit x"
    have tw: "takeWhile is_digit ?s = a"
      using d l2 by (simp add: takeWhile_append2)
    have nf: "\<not> has_fraction (drop (length a) ?s)"
      using l2 has_fraction_hd[of "lit2 @ t"] by auto
    have "1 \<le> length (takeWhile is_digit ?s)" using ne tw by (simp add: Suc_leI)
    from amount_candidates_hd[OF this] show ?thesis
      unfolding tw using nf by auto
  next
    fix ip d1 d2
    assume a: "a = ip @ [CHR ''.'', d1, d2]" and ne: "ip \<noteq> []" and d: "\<forall>x \<in> set ip. is_digit x"
      and d1: "is_digit d1" and d2: "is_digit d2"
    have tw: "takeWhile is_digit ?s = ip"
      using d dot_not_digit by (simp add: a takeWhile_append2)
    have hf: "has_fraction (drop (length ip) ?s)"
      using d1 d2 by (simp add: a has_fraction_def)
    have "1 \<le> length (takeWhile is_digit ?s)" using ne tw by (simp add: Suc_leI)
    from amount_candidates_hd[OF this] show ?thesis
      unfolding tw using hf by (auto simp: a)
  qed
  then obtain more where "amount_candidates ?s = (a, lit2 @ t) # more" by blast
  then show ?thesis
    by (simp add: match_at_def s)
qed

lemma occurs_at_Suc: "occurs_at lit1 lit2 (c # cs) (Suc i) a = occurs_at lit1 lit2 cs i a"
  by (simp add: occurs_at_def)

lemma occurs_at_drop: "occurs_at lit1 lit2 n i a = occurs_at lit1 lit2 (drop i n) 0 a"
  by (simp add: occurs_at_def)

lemma regex_match_sound:
  "regex_match lit1 lit2 n = Some a \<Longrightarrow> \<exists>i. occurs_at lit1 lit2 n i a"
proof (induction n)
  case Nil
  then have "occurs_at lit1 lit2 [] 0 a" using match_at_sound by simp
  then show ?case by blast
next
  case (Cons c cs)
  show ?case
  proof (cases "match_at lit1 lit2 (c # cs)")
    case None
    with Cons obtain i where "occurs_at lit1 lit2 cs i a" by auto
    then have "occurs_at lit1 lit2 (c # cs) (Suc i) a" by (simp add: occurs_at_Suc)
    then show ?thesis by blast
  next
    case (Some b)
    with Cons.prems have "b = a" by simp
    with Some show ?thesis using match_at_sound by blast
  qed
qed

lemma regex_match_complete:
  "occurs_at lit1 lit2 n i a \<Longrightarrow> \<exists>a'. regex_match lit1 lit2 n = Some a'"
proof (induction n arbitrary: i)
  case Nil
  then have False by (auto simp: occurs_at_def dest: is_amount_nonempty)
  then show ?case ..
next
  case (Cons c cs)
  show ?case
  proof (cases "match_at lit1 lit2 (c # cs)")
    case (Some b)
    then show ?thesis by simp
  next
    case None
    have "i \<noteq> 0" using None Cons.prems match_at_complete by fastforce
    then obtain i' where "i = Suc i'" by (cases i) auto
    with Cons.prems have "occurs_at lit1 lit2 cs i' a" by (simp add: occurs_at_Suc)
    from Cons.IH[OF this] show ?thesis using None by simp
  qed
qed

lemma regex_match_None_iff:
  "regex_match lit1 lit2 n = None \<longleftrightarrow> (\<forall>i a. \<not> occurs_at lit1 lit2 n i a)"
  using regex_match_sound regex_match_complete by (metis not_Some_eq option.distinct(1))

lemma regex_match_leftmost:
  assumes "closes_amount lit2"
  shows "occurs_at lit1 lit2 n i a \<Longrightarrow> (\<forall>j<i. \<forall>b. \<not> occurs_at lit1 lit2 n j b)
         \<Longrightarrow> regex_match lit1 lit2 n = Some a"
proof (induction n arbitrary: i)
  case Nil
  then have False by (auto simp: occurs_at_def dest: is_amount_nonempty)
  then show ?case ..
next
  case (Cons c cs)
  show ?case
  proof (cases i)
    case 0
    with Cons.prems(1) show ?thesis using match_at_exact[OF _ assms] by simp
  next
    case (Suc i')
    have none: "match_at lit1 lit2 (c # cs) = None"
    proof (rule ccontr)
      assume "match_at lit1 lit2 (c # cs) \<noteq> None"
      then obtain b where "match_at lit1 lit2 (c # cs) = Some b" by auto
      then have "occurs_at lit1 lit2 (c # cs) 0 b" by (rule match_at_sound)
      with Cons.prems(2) Suc show False by blast
    qed
    have o: "occurs_at lit1 lit2 cs i' a" using Cons.prems(1) Suc by (simp add: occurs_at_Suc)
    have l: "\<forall>j<i'. \<forall>b. \<not> occurs_at lit1 lit2 cs j b"
    proof (intro allI impI)
      fix j b assume "j < i'"
      then have "Suc j < i" using Suc by simp
      with Cons.prems(2) have "\<not> occurs_at lit1 lit2 (c # cs) (Suc j) b" by blast
      then show "\<not> occurs_at lit1 lit2 cs j b" by (simp add: occurs_at_Suc)
    qed
    from Cons.IH[OF o l] none show ?thesis by simp
  qed
qed

lemma regex_match_nonempty: "regex_match lit1 lit2 n = Some a \<Longrightarrow> a \<noteq> []"
  using regex_match_sound is_amount_nonempty unfolding occurs_at_def by blast

lemma closes_cash: "closes_amount '' cash''" and closes_paren: "closes_amount '')''"
  and closes_credit: "closes_amount '' credit''"
  by (simp_all add: closes_amount_def is_digit_def)

lemma cashCashouts_step_acc: "cashCashouts_step acc t = acc + cashCashouts_step 0 t"
  by (simp add: cashCashouts_step_def split: option.splits)

lemma foldl_step_sum_list:
  fixes step :: "rat \<Rightarrow> 'a \<Rightarrow> rat"
  assumes "\<And>acc x. step acc x = acc + step 0 x"
  shows "foldl step a xs = a + sum_list (map (step 0) xs)"
proof (induction xs arbitrary: a)
  case Nil
  show ?case by simp
next
  case (Cons x xs)
  have "foldl step a (x # xs) = foldl step (step a x) xs" by simp
  also have "\<dots> = step a x + sum_list (map (step 0) xs)" by (rule Cons.IH)
  also have "\<dots> = a + step 0 x + sum_list (map (step 0) xs)" using assms[of a x] by simp
  finally show ?case by (simp add: add.assoc)
qed

section \<open>The cash a cashout takes from the till\<close>

text \<open>The value \<open>parseFloat\<close> gives to an amount.\<close>

lemma parseFloat_digits:
  assumes "\<forall>x \<in> set ds. is_digit x"
  shows "parseFloat ds = of_nat (digits_val ds)"
proof -
  have t: "takeWhile is_digit ds = ds" "dropWhile is_digit ds = []" using assms by simp_all
  show ?thesis unfolding parseFloat_def Let_def t by (simp add: digits_val_def)
qed

lemma parseFloat_fraction:
  assumes "\<forall>x \<in> set ip. is_digit x" "is_digit d1" "is_digit d2"
  shows "parseFloat (ip @ [CHR ''.'', d1, d2]) =
           of_nat (digits_val ip) + of_nat (10 * digit_val d1 + digit_val d2) / 100"
proof -
  have t: "takeWhile is_digit (ip @ [CHR ''.'', d1, d2]) = ip"
    "dropWhile is_digit (ip @ [CHR ''.'', d1, d2]) = [CHR ''.'', d1, d2]"
    using assms(1) dot_not_digit by (simp_all add: takeWhile_append2 dropWhile_append2)
  show ?thesis unfolding parseFloat_def Let_def t using assms(2,3) by (simp add: digits_val_def)
qed

text \<open>
  C3, as the code has it. \<open>cashCashouts\<close> is the sum, over the cashouts paid in cash,
  of each one's contribution \<open>cashCashouts_step 0 t\<close>. A cashout without notes
  contributes its nominal amount. With notes, the leftmost occurrence of
  \<open>received $<amount> cash\<close> decides, its amount being digits alone or digits with
  exactly two fraction digits: the contribution is the parsed amount. Without such an
  occurrence the leftmost \<open>cash paid: $<amount>)\<close> decides in the same way, and with
  neither the nominal amount is contributed.
\<close>

theorem cash_cashout_contribution:
  "cashCashouts session =
     sum_list (map (cashCashouts_step 0)
       (filter (\<lambda>t. t_type t = ''cashout'' \<and> t_paymentMethod t = ''cash'') (playerTransactions session)))
   \<and> (t_notes t = None \<longrightarrow> cashCashouts_step acc t = acc + t_amount t)
   \<and> (t_notes t = Some n \<and> occurs_at ''received $'' '' cash'' n i a
        \<and> (\<forall>j<i. \<forall>b. \<not> occurs_at ''received $'' '' cash'' n j b)
      \<longrightarrow> cashCashouts_step acc t = acc + parseFloat a)
   \<and> (t_notes t = Some n \<and> (\<forall>j b. \<not> occurs_at ''received $'' '' cash'' n j b)
        \<and> occurs_at ''cash paid: $'' '')'' n i a
        \<and> (\<forall>j<i. \<forall>b. \<not> occurs_at ''cash paid: $'' '')'' n j b)
      \<longrightarrow> cashCashouts_step acc t = acc + parseFloat a)
   \<and> (t_notes t = Some n \<and> (\<forall>j b. \<not> occurs_at ''received $'' '' cash'' n j b)
        \<and> (\<forall>j b. \<not> occurs_at ''cash paid: $'' '')'' n j b)
      \<longrightarrow> cashCashouts_step acc t = acc + t_amount t)"
proof (intro conjI impI)
  show "cashCashouts session =
     sum_list (map (cashCashouts_step 0)
       (filter (\<lambda>t. t_type t = ''cashout'' \<and> t_paymentMethod t = ''cash'') (playerTransactions session)))"
    unfolding cashCashouts_def using foldl_step_sum_list[of cashCashouts_step, OF cashCashouts_step_acc]
    by simp
next
  assume "t_notes t = None"
  then show "cashCashouts_step acc t = acc + t_amount t" by (simp add: cashCashouts_step_def)
next
  assume h: "t_notes t = Some n \<and> occurs_at ''received $'' '' cash'' n i a
        \<and> (\<forall>j<i. \<forall>b. \<not> occurs_at ''received $'' '' cash'' n j b)"
  then have "match_received_cash n = Some a"
    unfolding match_received_cash_def using regex_match_leftmost[OF closes_cash] by blast
  moreover have "n \<noteq> []" using h is_amount_nonempty by (auto simp: occurs_at_def)
  ultimately show "cashCashouts_step acc t = acc + parseFloat a"
    using h by (simp add: cashCashouts_step_def)
next
  assume h: "t_notes t = Some n \<and> (\<forall>j b. \<not> occurs_at ''received $'' '' cash'' n j b)
        \<and> occurs_at ''cash paid: $'' '')'' n i a
        \<and> (\<forall>j<i. \<forall>b. \<not> occurs_at ''cash paid: $'' '')'' n j b)"
  then have "match_cash_paid n = Some a"
    unfolding match_cash_paid_def using regex_match_leftmost[OF closes_paren] by blast
  moreover have "match_received_cash n = None"
    unfolding match_received_cash_def using h by (simp add: regex_match_None_iff)
  moreover have "n \<noteq> []" using h is_amount_nonempty by (auto simp: occurs_at_def)
  ultimately show "cashCashouts_step acc t = acc + parseFloat a"
    using h by (simp add: cashCashouts_step_def)
next
  assume h: "t_notes t = Some n \<and> (\<forall>j b. \<not> occurs_at ''received $'' '' cash'' n j b)
        \<and> (\<forall>j b. \<not> occurs_at ''cash paid: $'' '')'' n j b)"
  then have "match_received_cash n = None" "match_cash_paid n = None"
    unfolding match_received_cash_def match_cash_paid_def by (simp_all add: regex_match_None_iff)
  then show "cashCashouts_step acc t = acc + t_amount t"
    using h by (simp add: cashCashouts_step_def)
qed

text \<open>
  The theorem at the specification's example, at a legacy note, at a note that holds
  no pattern and at a cashout without notes.
\<close>

theorem cash_cashout_contribution_witness:
  "cashCashouts_step 0 hybrid_cashout = 150
   \<and> cashCashouts_step 0 legacy_cashout = 241 / 2
   \<and> cashCashouts_step 0 plain_cashout = 300
   \<and> cashCashouts_step 7 (mkTx ''t6'' ''Eve'' ''cashout'' 20 ''cash'' None True) = 27"
proof -
  have nr: "\<forall>j b. \<not> occurs_at ''received $'' '' cash'' ''(cash paid: $120.50)'' j b"
    "\<forall>j b. \<not> occurs_at ''received $'' '' cash'' ''thanks'' j b"
    "\<forall>j b. \<not> occurs_at ''cash paid: $'' '')'' ''thanks'' j b"
    unfolding regex_match_None_iff[symmetric] by (simp_all add: eval_defs)
  have a: "cashCashouts_step 0 hybrid_cashout = 0 + parseFloat ''150''"
    using cash_cashout_contribution[where t = hybrid_cashout
          and n = "''received $150 cash, paid $150 credit''" and i = 0 and a = "''150''" and acc = 0]
    by (simp add: hybrid_cashout_def eval_defs)
  have b: "cashCashouts_step 0 legacy_cashout = 0 + parseFloat ''120.50''"
    using cash_cashout_contribution[where t = legacy_cashout
          and n = "''(cash paid: $120.50)''" and i = 1 and a = "''120.50''" and acc = 0] nr(1)
    by (simp add: legacy_cashout_def eval_defs)
  have c: "cashCashouts_step 0 plain_cashout = 0 + t_amount plain_cashout"
    using cash_cashout_contribution[where t = plain_cashout and n = "''thanks''" and acc = 0] nr(2,3)
    by (simp add: plain_cashout_def mkTx_def)
  have d: "cashCashouts_step 7 (mkTx ''t6'' ''Eve'' ''cashout'' 20 ''cash'' None True) = 7 + 20"
    using cash_cashout_contribution[where t = "mkTx ''t6'' ''Eve'' ''cashout'' 20 ''cash'' None True"
          and acc = 7]
    by (simp add: mkTx_def)
  show ?thesis using a b c d
    by (simp add: plain_cashout_def eval_defs)
qed

text \<open>
  C3 as stated fails for an amount with one fraction digit: \<open>12.5\<close> is a decimal
  with up to two fraction digits, yet the note \<open>received $12.5 cash\<close> is not
  recognised and the cashout contributes its nominal 100, not 12.5.
\<close>

theorem one_fraction_digit_counterexample:
  "spec_amount ''12.5''
   \<and> t_type one_digit_cashout = ''cashout'' \<and> t_paymentMethod one_digit_cashout = ''cash''
   \<and> t_notes one_digit_cashout = Some (''received $'' @ ''12.5'' @ '' cash'')
   \<and> parseFloat ''12.5'' = 25 / 2
   \<and> cashCashouts_step 0 one_digit_cashout = 100"
  by (simp add: one_digit_cashout_def spec_amount_def cashCashouts_step_def match_received_cash_def
      match_cash_paid_def eval_defs)

section \<open>Credit settled by a cashout\<close>

lemma str_includes_iff:
  "str_includes n p \<longleftrightarrow> (\<exists>i. i \<le> length n \<and> take (length p) (drop i n) = p)"
proof (induction n)
  case Nil
  show ?case by auto
next
  case (Cons c cs)
  show ?case
  proof
    assume "str_includes (c # cs) p"
    then consider "take (length p) (c # cs) = p" | "str_includes cs p" by auto
    then show "\<exists>i. i \<le> length (c # cs) \<and> take (length p) (drop i (c # cs)) = p"
    proof cases
      case 1
      then have "0 \<le> length (c # cs) \<and> take (length p) (drop 0 (c # cs)) = p" by simp
      then show ?thesis by blast
    next
      case 2
      with Cons obtain i where "i \<le> length cs" "take (length p) (drop i cs) = p" by blast
      then have "Suc i \<le> length (c # cs) \<and> take (length p) (drop (Suc i) (c # cs)) = p" by simp
      then show ?thesis by blast
    qed
  next
    assume "\<exists>i. i \<le> length (c # cs) \<and> take (length p) (drop i (c # cs)) = p"
    then obtain i where i: "i \<le> length (c # cs)" "take (length p) (drop i (c # cs)) = p" by blast
    show "str_includes (c # cs) p"
    proof (cases i)
      case 0
      with i show ?thesis by simp
    next
      case (Suc j)
      with i have "j \<le> length cs \<and> take (length p) (drop j cs) = p" by simp
      with Cons show ?thesis by auto
    qed
  qed
qed

lemma occurs_at_includes:
  assumes "occurs_at (p @ q) lit2 n i a"
  shows "str_includes n p"
proof -
  from assms have e: "take (length (p @ q) + length a + length lit2) (drop i n) = (p @ q) @ a @ lit2"
    and am: "is_amount a"
    by (simp_all add: occurs_at_def)
  have "take (length p) (take (length (p @ q) + length a + length lit2) (drop i n)) = p"
    unfolding e by simp
  then have t: "take (length p) (drop i n) = p" by (simp add: min_def split: if_splits)
  have "i \<le> length n"
  proof (rule ccontr)
    assume "\<not> i \<le> length n"
    then have "drop i n = []" by simp
    with e is_amount_nonempty[OF am] show False by simp
  qed
  with t show ?thesis unfolding str_includes_iff by blast
qed

lemma regex_match_includes:
  "regex_match (p @ q) lit2 n = Some a \<Longrightarrow> str_includes n p"
  using regex_match_sound occurs_at_includes by blast

lemma credit_settled_includes:
  "match_credit_settled n = Some a \<Longrightarrow> str_includes n ''credit settled:''"
  using regex_match_includes[of "''credit settled:''" "'' $''" "[]" n a]
  by (simp add: match_credit_settled_def)

lemma paid_credit_includes:
  "match_paid_credit n = Some a \<Longrightarrow> str_includes n ''paid $''"
  using regex_match_includes[of "''paid $''" "[]" "'' credit''" n a]
  by (simp add: match_paid_credit_def)

lemma autoSettledCredit_step_acc:
  "autoSettledCredit_step acc t = acc + autoSettledCredit_step 0 t"
  by (simp add: autoSettledCredit_step_def split: option.splits)

lemma unfiltered_settles_nothing:
  assumes "\<not> (notes_include t ''credit settled:'' \<or> notes_include t ''paid $'')"
  shows "autoSettledCredit_step 0 t = 0"
proof (cases "t_notes t")
  case None
  then show ?thesis by (simp add: autoSettledCredit_step_def notes_match_def)
next
  case (Some n)
  with assms have "\<not> str_includes n ''credit settled:''" "\<not> str_includes n ''paid $''"
    by (simp_all add: notes_include_def)
  then have "match_credit_settled n = None" "match_paid_credit n = None"
    using credit_settled_includes paid_credit_includes by (metis not_Some_eq)+
  then show ?thesis using Some by (simp add: autoSettledCredit_step_def notes_match_def)
qed

lemma sum_list_filter_zero:
  fixes g :: "'a \<Rightarrow> rat"
  assumes "\<And>x. Q x \<Longrightarrow> \<not> P x \<Longrightarrow> g x = 0"
  shows "sum_list (map g (filter (\<lambda>x. Q x \<and> P x) xs)) = sum_list (map g (filter Q xs))"
  using assms by (induction xs) auto

lemma autoSettledCredit_all_cashouts:
  "autoSettledCredit session =
     sum_list (map (autoSettledCredit_step 0)
       (filter (\<lambda>t. t_type t = ''cashout'') (playerTransactions session)))"
proof -
  have "autoSettledCredit session =
     sum_list (map (autoSettledCredit_step 0)
       (filter (\<lambda>t. t_type t = ''cashout''
                   \<and> (notes_include t ''credit settled:'' \<or> notes_include t ''paid $''))
          (playerTransactions session)))"
    unfolding autoSettledCredit_def
    using foldl_step_sum_list[of autoSettledCredit_step, OF autoSettledCredit_step_acc] by simp
  also have "\<dots> = sum_list (map (autoSettledCredit_step 0)
       (filter (\<lambda>t. t_type t = ''cashout'') (playerTransactions session)))"
    by (rule sum_list_filter_zero) (rule unfiltered_settles_nothing)
  finally show ?thesis .
qed

lemma find_always: "xs \<noteq> [] \<Longrightarrow> (\<And>x. P x) \<Longrightarrow> find P xs = Some (hd xs)"
  by (cases xs) auto

lemma is_amount_hd: "is_amount a \<Longrightarrow> a \<noteq> [] \<and> is_digit (hd a)"
  by (cases a) (auto simp: is_amount_def Let_def split: if_splits)

lemma hd_candidate_length:
  assumes "1 \<le> length (takeWhile is_digit u)"
  shows "length (takeWhile is_digit u) \<le> length (fst (hd (amount_candidates u)))"
proof -
  from amount_candidates_hd[OF assms] obtain more where
    c: "amount_candidates u =
          (if has_fraction (drop (length (takeWhile is_digit u)) u)
           then [(take (length (takeWhile is_digit u) + 3) u, drop (length (takeWhile is_digit u) + 3) u)]
           else [])
          @ [(take (length (takeWhile is_digit u)) u, drop (length (takeWhile is_digit u)) u)] @ more"
    by blast
  have "length (takeWhile is_digit u) \<le> length u" by (rule length_takeWhile_le)
  then show ?thesis unfolding c by (simp split: if_splits)
qed

lemma match_at_longest:
  assumes m: "match_at lit1 [] s = Some a'" and o: "occurs_at lit1 [] s 0 b"
  shows "length b \<le> length a'"
proof -
  from occurs_at_0_split[OF o] obtain t where s: "s = lit1 @ b @ t" by auto
  have am: "is_amount b" using o by (simp add: occurs_at_def)
  let ?s = "b @ t"
  let ?N = "length (takeWhile is_digit ?s)"
  have N1: "1 \<le> ?N"
    using is_amount_hd[OF am] by (cases b) (auto simp: Suc_leI)
  from amount_candidates_hd[OF N1] obtain more where
    c: "amount_candidates ?s =
          (if has_fraction (drop ?N ?s) then [(take (?N + 3) ?s, drop (?N + 3) ?s)] else [])
          @ [(take ?N ?s, drop ?N ?s)] @ more" by blast
  have ne: "amount_candidates ?s \<noteq> []" unfolding c by simp
  have "find (\<lambda>cr. take (length ([]::string)) (snd cr) = []) (amount_candidates ?s)
          = Some (hd (amount_candidates ?s))"
    by (rule find_always[OF ne]) simp
  with m have a': "a' = fst (hd (amount_candidates ?s))"
    by (auto simp: match_at_def s)
  have Nle: "?N \<le> length ?s" by (rule length_takeWhile_le)
  from is_amount_cases[OF am] show ?thesis
  proof (elim disjE exE conjE)
    assume "\<forall>x \<in> set b. is_digit x"
    then have "length b \<le> ?N" by (simp add: takeWhile_append2)
    moreover have "?N \<le> length a'" unfolding a' by (rule hd_candidate_length[OF N1])
    ultimately show ?thesis by simp
  next
    fix ip d1 d2
    assume b: "b = ip @ [CHR ''.'', d1, d2]" and d: "\<forall>x \<in> set ip. is_digit x"
      and d1: "is_digit d1" and d2: "is_digit d2"
    have tw: "takeWhile is_digit ?s = ip"
      using d dot_not_digit by (simp add: b takeWhile_append2)
    have hf: "has_fraction (drop (length ip) ?s)"
      using d1 d2 by (simp add: b has_fraction_def)
    have "a' = take (length ip + 3) ?s" unfolding a' c tw using hf by simp
    then show ?thesis by (simp add: b)
  qed
qed

lemma occurs_at_same_length:
  assumes "occurs_at lit1 lit2 s i a" "occurs_at lit1 lit2 s i b" "length a = length b"
  shows "a = b"
proof -
  from assms have "lit1 @ a @ lit2 = lit1 @ b @ lit2" by (simp add: occurs_at_def)
  then show ?thesis by simp
qed

lemma match_at_longest_exact:
  assumes o: "occurs_at lit1 [] s 0 a"
    and l: "\<forall>b. occurs_at lit1 [] s 0 b \<longrightarrow> length b \<le> length a"
  shows "match_at lit1 [] s = Some a"
proof -
  from match_at_complete[OF o] obtain a' where m: "match_at lit1 [] s = Some a'" by blast
  have o': "occurs_at lit1 [] s 0 a'" using m by (rule match_at_sound)
  have "length a' \<le> length a" using l o' by blast
  moreover have "length a \<le> length a'" using match_at_longest[OF m o] .
  ultimately have "a' = a" using occurs_at_same_length[OF o' o] by simp
  with m show ?thesis by simp
qed

lemma regex_match_leftmost_longest:
  "occurs_at lit1 [] n i a \<Longrightarrow> (\<forall>j<i. \<forall>b. \<not> occurs_at lit1 [] n j b)
     \<Longrightarrow> (\<forall>b. occurs_at lit1 [] n i b \<longrightarrow> length b \<le> length a)
     \<Longrightarrow> regex_match lit1 [] n = Some a"
proof (induction n arbitrary: i)
  case Nil
  then have False by (auto simp: occurs_at_def dest: is_amount_nonempty)
  then show ?case ..
next
  case (Cons c cs)
  show ?case
  proof (cases i)
    case 0
    with Cons.prems(1,3) show ?thesis using match_at_longest_exact by simp
  next
    case (Suc i')
    have none: "match_at lit1 [] (c # cs) = None"
    proof (rule ccontr)
      assume "match_at lit1 [] (c # cs) \<noteq> None"
      then obtain b where "match_at lit1 [] (c # cs) = Some b" by auto
      then have "occurs_at lit1 [] (c # cs) 0 b" by (rule match_at_sound)
      with Cons.prems(2) Suc show False by blast
    qed
    have o: "occurs_at lit1 [] cs i' a" using Cons.prems(1) Suc by (simp add: occurs_at_Suc)
    have l: "\<forall>j<i'. \<forall>b. \<not> occurs_at lit1 [] cs j b"
    proof (intro allI impI)
      fix j b assume "j < i'"
      then have "Suc j < i" using Suc by simp
      with Cons.prems(2) have "\<not> occurs_at lit1 [] (c # cs) (Suc j) b" by blast
      then show "\<not> occurs_at lit1 [] cs j b" by (simp add: occurs_at_Suc)
    qed
    have g: "\<forall>b. occurs_at lit1 [] cs i' b \<longrightarrow> length b \<le> length a"
      using Cons.prems(3) Suc by (simp add: occurs_at_Suc)
    from Cons.IH[OF o l g] none show ?thesis by simp
  qed
qed

lemma regex_match_first:
  "regex_match lit1 lit2 n = Some a
     \<Longrightarrow> \<exists>i. occurs_at lit1 lit2 n i a \<and> (\<forall>j<i. \<forall>b. \<not> occurs_at lit1 lit2 n j b)
              \<and> match_at lit1 lit2 (drop i n) = Some a"
proof (induction n)
  case Nil
  then have "occurs_at lit1 lit2 [] 0 a \<and> match_at lit1 lit2 (drop 0 []) = Some a"
    using match_at_sound by simp
  then show ?case by blast
next
  case (Cons c cs)
  show ?case
  proof (cases "match_at lit1 lit2 (c # cs)")
    case (Some b)
    with Cons.prems have "b = a" by simp
    with Some have "occurs_at lit1 lit2 (c # cs) 0 a \<and> match_at lit1 lit2 (drop 0 (c # cs)) = Some a"
      using match_at_sound by simp
    then show ?thesis by blast
  next
    case None
    with Cons obtain i where i: "occurs_at lit1 lit2 cs i a"
      "\<forall>j<i. \<forall>b. \<not> occurs_at lit1 lit2 cs j b" "match_at lit1 lit2 (drop i cs) = Some a"
      by auto
    have no0: "\<forall>b. \<not> occurs_at lit1 lit2 (c # cs) 0 b"
      using None match_at_complete by fastforce
    have "\<forall>j<Suc i. \<forall>b. \<not> occurs_at lit1 lit2 (c # cs) j b"
    proof (intro allI impI)
      fix j b assume "j < Suc i"
      then show "\<not> occurs_at lit1 lit2 (c # cs) j b"
        using no0 i(2) by (cases j) (auto simp: occurs_at_Suc)
    qed
    with i(1,3) have "occurs_at lit1 lit2 (c # cs) (Suc i) a
        \<and> (\<forall>j<Suc i. \<forall>b. \<not> occurs_at lit1 lit2 (c # cs) j b)
        \<and> match_at lit1 lit2 (drop (Suc i) (c # cs)) = Some a"
      by (simp add: occurs_at_Suc)
    then show ?thesis by blast
  qed
qed

lemma regex_match_first_longest:
  assumes "regex_match lit1 [] n = Some a"
  shows "\<exists>i. occurs_at lit1 [] n i a \<and> (\<forall>j<i. \<forall>b. \<not> occurs_at lit1 [] n j b)
              \<and> (\<forall>b. occurs_at lit1 [] n i b \<longrightarrow> length b \<le> length a)"
proof -
  from regex_match_first[OF assms] obtain i where i: "occurs_at lit1 [] n i a"
    "\<forall>j<i. \<forall>b. \<not> occurs_at lit1 [] n j b" "match_at lit1 [] (drop i n) = Some a" by blast
  have "\<forall>b. occurs_at lit1 [] n i b \<longrightarrow> length b \<le> length a"
    using match_at_longest[OF i(3)] occurs_at_drop by blast
  with i(1,2) show ?thesis by blast
qed

text \<open>
  C4, as the code has it. \<open>manuallyPaidCredit\<close> is
  \<open>max(0, paidCreditBuyIns - autoSettledCredit)\<close> and so never negative.
  \<open>paidCreditBuyIns\<close> sums the credit buy-ins marked paid; \<open>autoSettledCredit\<close> sums,
  over all cashouts, the amount their notes settle (the route's test for
  \<open>credit settled:\<close> or \<open>paid $\<close> in the notes drops no cashout that settles
  anything). An amount is digits alone or digits with exactly two fraction digits. A
  cashout settles the amount of the leftmost \<open>credit settled: $<amount>\<close> in its
  notes, the longest amount that stands there; without one, the amount of the leftmost
  \<open>paid $<amount> credit\<close>; without either, or without notes, nothing.
\<close>

theorem manuallyPaidCredit_formula:
  "manuallyPaidCredit session =
     max 0 (sum_list (map t_amount
              (filter (\<lambda>t. t_type t = ''buy-in'' \<and> t_paymentMethod t = ''credit'' \<and> isPaid t)
                 (playerTransactions session)))
            - sum_list (map (autoSettledCredit_step 0)
                (filter (\<lambda>t. t_type t = ''cashout'') (playerTransactions session))))
   \<and> 0 \<le> manuallyPaidCredit session
   \<and> (t_notes t = None \<longrightarrow> autoSettledCredit_step acc t = acc)
   \<and> (t_notes t = Some n \<and> occurs_at ''credit settled: $'' [] n i a
        \<and> (\<forall>j<i. \<forall>b. \<not> occurs_at ''credit settled: $'' [] n j b)
        \<and> (\<forall>b. occurs_at ''credit settled: $'' [] n i b \<longrightarrow> length b \<le> length a)
      \<longrightarrow> autoSettledCredit_step acc t = acc + parseFloat a)
   \<and> (t_notes t = Some n \<and> (\<forall>j b. \<not> occurs_at ''credit settled: $'' [] n j b)
        \<and> occurs_at ''paid $'' '' credit'' n i a
        \<and> (\<forall>j<i. \<forall>b. \<not> occurs_at ''paid $'' '' credit'' n j b)
      \<longrightarrow> autoSettledCredit_step acc t = acc + parseFloat a)
   \<and> (t_notes t = Some n \<and> (\<forall>j b. \<not> occurs_at ''credit settled: $'' [] n j b)
        \<and> (\<forall>j b. \<not> occurs_at ''paid $'' '' credit'' n j b)
      \<longrightarrow> autoSettledCredit_step acc t = acc)"
proof (intro conjI impI)
  show "manuallyPaidCredit session =
     max 0 (sum_list (map t_amount
              (filter (\<lambda>t. t_type t = ''buy-in'' \<and> t_paymentMethod t = ''credit'' \<and> isPaid t)
                 (playerTransactions session)))
            - sum_list (map (autoSettledCredit_step 0)
                (filter (\<lambda>t. t_type t = ''cashout'') (playerTransactions session))))"
    by (simp add: manuallyPaidCredit_def paidCreditBuyIns_def foldl_plus_sum_list
        autoSettledCredit_all_cashouts)
next
  show "0 \<le> manuallyPaidCredit session" by (simp add: manuallyPaidCredit_def)
next
  assume "t_notes t = None"
  then show "autoSettledCredit_step acc t = acc"
    by (simp add: autoSettledCredit_step_def notes_match_def)
next
  assume h: "t_notes t = Some n \<and> occurs_at ''credit settled: $'' [] n i a
        \<and> (\<forall>j<i. \<forall>b. \<not> occurs_at ''credit settled: $'' [] n j b)
        \<and> (\<forall>b. occurs_at ''credit settled: $'' [] n i b \<longrightarrow> length b \<le> length a)"
  then have "match_credit_settled n = Some a"
    unfolding match_credit_settled_def using regex_match_leftmost_longest by blast
  then show "autoSettledCredit_step acc t = acc + parseFloat a"
    using h by (simp add: autoSettledCredit_step_def notes_match_def)
next
  assume h: "t_notes t = Some n \<and> (\<forall>j b. \<not> occurs_at ''credit settled: $'' [] n j b)
        \<and> occurs_at ''paid $'' '' credit'' n i a
        \<and> (\<forall>j<i. \<forall>b. \<not> occurs_at ''paid $'' '' credit'' n j b)"
  then have "match_paid_credit n = Some a"
    unfolding match_paid_credit_def using regex_match_leftmost[OF closes_credit] by blast
  moreover have "match_credit_settled n = None"
    unfolding match_credit_settled_def using h by (simp add: regex_match_None_iff)
  ultimately show "autoSettledCredit_step acc t = acc + parseFloat a"
    using h by (simp add: autoSettledCredit_step_def notes_match_def)
next
  assume h: "t_notes t = Some n \<and> (\<forall>j b. \<not> occurs_at ''credit settled: $'' [] n j b)
        \<and> (\<forall>j b. \<not> occurs_at ''paid $'' '' credit'' n j b)"
  then have "match_credit_settled n = None" "match_paid_credit n = None"
    unfolding match_credit_settled_def match_paid_credit_def by (simp_all add: regex_match_None_iff)
  then show "autoSettledCredit_step acc t = acc"
    using h by (simp add: autoSettledCredit_step_def notes_match_def)
qed

text \<open>
  The theorem at the specification's example (a paid credit buy-in of 500 and a
  cashout that settles 150), at a cashout that settles more than was paid, at notes
  that settle amounts with cents in either wording, at notes without a pattern and at
  a transaction without notes.
\<close>

theorem manuallyPaidCredit_formula_witness:
  "manuallyPaidCredit (mkSession 0 [paid_credit_buyin, hybrid_cashout] [] []) = 350
   \<and> manuallyPaidCredit (mkSession 0 [settled_cashout] [] []) = 0
   \<and> manuallyPaidCredit (mkSession 0 [paid_credit_buyin, cents_paid_cashout] [] []) = 1399 / 4
   \<and> autoSettledCredit_step 0 hybrid_cashout = 150
   \<and> autoSettledCredit_step 0 settled_cashout = 400
   \<and> autoSettledCredit_step 0 cents_settled_cashout = 801 / 2
   \<and> autoSettledCredit_step 0 cents_paid_cashout = 601 / 4
   \<and> autoSettledCredit_step 0 plain_cashout = 0
   \<and> autoSettledCredit_step 5 paid_credit_buyin = 5"
proof -
  have nts: "t_notes hybrid_cashout = Some ''received $150 cash, paid $150 credit''"
    "t_notes settled_cashout = Some ''credit settled: $400.00''"
    "t_notes plain_cashout = Some ''thanks''" "t_notes paid_credit_buyin = None"
    "t_notes cents_settled_cashout = Some ''credit settled: $400.50''"
    "t_notes cents_paid_cashout = Some ''received $149.75 cash, paid $150.25 credit''"
    by (simp_all add: hybrid_cashout_def settled_cashout_def plain_cashout_def
        paid_credit_buyin_def cents_settled_cashout_def cents_paid_cashout_def mkTx_def)
  have no: "\<forall>j b. \<not> occurs_at ''credit settled: $'' [] ''received $150 cash, paid $150 credit'' j b"
    "\<forall>j b. \<not> occurs_at ''credit settled: $'' [] ''thanks'' j b"
    "\<forall>j b. \<not> occurs_at ''paid $'' '' credit'' ''thanks'' j b"
    "\<forall>j b. \<not> occurs_at ''credit settled: $'' [] ''received $149.75 cash, paid $150.25 credit'' j b"
    unfolding regex_match_None_iff[symmetric] by (simp_all add: eval_defs)
  have "regex_match ''paid $'' '' credit'' ''received $150 cash, paid $150 credit'' = Some ''150''"
    by (simp add: eval_defs)
  from regex_match_first[OF this] obtain i where
    i: "occurs_at ''paid $'' '' credit'' ''received $150 cash, paid $150 credit'' i ''150''"
       "\<forall>j<i. \<forall>b. \<not> occurs_at ''paid $'' '' credit'' ''received $150 cash, paid $150 credit'' j b"
    by blast
  have a: "autoSettledCredit_step 0 hybrid_cashout = 0 + parseFloat ''150''"
    using manuallyPaidCredit_formula[where t = hybrid_cashout
          and n = "''received $150 cash, paid $150 credit''" and i = i and a = "''150''" and acc = 0]
      nts(1) no(1) i
    by blast
  have "regex_match ''credit settled: $'' [] ''credit settled: $400.00'' = Some ''400.00''"
    by (simp add: eval_defs)
  from regex_match_first_longest[OF this] obtain k where
    k: "occurs_at ''credit settled: $'' [] ''credit settled: $400.00'' k ''400.00''"
       "\<forall>j<k. \<forall>b. \<not> occurs_at ''credit settled: $'' [] ''credit settled: $400.00'' j b"
       "\<forall>b. occurs_at ''credit settled: $'' [] ''credit settled: $400.00'' k b
              \<longrightarrow> length b \<le> length ''400.00''"
    by blast
  have b: "autoSettledCredit_step 0 settled_cashout = 0 + parseFloat ''400.00''"
    using manuallyPaidCredit_formula[where t = settled_cashout
          and n = "''credit settled: $400.00''" and i = k and a = "''400.00''" and acc = 0]
      nts(2) k
    by blast
  have "regex_match ''credit settled: $'' [] ''credit settled: $400.50'' = Some ''400.50''"
    by (simp add: eval_defs)
  from regex_match_first_longest[OF this] obtain l where
    l: "occurs_at ''credit settled: $'' [] ''credit settled: $400.50'' l ''400.50''"
       "\<forall>j<l. \<forall>b. \<not> occurs_at ''credit settled: $'' [] ''credit settled: $400.50'' j b"
       "\<forall>b. occurs_at ''credit settled: $'' [] ''credit settled: $400.50'' l b
              \<longrightarrow> length b \<le> length ''400.50''"
    by blast
  have g: "autoSettledCredit_step 0 cents_settled_cashout = 0 + parseFloat ''400.50''"
    using manuallyPaidCredit_formula[where t = cents_settled_cashout
          and n = "''credit settled: $400.50''" and i = l and a = "''400.50''" and acc = 0]
      nts(5) l
    by blast
  have "regex_match ''paid $'' '' credit'' ''received $149.75 cash, paid $150.25 credit''
          = Some ''150.25''"
    by (simp add: eval_defs)
  from regex_match_first[OF this] obtain p where
    p: "occurs_at ''paid $'' '' credit'' ''received $149.75 cash, paid $150.25 credit'' p ''150.25''"
       "\<forall>j<p. \<forall>b. \<not> occurs_at ''paid $'' '' credit''
                        ''received $149.75 cash, paid $150.25 credit'' j b"
    by blast
  have h: "autoSettledCredit_step 0 cents_paid_cashout = 0 + parseFloat ''150.25''"
    using manuallyPaidCredit_formula[where t = cents_paid_cashout
          and n = "''received $149.75 cash, paid $150.25 credit''" and i = p and a = "''150.25''"
          and acc = 0]
      nts(6) no(4) p
    by blast
  have c: "autoSettledCredit_step 0 plain_cashout = 0"
    using manuallyPaidCredit_formula[where t = plain_cashout and n = "''thanks''" and acc = 0]
      nts(3) no(2,3)
    by blast
  have d: "autoSettledCredit_step 5 paid_credit_buyin = 5"
    using manuallyPaidCredit_formula[where t = paid_credit_buyin and acc = 5] nts(4)
    by blast
  have e: "manuallyPaidCredit (mkSession 0 [paid_credit_buyin, hybrid_cashout] [] []) =
             max 0 (500 - autoSettledCredit_step 0 hybrid_cashout)"
    using manuallyPaidCredit_formula[where session = "mkSession 0 [paid_credit_buyin, hybrid_cashout] [] []"]
    by (simp add: mkSession_def paid_credit_buyin_def hybrid_cashout_def mkTx_def)
  have f: "manuallyPaidCredit (mkSession 0 [settled_cashout] [] []) =
             max 0 (0 - autoSettledCredit_step 0 settled_cashout)"
    using manuallyPaidCredit_formula[where session = "mkSession 0 [settled_cashout] [] []"]
    by (simp add: mkSession_def settled_cashout_def mkTx_def)
  have q: "manuallyPaidCredit (mkSession 0 [paid_credit_buyin, cents_paid_cashout] [] []) =
             max 0 (500 - autoSettledCredit_step 0 cents_paid_cashout)"
    using manuallyPaidCredit_formula[where session = "mkSession 0 [paid_credit_buyin, cents_paid_cashout] [] []"]
    by (simp add: mkSession_def paid_credit_buyin_def cents_paid_cashout_def mkTx_def)
  have v: "parseFloat ''150'' = 150" "parseFloat ''400.00'' = 400"
    "parseFloat ''400.50'' = 801 / 2" "parseFloat ''150.25'' = 601 / 4"
    by (simp_all add: eval_defs)
  show ?thesis
    unfolding e f q a b g h using c d v by simp
qed

text \<open>
  C4 as stated fails for an amount with one fraction digit. In
  \<open>credit settled: $12.5\<close> the pattern reads 12 and leaves the rest, so that a
  paid credit buy-in of 500 leaves 488 manually paid and not 487.5; in
  \<open>paid $12.5 credit\<close> the pattern is not recognised, nothing is settled and 500
  is left.
\<close>

theorem one_fraction_digit_credit_counterexample:
  "spec_amount ''12.5'' \<and> parseFloat ''12.5'' = 25 / 2
   \<and> paidCreditBuyIns (mkSession 0 [paid_credit_buyin, one_digit_settled_cashout] [] []) = 500
   \<and> t_type one_digit_settled_cashout = ''cashout''
   \<and> t_notes one_digit_settled_cashout = Some (''credit settled: $'' @ ''12.5'')
   \<and> autoSettledCredit_step 0 one_digit_settled_cashout = 12
   \<and> manuallyPaidCredit (mkSession 0 [paid_credit_buyin, one_digit_settled_cashout] [] []) = 488
   \<and> paidCreditBuyIns (mkSession 0 [paid_credit_buyin, one_digit_paid_cashout] [] []) = 500
   \<and> t_type one_digit_paid_cashout = ''cashout''
   \<and> t_notes one_digit_paid_cashout
       = Some (''received $87.50 cash, '' @ ''paid $'' @ ''12.5'' @ '' credit'')
   \<and> autoSettledCredit_step 0 one_digit_paid_cashout = 0
   \<and> manuallyPaidCredit (mkSession 0 [paid_credit_buyin, one_digit_paid_cashout] [] []) = 500
   \<and> max 0 (500 - parseFloat ''12.5'') = 975 / 2"
  by code_simp

section \<open>The two till formulas\<close>

lemma truthy_capture_regex: "truthy_capture (regex_match lit1 lit2 n) = regex_match lit1 lit2 n"
  using regex_match_nonempty[of lit1 lit2 n]
  by (cases "regex_match lit1 lit2 n") (simp_all add: truthy_capture_def)

lemma truthy_capture_notes:
  "truthy_capture (notes_match (regex_match lit1 lit2) t) = notes_match (regex_match lit1 lit2) t"
  by (cases "t_notes t") (simp_all add: notes_match_def truthy_capture_regex, simp add: truthy_capture_def)

lemma truthy_capture_patterns:
  "truthy_capture (match_received_cash n) = match_received_cash n"
  "truthy_capture (match_cash_paid n) = match_cash_paid n"
  "truthy_capture (notes_match match_credit_settled t) = notes_match match_credit_settled t"
  "truthy_capture (notes_match match_paid_credit t) = notes_match match_paid_credit t"
  by (simp_all add: match_received_cash_def match_cash_paid_def match_credit_settled_def
      match_paid_credit_def truthy_capture_regex truthy_capture_notes)

lemma ai_cashCashouts_step_eq: "ai_cashCashouts_step = cashCashouts_step"
  unfolding ai_cashCashouts_step_def cashCashouts_step_def truthy_capture_patterns
  by (rule refl)

lemma ai_autoSettledCredit_step_eq: "ai_autoSettledCredit_step = autoSettledCredit_step"
  unfolding ai_autoSettledCredit_step_def autoSettledCredit_step_def truthy_capture_patterns
  by (rule refl)

lemma analyzer_terms_agree:
  "ai_cashBuyIns session = cashBuyIns session"
  "ai_cashCashouts session = cashCashouts session"
  "ai_autoSettledCredit session = autoSettledCredit session"
  "ai_paidCreditBuyIns session = paidCreditBuyIns session"
  "ai_manuallyPaidCredit session = manuallyPaidCredit session"
  "ai_totalPaidTips session = totalPaidTips session"
  "ai_totalExpenses session = totalExpenses session"
  by (simp_all add: ai_cashBuyIns_def cashBuyIns_def ai_cashCashouts_def cashCashouts_def
      ai_autoSettledCredit_def autoSettledCredit_def ai_paidCreditBuyIns_def paidCreditBuyIns_def
      ai_manuallyPaidCredit_def manuallyPaidCredit_def ai_totalPaidTips_def totalPaidTips_def
      ai_totalExpenses_def totalExpenses_def ai_cashCashouts_step_eq ai_autoSettledCredit_step_eq)

lemma sum_list_insort_key:
  fixes g :: "'a \<Rightarrow> rat"
  shows "sum_list (map g (insort_key k x xs)) = g x + sum_list (map g xs)"
  by (induction xs) auto

lemma sum_list_sort_key:
  fixes g :: "'a \<Rightarrow> rat"
  shows "sum_list (map g (sort_key k xs)) = sum_list (map g xs)"
  by (induction xs) (simp_all add: sum_list_insort_key)

lemma sum_filter_sort_key:
  fixes g :: "'a \<Rightarrow> rat"
  shows "sum_list (map g (filter P (sort_key k xs))) = sum_list (map g (filter P xs))"
  by (simp add: filter_sort sum_list_sort_key)

lemma summary_terms_sums:
  "cashBuyIns session = sum_list (map t_amount
      (filter (\<lambda>t. t_type t = ''buy-in'' \<and> t_paymentMethod t = ''cash'') (playerTransactions session)))"
  "cashCashouts session = sum_list (map (cashCashouts_step 0)
      (filter (\<lambda>t. t_type t = ''cashout'' \<and> t_paymentMethod t = ''cash'') (playerTransactions session)))"
  "autoSettledCredit session = sum_list (map (autoSettledCredit_step 0)
      (filter (\<lambda>t. t_type t = ''cashout'') (playerTransactions session)))"
  "paidCreditBuyIns session = sum_list (map t_amount
      (filter (\<lambda>t. t_type t = ''buy-in'' \<and> t_paymentMethod t = ''credit'' \<and> isPaid t = True)
         (playerTransactions session)))"
  "totalPaidTips session = sum_list (map tips (filter tipsPaid (dealerDowns session)))"
  "totalExpenses session = sum_list (map e_amount (expenses session))"
  "totalClaimedRake session = sum_list (map rake (filter rakeClaimed (dealerDowns session)))"
proof -
  show "cashCashouts session = sum_list (map (cashCashouts_step 0)
      (filter (\<lambda>t. t_type t = ''cashout'' \<and> t_paymentMethod t = ''cash'') (playerTransactions session)))"
    unfolding cashCashouts_def
    using foldl_step_sum_list[of cashCashouts_step, OF cashCashouts_step_acc] by simp
qed (simp_all add: cashBuyIns_def paidCreditBuyIns_def totalPaidTips_def totalExpenses_def
      totalClaimedRake_def foldl_plus_sum_list autoSettledCredit_all_cashouts)

lemma order_irrelevant:
  "cashBuyIns (orderByTimestamp session) = cashBuyIns session"
  "cashCashouts (orderByTimestamp session) = cashCashouts session"
  "manuallyPaidCredit (orderByTimestamp session) = manuallyPaidCredit session"
  "totalPaidTips (orderByTimestamp session) = totalPaidTips session"
  "totalExpenses (orderByTimestamp session) = totalExpenses session"
  "totalClaimedRake (orderByTimestamp session) = totalClaimedRake session"
  unfolding manuallyPaidCredit_def summary_terms_sums
  by (simp_all add: orderByTimestamp_def sum_filter_sort_key sum_list_sort_key)

lemma expectedTill_unordered: "expectedTill s = tillBalance s - totalClaimedRake s"
  by (simp add: expectedTill_def tillBalance_def analyzer_terms_agree)

lemma expectedTill_ordered:
  "expectedTill (orderByTimestamp session) = tillBalance session - totalClaimedRake session"
proof -
  have "tillBalance (orderByTimestamp session) = tillBalance session"
    by (simp add: tillBalance_def order_irrelevant)
  then show ?thesis
    by (simp add: expectedTill_unordered order_irrelevant)
qed

lemma example_tillBalance: "tillBalance example_session = 130"
  by (simp add: example_session_def mkSession_def cash_buyin_def plain_cashout_def claimed_down_def
      unclaimed_down_def mkDown_def mkExpense_def tillBalance_def cashBuyIns_def manuallyPaidCredit_def
      paidCreditBuyIns_def autoSettledCredit_def cashCashouts_def cashCashouts_step_def
      totalPaidTips_def totalExpenses_def notes_include_def match_received_cash_def
      match_cash_paid_def eval_defs)



section \<open>The two till formulas in the arithmetic of the routes\<close>

text \<open>The rounding to a double leaves a double as it is.\<close>

lemma pow2_powi: "pow2 e = 2 powi e"
  by (simp add: pow2_def power_int_def power_inverse [symmetric] inverse_eq_divide power_one_over)

lemma pow2_pos: "0 < pow2 e"
  by (simp add: pow2_powi)

lemma pow2_add: "pow2 (a + b) = pow2 a * pow2 b"
  by (simp add: pow2_powi power_int_add)

lemma pow2_split: "a + b = c \<Longrightarrow> pow2 a * pow2 b = pow2 c"
  using pow2_add[of a b] by simp

lemma pow2_mono: "a \<le> b \<Longrightarrow> pow2 a \<le> pow2 b"
  by (simp add: pow2_powi power_int_increasing)

lemma pow2_strict_mono: "a < b \<Longrightarrow> pow2 a < pow2 b"
  by (simp add: pow2_powi power_int_strict_increasing)

lemma pow2_nat: "0 \<le> e \<Longrightarrow> pow2 e = of_int (2 ^ nat e)"
  by (simp add: pow2_def)

lemma exponent_of_bounds:
  assumes "0 < a"
  shows "pow2 (exponent_of a) \<le> a \<and> a < pow2 (exponent_of a + 1)"
proof (cases "1 \<le> a")
  case True
  define n where "n = \<lfloor>a\<rfloor>"
  have n: "0 < n" using True by (simp add: n_def)
  have b: "1 \<le> bitlen n" using n by (auto simp: bitlen_alt_def)
  from bitlen_bounds[OF n] have l: "2 ^ nat (bitlen n - 1) \<le> n" and u: "n < 2 ^ nat (bitlen n)"
    by simp_all
  have "(of_int (2 ^ nat (bitlen n - 1)) :: rat) \<le> of_int n" using l by (simp only: of_int_le_iff)
  also have "\<dots> \<le> a" by (simp add: n_def)
  finally have L: "pow2 (bitlen n - 1) \<le> a" using b by (simp add: pow2_nat)
  have "n + 1 \<le> 2 ^ nat (bitlen n)" using u by simp
  then have "(of_int (n + 1) :: rat) \<le> of_int (2 ^ nat (bitlen n))" by (simp only: of_int_le_iff)
  moreover have "a < of_int (n + 1)" unfolding n_def by linarith
  ultimately have U: "a < pow2 (bitlen n)" using b by (simp add: pow2_nat)
  show ?thesis using True L U by (simp add: exponent_of_def n_def)
next
  case False
  define c where "c = \<lceil>1 / a\<rceil> - 1"
  have "1 < 1 / a" using False assms by simp
  then have "1 < \<lceil>1 / a\<rceil>" by (simp add: less_ceiling_iff)
  then have c: "0 < c" by (simp add: c_def)
  have b: "1 \<le> bitlen c" using c by (auto simp: bitlen_alt_def)
  from bitlen_bounds[OF c] have l: "2 ^ nat (bitlen c - 1) \<le> c" and u: "c < 2 ^ nat (bitlen c)"
    by simp_all
  have c1: "of_int c < 1 / a" unfolding c_def by linarith
  have c2: "1 / a \<le> of_int (c + 1)" unfolding c_def by simp
  have "c + 1 \<le> 2 ^ nat (bitlen c)" using u by simp
  then have "(of_int (c + 1) :: rat) \<le> 2 ^ nat (bitlen c)" by (simp del: of_int_add)
  with c2 have "1 / a \<le> 2 ^ nat (bitlen c)" by linarith
  then have "1 \<le> a * 2 ^ nat (bitlen c)" using assms by (simp add: field_simps)
  then have L: "pow2 (- bitlen c) \<le> a" using b by (simp add: pow2_def field_simps)
  have "(2 :: rat) ^ nat (bitlen c - 1) \<le> of_int c" using l by simp
  with c1 have "2 ^ nat (bitlen c - 1) < 1 / a" by linarith
  then have lt: "a * 2 ^ nat (bitlen c - 1) < 1" using assms by (simp add: field_simps)
  have U: "a < pow2 (- bitlen c + 1)"
  proof (cases "bitlen c = 1")
    case True
    then show ?thesis using False by (simp add: pow2_def)
  next
    case F: False
    then have "nat (bitlen c - 1) = nat (- (- bitlen c + 1))" "\<not> 0 \<le> - bitlen c + 1"
      using b by simp_all
    then show ?thesis using lt by (simp add: pow2_def field_simps)
  qed
  show ?thesis using False L U by (simp add: exponent_of_def c_def)
qed

lemma exponent_of_unique:
  assumes "pow2 k \<le> a" "a < pow2 (k + 1)"
  shows "exponent_of a = k"
proof -
  have a: "0 < a" using assms(1) pow2_pos[of k] by simp
  note b = exponent_of_bounds[OF a]
  have "\<not> exponent_of a < k"
  proof
    assume "exponent_of a < k"
    then have "pow2 (exponent_of a + 1) \<le> pow2 k" by (simp add: pow2_mono)
    with b assms(1) show False by simp
  qed
  moreover have "\<not> k < exponent_of a"
  proof
    assume "k < exponent_of a"
    then have "pow2 (k + 1) \<le> pow2 (exponent_of a)" by (simp add: pow2_mono)
    with b assms(2) show False by simp
  qed
  ultimately show ?thesis by simp
qed

lemma round_half_even_int: "round_half_even (of_int k) = k"
  by (simp add: round_half_even_def)

lemma round_half_even_bounds:
  "\<lfloor>q\<rfloor> \<le> round_half_even q \<and> round_half_even q \<le> \<lfloor>q\<rfloor> + 1"
  by (simp add: round_half_even_def Let_def)

lemma binary64_idem: "binary64 (binary64 x) = binary64 x"
proof (cases "x = 0")
  case True
  then show ?thesis by (simp add: binary64_def)
next
  case False
  define a where "a = \<bar>x\<bar>"
  define e where "e = max (exponent_of a) (- 1022)"
  define ulp where "ulp = pow2 (e - 52)"
  define m where "m = round_half_even (a / ulp)"
  define y where "y = sgn x * of_int m * ulp"
  have a: "0 < a" using False by (simp add: a_def)
  have ulp: "0 < ulp" by (simp add: ulp_def pow2_pos)
  have y: "binary64 x = y"
    using False by (simp add: binary64_def Let_def y_def m_def ulp_def e_def a_def)
  have "a < pow2 (exponent_of a + 1)" using exponent_of_bounds[OF a] by simp
  also have "\<dots> \<le> pow2 (e + 1)" by (rule pow2_mono) (simp add: e_def)
  also have "\<dots> = pow2 53 * ulp" unfolding ulp_def by (rule pow2_split[symmetric]) simp
  finally have "a / ulp < pow2 53" using ulp by (simp add: field_simps)
  then have "a / ulp < of_int (2 ^ 53)" by (simp add: pow2_def)
  then have "\<lfloor>a / ulp\<rfloor> < 2 ^ 53" by (simp only: floor_less_iff)
  moreover have "m \<le> \<lfloor>a / ulp\<rfloor> + 1"
    using round_half_even_bounds[of "a / ulp"] by (simp add: m_def)
  ultimately have mu: "m \<le> 2 ^ 53" by linarith
  have "0 \<le> a / ulp" using a ulp by simp
  then have "0 \<le> \<lfloor>a / ulp\<rfloor>" by simp
  moreover have "\<lfloor>a / ulp\<rfloor> \<le> m"
    using round_half_even_bounds[of "a / ulp"] by (simp add: m_def)
  ultimately have ml: "0 \<le> m" by linarith
  show ?thesis
  proof (cases "m = 0")
    case True
    then show ?thesis unfolding y by (simp add: y_def binary64_def)
  next
    case m0: False
    then have mp: "0 < m" using ml by simp
    have pos: "0 < of_int m * ulp" using mp ulp by simp
    have yx: "y = sgn x * (of_int m * ulp)" by (simp add: y_def)
    have ay: "\<bar>y\<bar> = of_int m * ulp"
      using pos False mp ulp by (simp add: yx abs_mult sgn_if)
    have sy: "sgn y = sgn x" using mp ulp by (simp add: yx sgn_mult)
    have y0: "y \<noteq> 0" using ay mp ulp by auto
    define e' where "e' = max (exponent_of \<bar>y\<bar>) (- 1022)"
    have "\<exists>k. \<bar>y\<bar> / pow2 (e' - 52) = of_int k"
    proof (cases "m = 2 ^ 53")
      case True
      have "\<bar>y\<bar> = pow2 53 * pow2 (e - 52)" using True by (simp add: ay ulp_def pow2_nat)
      also have "\<dots> = pow2 (e + 1)" by (rule pow2_split) simp
      finally have p: "\<bar>y\<bar> = pow2 (e + 1)" .
      have "exponent_of \<bar>y\<bar> = e + 1"
        by (rule exponent_of_unique) (simp_all add: p pow2_strict_mono)
      moreover have "- 1022 \<le> e" by (simp add: e_def)
      ultimately have "e' = e + 1" by (simp add: e'_def)
      moreover have "pow2 52 * pow2 (e' - 52) = pow2 e'" by (rule pow2_split) simp
      ultimately have "\<bar>y\<bar> = pow2 52 * pow2 (e' - 52)" unfolding p by simp
      then have "\<bar>y\<bar> / pow2 (e' - 52) = of_int (2 ^ 52)"
        using pow2_pos[of "e' - 52"] by (simp add: pow2_def)
      then show ?thesis by blast
    next
      case False
      then have "m + 1 \<le> 2 ^ 53" using mu by simp
      then have "(of_int (m + 1) :: rat) \<le> of_int (2 ^ 53)" by (simp only: of_int_le_iff)
      then have "(of_int m :: rat) < pow2 53" by (simp add: pow2_def)
      then have "\<bar>y\<bar> < pow2 53 * pow2 (e - 52)" using ulp by (simp add: ay ulp_def)
      also have "\<dots> = pow2 (e + 1)" by (rule pow2_split) simp
      finally have lt: "\<bar>y\<bar> < pow2 (e + 1)" .
      have "\<not> e + 1 \<le> exponent_of \<bar>y\<bar>"
      proof
        assume "e + 1 \<le> exponent_of \<bar>y\<bar>"
        then have "pow2 (e + 1) \<le> pow2 (exponent_of \<bar>y\<bar>)" by (rule pow2_mono)
        also have "\<dots> \<le> \<bar>y\<bar>" using exponent_of_bounds[of "\<bar>y\<bar>"] y0 by simp
        finally show False using lt by simp
      qed
      moreover have "- 1022 \<le> e" by (simp add: e_def)
      ultimately have le: "e' \<le> e" by (simp add: e'_def)
      have "ulp = pow2 (e - e') * pow2 (e' - 52)"
        unfolding ulp_def by (rule pow2_split[symmetric]) simp
      then have "\<bar>y\<bar> / pow2 (e' - 52) = of_int m * pow2 (e - e')"
        using pow2_pos[of "e' - 52"] by (simp add: ay)
      also have "\<dots> = of_int (m * 2 ^ nat (e - e'))" using le by (simp add: pow2_nat)
      finally show ?thesis by blast
    qed
    then obtain k where k: "\<bar>y\<bar> / pow2 (e' - 52) = of_int k" by blast
    have "binary64 y = sgn y * of_int (round_half_even (\<bar>y\<bar> / pow2 (e' - 52))) * pow2 (e' - 52)"
      using y0 by (simp add: binary64_def Let_def e'_def)
    also have "\<dots> = sgn y * (\<bar>y\<bar> / pow2 (e' - 52)) * pow2 (e' - 52)"
      unfolding k round_half_even_int by (rule refl)
    also have "\<dots> = sgn y * \<bar>y\<bar>" using pow2_pos[of "e' - 52"] by simp
    also have "\<dots> = y" by (simp add: sgn_if)
    finally show ?thesis unfolding y .
  qed
qed

text \<open>
  The analyzer's tests \<open>newMatch?.[1]\<close> change nothing under any rounding, and without
  rounding the formulas are the exact ones.
\<close>

lemma r_steps_agree:
  "r_ai_cashCashouts_step = r_cashCashouts_step"
  "r_ai_autoSettledCredit_step = r_autoSettledCredit_step"
  unfolding r_ai_cashCashouts_step_def r_cashCashouts_step_def
    r_ai_autoSettledCredit_step_def r_autoSettledCredit_step_def truthy_capture_patterns
  by (rule refl)+

lemma r_terms_agree:
  "r_ai_cashBuyIns rnd session = r_cashBuyIns rnd session"
  "r_ai_cashCashouts rnd session = r_cashCashouts rnd session"
  "r_ai_autoSettledCredit rnd session = r_autoSettledCredit rnd session"
  "r_ai_paidCreditBuyIns rnd session = r_paidCreditBuyIns rnd session"
  "r_ai_manuallyPaidCredit rnd session = r_manuallyPaidCredit rnd session"
  "r_ai_totalPaidTips rnd session = r_totalPaidTips rnd session"
  "r_ai_totalExpenses rnd session = r_totalExpenses rnd session"
  by (simp_all add: r_ai_cashBuyIns_def r_cashBuyIns_def r_ai_cashCashouts_def r_cashCashouts_def
      r_ai_autoSettledCredit_def r_autoSettledCredit_def r_ai_paidCreditBuyIns_def
      r_paidCreditBuyIns_def r_ai_manuallyPaidCredit_def r_manuallyPaidCredit_def
      r_ai_totalPaidTips_def r_totalPaidTips_def r_ai_totalExpenses_def r_totalExpenses_def
      r_steps_agree)

lemma r_steps_exact:
  "r_cashCashouts_step id = cashCashouts_step"
  "r_autoSettledCredit_step id = autoSettledCredit_step"
  unfolding r_cashCashouts_step_def cashCashouts_step_def
    r_autoSettledCredit_step_def autoSettledCredit_step_def id_apply
  by (rule refl)+

lemma r_exact:
  "r_cashBuyIns id session = cashBuyIns session"
  "r_cashCashouts id session = cashCashouts session"
  "r_manuallyPaidCredit id session = manuallyPaidCredit session"
  "r_totalPaidTips id session = totalPaidTips session"
  "r_totalExpenses id session = totalExpenses session"
  "r_totalClaimedRake id session = totalClaimedRake session"
  "r_tillBalance id session = tillBalance session"
  "r_expectedTill id session = expectedTill session"
proof -
  show a: "r_cashBuyIns id session = cashBuyIns session"
    by (simp add: r_cashBuyIns_def cashBuyIns_def)
  show b: "r_cashCashouts id session = cashCashouts session"
    by (simp add: r_cashCashouts_def cashCashouts_def r_steps_exact)
  show c: "r_manuallyPaidCredit id session = manuallyPaidCredit session"
    by (simp add: r_manuallyPaidCredit_def manuallyPaidCredit_def r_paidCreditBuyIns_def
        paidCreditBuyIns_def r_autoSettledCredit_def autoSettledCredit_def r_steps_exact)
  show d: "r_totalPaidTips id session = totalPaidTips session"
    by (simp add: r_totalPaidTips_def totalPaidTips_def)
  show e: "r_totalExpenses id session = totalExpenses session"
    by (simp add: r_totalExpenses_def totalExpenses_def)
  show f: "r_totalClaimedRake id session = totalClaimedRake session"
    by (simp add: r_totalClaimedRake_def totalClaimedRake_def)
  show g: "r_tillBalance id session = tillBalance session"
    by (simp add: r_tillBalance_def tillBalance_def a b c d e)
  show "r_expectedTill id session = expectedTill session"
    unfolding expectedTill_unordered g[symmetric] f[symmetric]
    by (simp add: r_expectedTill_def r_tillBalance_def r_terms_agree)
qed

text \<open>
  C1, as the code has it. The two formulas are computed in doubles, each sum and
  difference rounded. On the same rows in the same order the analyzer's formula and
  the summary's have the same five terms (cash buy-ins, manually paid credit, cash
  cashouts, paid tips, expenses), under any rounding; the summary subtracts tips and
  then expenses, the analyzer subtracts tips, then the claimed rake, then expenses.
  In doubles \<open>expectedTill\<close> is \<open>tillBalance\<close> when the claimed rake is 0. Without
  rounding \<open>expectedTill\<close> is \<open>tillBalance\<close> less the claimed rake, also when the
  analyzer reads the rows ordered by their timestamps.
\<close>

theorem till_formulas_differ_by_claimed_rake:
  "r_ai_cashBuyIns rnd session = r_cashBuyIns rnd session
   \<and> r_ai_manuallyPaidCredit rnd session = r_manuallyPaidCredit rnd session
   \<and> r_ai_cashCashouts rnd session = r_cashCashouts rnd session
   \<and> r_ai_totalPaidTips rnd session = r_totalPaidTips rnd session
   \<and> r_ai_totalExpenses rnd session = r_totalExpenses rnd session
   \<and> r_tillBalance rnd session =
       rnd (rnd (rnd (rnd (r_cashBuyIns rnd session + r_manuallyPaidCredit rnd session)
                      - r_cashCashouts rnd session)
                 - r_totalPaidTips rnd session)
            - r_totalExpenses rnd session)
   \<and> r_expectedTill rnd session =
       rnd (rnd (rnd (rnd (rnd (r_cashBuyIns rnd session + r_manuallyPaidCredit rnd session)
                           - r_cashCashouts rnd session)
                      - r_totalPaidTips rnd session)
                 - r_totalClaimedRake rnd session)
            - r_totalExpenses rnd session)
   \<and> (r_totalClaimedRake binary64 session = 0
        \<longrightarrow> r_expectedTill binary64 session = r_tillBalance binary64 session)
   \<and> r_expectedTill id session = r_tillBalance id session - r_totalClaimedRake id session
   \<and> r_expectedTill id (orderByTimestamp session)
       = r_tillBalance id session - r_totalClaimedRake id session
   \<and> r_totalClaimedRake id session
       = sum_list (map rake (filter rakeClaimed (dealerDowns session)))"
proof -
  have e: "r_expectedTill f session =
       f (f (f (f (f (r_cashBuyIns f session + r_manuallyPaidCredit f session)
                           - r_cashCashouts f session)
                      - r_totalPaidTips f session)
                 - r_totalClaimedRake f session)
            - r_totalExpenses f session)" for f
    by (simp add: r_expectedTill_def r_terms_agree)
  have z: "r_expectedTill binary64 session = r_tillBalance binary64 session"
    if "r_totalClaimedRake binary64 session = 0"
    unfolding e[of binary64] that r_tillBalance_def by (simp add: binary64_idem)
  have x: "r_expectedTill id session = r_tillBalance id session - r_totalClaimedRake id session"
    unfolding r_exact by (rule expectedTill_unordered)
  have o: "r_expectedTill id (orderByTimestamp session)
       = r_tillBalance id session - r_totalClaimedRake id session"
    unfolding r_exact by (rule expectedTill_ordered)
  have c: "r_totalClaimedRake id session
       = sum_list (map rake (filter rakeClaimed (dealerDowns session)))"
    unfolding r_exact by (rule summary_terms_sums(7))
  show ?thesis
    unfolding e[of rnd] using x o z c by (simp add: r_terms_agree r_tillBalance_def)
qed

text \<open>
  The theorem in doubles at a session whose rake of 10.1 is not claimed, where both
  formulas give the double 129.7, and without rounding at the example session, whose
  claimed rake is 25.
\<close>

theorem till_formulas_witness:
  "r_totalClaimedRake binary64 unclaimed_session = 0
   \<and> r_expectedTill binary64 unclaimed_session = r_tillBalance binary64 unclaimed_session
   \<and> r_tillBalance binary64 unclaimed_session = 2281706529960755 / 17592186044416
   \<and> r_tillBalance id example_session = 130
   \<and> r_totalClaimedRake id example_session = 25
   \<and> r_expectedTill id example_session = 105"
proof -
  have z: "r_totalClaimedRake binary64 unclaimed_session = 0"
    by (simp add: r_totalClaimedRake_def unclaimed_session_def mkSession_def mkDown_def)
  have v: "r_tillBalance binary64 unclaimed_session = 2281706529960755 / 17592186044416"
    by code_simp
  have t: "r_tillBalance id example_session = 130"
    unfolding r_exact by (rule example_tillBalance)
  have r: "r_totalClaimedRake id example_session = 25"
    by (simp add: r_totalClaimedRake_def example_session_def mkSession_def claimed_down_def
        unclaimed_down_def mkDown_def)
  show ?thesis
    using till_formulas_differ_by_claimed_rake[of binary64 unclaimed_session]
      till_formulas_differ_by_claimed_rake[of id example_session] z v t r
    by simp
qed

text \<open>
  C1 as stated fails in the arithmetic of the routes. At a cash buy-in of 500, a cash
  cashout of 300, paid tips of 40, a claimed rake of 10.1 and an expense of 30.3 the
  analyzer computes \<open>(160 - 10.1) - 30.3\<close>, the double 119.60000000000001; the
  summary computes \<open>160 - 30.3\<close>, the double 129.7, and 129.7 less 10.1 is neither
  exactly nor as a double what the analyzer computes: the double is 119.6.
\<close>

theorem rounded_expectedTill_counterexample:
  "binary64 (rake (hd (dealerDowns rounding_session))) = rake (hd (dealerDowns rounding_session))
   \<and> binary64 (e_amount (hd (expenses rounding_session))) = e_amount (hd (expenses rounding_session))
   \<and> r_totalClaimedRake binary64 rounding_session = 5685794529555251 / 562949953421312
   \<and> r_tillBalance binary64 rounding_session = 2281706529960755 / 17592186044416
   \<and> r_expectedTill binary64 rounding_session = 8416101803648615 / 70368744177664
   \<and> binary64 (r_tillBalance binary64 rounding_session - r_totalClaimedRake binary64 rounding_session)
       = 4208050901824307 / 35184372088832
   \<and> r_expectedTill binary64 rounding_session
       \<noteq> binary64 (r_tillBalance binary64 rounding_session - r_totalClaimedRake binary64 rounding_session)
   \<and> r_expectedTill binary64 rounding_session
       \<noteq> r_tillBalance binary64 rounding_session - r_totalClaimedRake binary64 rounding_session"
  by code_simp

section \<open>Outstanding credit\<close>

lemma entryOf_credit_step:
  "fst (entryOf (credit_step m t) p) =
     fst (entryOf m p) + (if playerName t = p \<and> t_paymentMethod t = ''credit''
                              \<and> t_type t = ''buy-in'' \<and> \<not> isPaid t then t_amount t else 0)"
  "snd (entryOf (credit_step m t) p) =
     snd (entryOf m p) + (if playerName t = p \<and> t_paymentMethod t = ''credit''
                              \<and> t_type t = ''cashout'' then t_amount t else 0)"
  by (auto simp: entryOf_def credit_step_def Let_def update_conv' split: option.splits)

lemma entryOf_foldl:
  "fst (entryOf (foldl credit_step m txs) p) = fst (entryOf m p) + unpaidCreditBuyIns p txs"
  "snd (entryOf (foldl credit_step m txs) p) = snd (entryOf m p) + creditCashouts p txs"
proof (induction txs arbitrary: m)
  case Nil
  { case 1 show ?case by (simp add: unpaidCreditBuyIns_def) }
  { case 2 show ?case by (simp add: creditCashouts_def) }
next
  case (Cons t txs)
  { case 1 show ?case
      using Cons(1)[of "credit_step m t"] entryOf_credit_step(1)[of m t p]
      by (simp add: unpaidCreditBuyIns_def) }
  { case 2 show ?case
      using Cons(2)[of "credit_step m t"] entryOf_credit_step(2)[of m t p]
      by (simp add: creditCashouts_def) }
qed

lemma keys_credit_step:
  "map fst (credit_step m t) =
     (if t_paymentMethod t = ''credit'' \<and> playerName t \<notin> set (map fst m)
      then map fst m @ [playerName t] else map fst m)"
  by (simp add: credit_step_def Let_def update_keys)

lemma distinct_credit_step: "distinct (map fst m) \<Longrightarrow> distinct (map fst (credit_step m t))"
  by (simp add: keys_credit_step)

lemma keys_foldl:
  "distinct (map fst m) \<Longrightarrow>
     distinct (map fst (foldl credit_step m txs))
     \<and> set (map fst (foldl credit_step m txs)) =
         set (map fst m) \<union> set (map playerName (filter (\<lambda>t. t_paymentMethod t = ''credit'') txs))"
proof (induction txs arbitrary: m)
  case Nil
  then show ?case by simp
next
  case (Cons t txs)
  have d: "distinct (map fst (credit_step m t))" using Cons.prems by (rule distinct_credit_step)
  have k: "set (map fst (credit_step m t)) =
             set (map fst m) \<union> (if t_paymentMethod t = ''credit'' then {playerName t} else {})"
    by (auto simp: keys_credit_step)
  from Cons.IH[OF d] show ?case unfolding k by auto
qed

lemma foldl_entries:
  assumes "distinct (map fst m)"
  shows "foldl (\<lambda>cb entry. cb + max 0 (fst (snd entry) - snd (snd entry))) 0 m =
         sum_list (map (\<lambda>p. max 0 (fst (entryOf m p) - snd (entryOf m p))) (map fst m))"
proof -
  have "foldl (\<lambda>cb entry. cb + max 0 (fst (snd entry) - snd (snd entry))) 0 m =
        sum_list (map (\<lambda>entry. max 0 (fst (snd entry) - snd (snd entry))) m)"
    using foldl_plus_sum_list[of "\<lambda>entry. max 0 (fst (snd entry) - snd (snd entry))" 0 m] by simp
  also have "map (\<lambda>entry. max 0 (fst (snd entry) - snd (snd entry))) m =
             map ((\<lambda>p. max 0 (fst (entryOf m p) - snd (entryOf m p))) \<circ> fst) m"
  proof (rule map_cong[OF refl])
    fix e assume "e \<in> set m"
    then have "map_of m (fst e) = Some (snd e)"
      using assms map_of_is_SomeI[of m "fst e" "snd e"] by simp
    then show "max 0 (fst (snd e) - snd (snd e)) =
               ((\<lambda>p. max 0 (fst (entryOf m p) - snd (entryOf m p))) \<circ> fst) e"
      by (simp add: entryOf_def)
  qed
  finally show ?thesis by simp
qed

lemma creditBalance_refines:
  "creditBalance session = spec_creditBalance (playerTransactions session)"
proof -
  let ?txs = "playerTransactions session"
  let ?m = "foldl credit_step [] ?txs"
  have k: "distinct (map fst ?m)"
    "set (map fst ?m) = set (creditPlayers ?txs)"
    using keys_foldl[of "[]" ?txs] by (simp_all add: creditPlayers_def)
  have e: "max 0 (fst (entryOf ?m p) - snd (entryOf ?m p)) = netOwed ?txs p" for p
    using entryOf_foldl[of "[]" ?txs p] by (simp add: netOwed_def entryOf_def)
  have "creditBalance session = sum_list (map (netOwed ?txs) (map fst ?m))"
    unfolding creditBalance_def playerCreditMap_def foldl_entries[OF k(1)] e ..
  also have "\<dots> = sum (netOwed ?txs) (set (map fst ?m))"
    by (rule sum_list_distinct_conv_sum_set[OF k(1)])
  also have "\<dots> = sum (netOwed ?txs) (set (creditPlayers ?txs))" by (simp only: k(2))
  also have "\<dots> = sum_list (map (netOwed ?txs) (creditPlayers ?txs))"
    by (simp add: sum_list_distinct_conv_sum_set creditPlayers_def)
  finally show ?thesis by (simp add: spec_creditBalance_def)
qed

lemma sum_list_nonneg_filter:
  fixes g :: "'a \<Rightarrow> rat"
  shows "sum_list (map (\<lambda>x. max 0 (g x)) xs) = sum_list (map g (filter (\<lambda>x. g x > 0) xs))"
  by (induction xs) (auto simp: max_def)

text \<open>
  C7. \<open>creditBalance\<close>, computed with the map from player names to
  \<open>{ buyIns, cashouts }\<close>, is the sum over the players with a credit transaction of
  max(0, unpaid credit buy-ins - credit cashouts); it is never negative, and it is the
  sum of the net amounts of the players whose net is positive.
\<close>

theorem creditBalance_per_player:
  "creditBalance session = spec_creditBalance (playerTransactions session)
   \<and> 0 \<le> creditBalance session
   \<and> creditBalance session =
       sum_list (map (\<lambda>p. unpaidCreditBuyIns p (playerTransactions session)
                            - creditCashouts p (playerTransactions session))
         (filter (\<lambda>p. unpaidCreditBuyIns p (playerTransactions session)
                         - creditCashouts p (playerTransactions session) > 0)
            (creditPlayers (playerTransactions session))))"
proof -
  let ?txs = "playerTransactions session"
  have r: "creditBalance session = spec_creditBalance ?txs" by (rule creditBalance_refines)
  have "0 \<le> spec_creditBalance ?txs"
    unfolding spec_creditBalance_def by (rule sum_list_nonneg) (auto simp: netOwed_def)
  moreover have "spec_creditBalance ?txs =
       sum_list (map (\<lambda>p. unpaidCreditBuyIns p ?txs - creditCashouts p ?txs)
         (filter (\<lambda>p. unpaidCreditBuyIns p ?txs - creditCashouts p ?txs > 0) (creditPlayers ?txs)))"
    unfolding spec_creditBalance_def
    using sum_list_nonneg_filter[of "\<lambda>p. unpaidCreditBuyIns p ?txs - creditCashouts p ?txs" "creditPlayers ?txs"]
    by (simp add: netOwed_def[abs_def])
  ultimately show ?thesis using r by simp
qed

text \<open>
  The theorem at a ledger with the specification's example (Ann: 500 unpaid, 300
  cashed out, owes 200), a player whose cashouts exceed the unpaid buy-ins (Bob), and
  one whose credit is paid (Cat).
\<close>

theorem creditBalance_per_player_witness:
  "creditBalance (mkSession 0 credit_ledger [] []) = 200
   \<and> creditPlayers credit_ledger = [''Ann'', ''Cat'', ''Bob'']
   \<and> netOwed credit_ledger ''Ann'' = 200
   \<and> netOwed credit_ledger ''Bob'' = 0
   \<and> netOwed credit_ledger ''Cat'' = 0"
proof -
  have p: "playerTransactions (mkSession 0 credit_ledger [] []) = credit_ledger"
    by (simp add: mkSession_def)
  have n: "creditPlayers credit_ledger = [''Ann'', ''Cat'', ''Bob'']"
    "netOwed credit_ledger ''Ann'' = 200" "netOwed credit_ledger ''Bob'' = 0"
    "netOwed credit_ledger ''Cat'' = 0"
    by (simp_all add: creditPlayers_def netOwed_def unpaidCreditBuyIns_def creditCashouts_def
        credit_ledger_def mkTx_def)
  have "creditBalance (mkSession 0 credit_ledger [] []) = spec_creditBalance credit_ledger"
    using creditBalance_per_player[of "mkSession 0 credit_ledger [] []"] unfolding p by blast
  then show ?thesis using n by (simp add: spec_creditBalance_def)
qed

section \<open>A session without events\<close>

lemma getSummary_accessible:
  "findAccessibleSession db uid sid = Some row
     \<Longrightarrow> getSummary db uid sid = Json (computeSummary (includeEvents db row))"
  by (simp add: getSummary_def)

text \<open>
  C8, as the code has it. For a session with no player transactions, no dealer-downs
  and no expenses the summary has tillBalance = 0, creditBalance = 0 and
  playerCount = 0; netProfit is the session's \<open>totalRake\<close> when that is positive
  (the lump sum from the drop box count) and 0 otherwise.
\<close>

theorem empty_session_summary:
  assumes "playerTransactions session = []" "dealerDowns session = []" "expenses session = []"
  shows "g_tillBalance (computeSummary session) = 0
       \<and> g_creditBalance (computeSummary session) = 0
       \<and> g_playerCount (computeSummary session) = 0
       \<and> g_netProfit (computeSummary session) = (if totalRake session > 0 then totalRake session else 0)"
  using assms
  by (simp add: computeSummary_def tillBalance_def cashBuyIns_def manuallyPaidCredit_def
      paidCreditBuyIns_def autoSettledCredit_def cashCashouts_def totalPaidTips_def
      totalExpenses_def creditBalance_def playerCreditMap_def playerCount_def netProfit_def
      summary_totalRake_def)

text \<open>The theorem at an empty session without and with a lump-sum rake.\<close>

theorem empty_session_summary_witness:
  "g_tillBalance (computeSummary (mkSession 0 [] [] [])) = 0
   \<and> g_creditBalance (computeSummary (mkSession 0 [] [] [])) = 0
   \<and> g_playerCount (computeSummary (mkSession 0 [] [] [])) = 0
   \<and> g_netProfit (computeSummary (mkSession 0 [] [] [])) = 0
   \<and> g_netProfit (computeSummary (mkSession 500 [] [] [])) = 500"
  using empty_session_summary[of "mkSession 0 [] [] []"] empty_session_summary[of "mkSession 500 [] [] []"]
  by (simp add: mkSession_def)

text \<open>
  C8 as stated fails when the session's \<open>totalRake\<close> has been entered: with no
  events at all and a total rake of 500, netProfit is 500.
\<close>

theorem lump_sum_rake_counterexample:
  "playerTransactions (mkSession 500 [] [] []) = []
   \<and> dealerDowns (mkSession 500 [] [] []) = []
   \<and> expenses (mkSession 500 [] [] []) = []
   \<and> g_netProfit (computeSummary (mkSession 500 [] [] [])) = 500"
  by (simp add: mkSession_def computeSummary_def netProfit_def summary_totalRake_def totalExpenses_def)

section \<open>Claiming a dealer's tips\<close>

lemma find_weaken:
  "find P xs \<noteq> None \<Longrightarrow> (\<And>x. P x \<Longrightarrow> Q x) \<Longrightarrow> find Q xs \<noteq> None"
  by (auto simp: find_None_iff)

lemma no_unpaid_after:
  assumes "q_dealerName data' = q_dealerName data" "q_gameSessionId data' = q_gameSessionId data"
  shows "filter (unpaidOf data') (markPaid data downs) = []"
  using assms by (induction downs) (auto simp: markPaid_def unpaidOf_def)

lemma claimTipsByDealer_owner:
  assumes "find (\<lambda>s. s_id s = q_gameSessionId data \<and> userId s = uid) (db_gameSessions db) \<noteq> None"
  shows "claimTipsByDealer db uid data =
     (if filter (unpaidOf data) (db_dealerDowns db) = []
      then (Json \<lparr> updatedCount = 0, totalTipsClaimed = 0, ownerCut = 0, dealerPayout = 0 \<rparr>, db)
      else (Json \<lparr> updatedCount = length (filter (unpaidOf data) (db_dealerDowns db)),
                   totalTipsClaimed = sum_list (map tips (filter (unpaidOf data) (db_dealerDowns db))),
                   ownerCut = sum_list (map tips (filter (unpaidOf data) (db_dealerDowns db)))
                              - sum_list (map tips (filter (unpaidOf data) (db_dealerDowns db)))
                                * percentageOf data / 100,
                   dealerPayout = sum_list (map tips (filter (unpaidOf data) (db_dealerDowns db)))
                                  * percentageOf data / 100 \<rparr>,
            db \<lparr> db_dealerDowns := markPaid data (db_dealerDowns db) \<rparr>))"
proof -
  obtain s1 where s1: "find (\<lambda>s. s_id s = q_gameSessionId data) (db_gameSessions db) = Some s1"
    using find_weaken[OF assms, of "\<lambda>s. s_id s = q_gameSessionId data"] by blast
  from assms obtain s2 where
    s2: "find (\<lambda>s. s_id s = q_gameSessionId data \<and> userId s = uid) (db_gameSessions db) = Some s2"
    by blast
  show ?thesis
  proof (cases "filter (unpaidOf data) (db_dealerDowns db) = []")
    case True
    show ?thesis
      unfolding claimTipsByDealer_def Let_def s1 s2 True by simp
  next
    case False
    have fl: "foldl (\<lambda>sum d. sum + tips d) 0 (filter (unpaidOf data) (db_dealerDowns db)) =
          sum_list (map tips (filter (unpaidOf data) (db_dealerDowns db)))"
      by (simp add: foldl_plus_sum_list)
    show ?thesis
      unfolding claimTipsByDealer_def Let_def s1 s2 fl percentageOf_def[symmetric] markPaid_def[symmetric]
      using False by simp
  qed
qed

lemma claimTipsByDealer_refused:
  assumes "find (\<lambda>s. s_id s = q_gameSessionId data \<and> userId s = uid) (db_gameSessions db) = None"
  shows "snd (claimTipsByDealer db uid data) = db"
    and "fst (claimTipsByDealer db uid data) =
           (if find (\<lambda>s. s_id s = q_gameSessionId data) (db_gameSessions db) = None
            then Error 404 ''Game session does not exist. It may have been deleted.''
            else Error 403 ''You don't have access to this game session. You may be logged in with a different account.'')"
  using assms by (simp_all add: claimTipsByDealer_def Let_def)

text \<open>
  C9. A call of claim-tips-by-dealer by the owner of the session, with percentage p
  (100 when the request has none): the response has totalTipsClaimed = the sum of the
  tips of the dealer's unpaid downs in the session, dealerPayout = totalTipsClaimed * p
  / 100, ownerCut = totalTipsClaimed - dealerPayout and updatedCount = the number of
  those downs; afterwards exactly those downs are marked paid, so every down of the
  dealer in the session has \<open>tipsPaid\<close>; and an immediately repeated call for the same
  dealer and session (with any percentage) changes nothing and returns updatedCount = 0
  with all amounts 0. For a user who does not own the session
  the route answers 404 or 403 and changes nothing (\<open>claimTipsByDealer_refused\<close>).
\<close>

theorem claimTipsByDealer_pays_once:
  assumes "find (\<lambda>s. s_id s = q_gameSessionId data \<and> userId s = uid) (db_gameSessions db) \<noteq> None"
    and "q_dealerName data' = q_dealerName data"
    and "q_gameSessionId data' = q_gameSessionId data"
  shows "\<exists>r db'.
           claimTipsByDealer db uid data = (Json r, db')
         \<and> totalTipsClaimed r = sum_list (map tips (filter (unpaidOf data) (db_dealerDowns db)))
         \<and> dealerPayout r = totalTipsClaimed r * percentageOf data / 100
         \<and> ownerCut r = totalTipsClaimed r - dealerPayout r
         \<and> updatedCount r = length (filter (unpaidOf data) (db_dealerDowns db))
         \<and> db_dealerDowns db' = markPaid data (db_dealerDowns db)
         \<and> list_all (\<lambda>d. d_gameSessionId d = q_gameSessionId data \<and> dealerName d = q_dealerName data
                           \<longrightarrow> tipsPaid d) (db_dealerDowns db')
         \<and> claimTipsByDealer db' uid data' = (Json nothingClaimed, db')"
proof -
  let ?U = "filter (unpaidOf data) (db_dealerDowns db)"
  define r where "r =
     (if ?U = [] then nothingClaimed
      else \<lparr> updatedCount = length ?U,
             totalTipsClaimed = sum_list (map tips ?U),
             ownerCut = sum_list (map tips ?U) - sum_list (map tips ?U) * percentageOf data / 100,
             dealerPayout = sum_list (map tips ?U) * percentageOf data / 100 \<rparr>)"
  define db' where "db' = db \<lparr> db_dealerDowns := markPaid data (db_dealerDowns db) \<rparr>"
  have same: "db' = db" if "?U = []"
  proof -
    have "markPaid data (db_dealerDowns db) = db_dealerDowns db"
      using that by (auto simp: markPaid_def filter_empty_conv intro: map_idI)
    then show ?thesis by (simp add: db'_def)
  qed
  have c1: "claimTipsByDealer db uid data = (Json r, db')"
  proof (cases "?U = []")
    case True
    then show ?thesis
      using claimTipsByDealer_owner[OF assms(1)] same by (simp add: r_def nothingClaimed_def)
  next
    case False
    then show ?thesis
      using claimTipsByDealer_owner[OF assms(1)] by (simp add: r_def db'_def)
  qed
  have c2: "totalTipsClaimed r = sum_list (map tips ?U)"
    by (simp add: r_def nothingClaimed_def)
  have c3: "dealerPayout r = totalTipsClaimed r * percentageOf data / 100"
    by (simp add: r_def nothingClaimed_def)
  have c4: "ownerCut r = totalTipsClaimed r - dealerPayout r"
    by (simp add: r_def nothingClaimed_def)
  have c5: "updatedCount r = length ?U"
    by (simp add: r_def nothingClaimed_def)
  have c6: "db_dealerDowns db' = markPaid data (db_dealerDowns db)"
    by (simp add: db'_def)
  have c7: "list_all (\<lambda>d. d_gameSessionId d = q_gameSessionId data \<and> dealerName d = q_dealerName data
                           \<longrightarrow> tipsPaid d) (db_dealerDowns db')"
    unfolding c6 by (auto simp: list_all_iff markPaid_def unpaidOf_def)
  have e': "filter (unpaidOf data') (db_dealerDowns db') = []"
    unfolding c6 by (rule no_unpaid_after[OF assms(2,3)])
  have o': "find (\<lambda>s. s_id s = q_gameSessionId data' \<and> userId s = uid) (db_gameSessions db') \<noteq> None"
    using assms(1,3) by (simp add: db'_def)
  have c8: "claimTipsByDealer db' uid data' = (Json nothingClaimed, db')"
    using claimTipsByDealer_owner[OF o'] e' by (simp add: nothingClaimed_def)
  show ?thesis
    using c1 c2 c3 c4 c5 c6 c7 c8 by blast
qed

text \<open>
  The theorem at the specification's example: 70 percent of 100 in unpaid tips gives
  the dealer 70 and the owner 30, and a second call finds nothing.
\<close>

theorem claimTipsByDealer_witness:
  "fst (claimTipsByDealer dealers_db ''u1'' claim_dee) =
     Json \<lparr> updatedCount = 2, totalTipsClaimed = 100, ownerCut = 30, dealerPayout = 70 \<rparr>
   \<and> map tipsPaid (db_dealerDowns (snd (claimTipsByDealer dealers_db ''u1'' claim_dee)))
       = [True, False, True, True]
   \<and> fst (claimTipsByDealer (snd (claimTipsByDealer dealers_db ''u1'' claim_dee)) ''u1'' claim_dee) =
     Json \<lparr> updatedCount = 0, totalTipsClaimed = 0, ownerCut = 0, dealerPayout = 0 \<rparr>"
proof -
  have o: "find (\<lambda>s. s_id s = q_gameSessionId claim_dee \<and> userId s = ''u1'') (db_gameSessions dealers_db) \<noteq> None"
    by (simp add: dealers_db_def claim_dee_def)
  have f: "filter (unpaidOf claim_dee) (db_dealerDowns dealers_db) =
             [mkDown ''d1'' ''Dee'' 40 25 False False, mkDown ''d3'' ''Dee'' 60 15 False True]"
    by (simp add: dealers_db_def claim_dee_def unpaidOf_def mkDown_def)
  have m: "map tipsPaid (markPaid claim_dee (db_dealerDowns dealers_db)) = [True, False, True, True]"
    by (simp add: dealers_db_def claim_dee_def unpaidOf_def mkDown_def markPaid_def)
  have p: "percentageOf claim_dee = 70" by (simp add: percentageOf_def claim_dee_def)
  from claimTipsByDealer_pays_once[OF o refl refl] obtain r db' where
    h: "claimTipsByDealer dealers_db ''u1'' claim_dee = (Json r, db')"
      "totalTipsClaimed r = sum_list (map tips (filter (unpaidOf claim_dee) (db_dealerDowns dealers_db)))"
      "dealerPayout r = totalTipsClaimed r * percentageOf claim_dee / 100"
      "ownerCut r = totalTipsClaimed r - dealerPayout r"
      "updatedCount r = length (filter (unpaidOf claim_dee) (db_dealerDowns dealers_db))"
      "db_dealerDowns db' = markPaid claim_dee (db_dealerDowns dealers_db)"
      "claimTipsByDealer db' ''u1'' claim_dee = (Json nothingClaimed, db')"
    by blast
  have r: "r = \<lparr> updatedCount = 2, totalTipsClaimed = 100, ownerCut = 30, dealerPayout = 70 \<rparr>"
    using h(2-5) unfolding f p by (cases r) (simp add: mkDown_def)
  show ?thesis unfolding h(1) fst_conv snd_conv h(7) h(6) m r
    by (simp add: nothingClaimed_def)
qed

section \<open>The discrepancy analyzer\<close>

lemma till_db_session:
  "findAccessibleSession till_db ''u1'' ''s1'' = Some \<lparr> s_id = ''s1'', userId = ''u1'', totalRake = 0 \<rparr>"
  by (simp add: findAccessibleSession_def till_db_def)

lemma till_db_expected:
  "expectedTill (orderByTimestamp (includeEvents till_db \<lparr> s_id = ''s1'', userId = ''u1'', totalRake = 0 \<rparr>)) = 200"
proof -
  have "tillBalance (includeEvents till_db \<lparr> s_id = ''s1'', userId = ''u1'', totalRake = 0 \<rparr>) = 200"
    by (simp add: includeEvents_def till_db_def cash_buyin_def plain_cashout_def
        tillBalance_def cashBuyIns_def manuallyPaidCredit_def
        paidCreditBuyIns_def autoSettledCredit_def cashCashouts_def cashCashouts_step_def
        totalPaidTips_def totalExpenses_def notes_include_def match_received_cash_def
        match_cash_paid_def eval_defs)
  moreover have "totalClaimedRake (includeEvents till_db \<lparr> s_id = ''s1'', userId = ''u1'', totalRake = 0 \<rparr>) = 0"
    by (simp add: includeEvents_def till_db_def totalClaimedRake_def)
  ultimately show ?thesis
    using expectedTill_ordered
      [of "includeEvents till_db \<lparr> s_id = ''s1'', userId = ''u1'', totalRake = 0 \<rparr>"]
    by simp
qed


lemma bindE_Inr: "bindE m k = Inr r \<Longrightarrow> \<exists>x. m = Inr x \<and> k x = Inr r"
  by (cases m) (simp_all add: bindE_def)

lemma normalizeResponse_figures:
  assumes "normalizeResponse f d e a j = Inr r"
  shows "a_discrepancyAmount r = d \<and> a_expectedTill r = e \<and> a_actualTill r = a"
proof -
  from assms have nn: "j \<noteq> JNull" by (auto simp: normalizeResponse_def split: if_splits)
  from assms nn obtain causes reviews recs summ where
    "r = \<lparr> a_discrepancyAmount = d, a_expectedTill = e, a_actualTill = a, a_summary = summ,
           a_possibleCauses = causes, a_transactionsToReview = reviews, a_recommendations = recs \<rparr>"
    unfolding normalizeResponse_def by (auto dest!: bindE_Inr)
  then show ?thesis by simp
qed

lemma interpretReply_figures:
  assumes "interpretReply f d e a reply = Json r"
  shows "a_discrepancyAmount r = d \<and> a_expectedTill r = e \<and> a_actualTill r = a"
  using assms normalizeResponse_figures
  by (auto simp: interpretReply_def analysisFailed_def split: collaboratorReply.splits sum.splits)

lemma analyzeTill_material:
  assumes "key = Some k" "k \<noteq> []"
    and "findAccessibleSession db uid (sessionId req) = Some row"
    and "\<not> \<bar>actualTillAmount req - expectedTill (orderByTimestamp (includeEvents db row))\<bar> < 1"
  shows "analyzeTill f key db uid req c =
     (interpretReply f (actualTillAmount req - expectedTill (orderByTimestamp (includeEvents db row)))
        (expectedTill (orderByTimestamp (includeEvents db row))) (actualTillAmount req)
        (c (buildPrompt (orderByTimestamp (includeEvents db row))
              (expectedTill (orderByTimestamp (includeEvents db row))) (actualTillAmount req)
              (actualTillAmount req - expectedTill (orderByTimestamp (includeEvents db row))))),
      [buildPrompt (orderByTimestamp (includeEvents db row))
              (expectedTill (orderByTimestamp (includeEvents db row))) (actualTillAmount req)
              (actualTillAmount req - expectedTill (orderByTimestamp (includeEvents db row)))])"
  using assms by (simp add: analyzeTill_def Let_def)

lemma normalize_empty_object:
  "normalizeResponse f d e a (JObj []) =
     Inr \<lparr> a_discrepancyAmount = d, a_expectedTill = e, a_actualTill = a,
           a_summary = fallbackSummary f d, a_possibleCauses = [], a_transactionsToReview = [],
           a_recommendations = defaultRecommendations \<rparr>"
  by (simp add: normalizeResponse_def mapArrayOrEmpty_def or_else_def bindE_def js_String_def)

lemma normalize_chatty:
  "normalizeResponse f d e a
     (JObj [(''summary'', JStr ''The till is short.''),
            (''discrepancyAmount'', JNum 0),
            (''expectedTill'', JNum 1000000),
            (''actualTill'', JNum 1000000),
            (''recommendations'', JArr [JStr ''Recount'']),
            (''possibleCauses'', JArr [JObj [(''description'', JStr ''Miscount''),
                                             (''likelihood'', JStr ''certain'')]])]) =
     Inr \<lparr> a_discrepancyAmount = d, a_expectedTill = e, a_actualTill = a,
           a_summary = ''The till is short.'',
           a_possibleCauses = [\<lparr> c_description = ''Miscount'', c_likelihood = ''medium'',
                                  c_amount = None, c_transactionIds = None \<rparr>],
           a_transactionsToReview = [],
           a_recommendations = [''Recount''] \<rparr>"
  by (simp add: normalizeResponse_def mapArrayOrEmpty_def or_else_def bindE_def js_String_def
      normalizeCause_def)

lemma js_String_empty: "js_String f (JStr s) = Inr s"
  by (simp add: js_String_def)

lemma or_else_missing: "or_else None d = d"
  by (simp add: or_else_def)

lemma normalizeCause_fields:
  assumes "normalizeCause f c = Inr cause"
  shows "c_likelihood cause \<in> likelihoods"
    and "getProp c ''likelihood'' \<notin> {Some (JStr ''high''), Some (JStr ''medium''), Some (JStr ''low'')}
           \<Longrightarrow> c_likelihood cause = ''medium''"
    and "getProp c ''likelihood'' = Some (JStr l) \<Longrightarrow> l \<in> likelihoods \<Longrightarrow> c_likelihood cause = l"
    and "\<forall>a. getProp c ''amount'' \<noteq> Some (JNum a) \<Longrightarrow> c_amount cause = None"
    and "getProp c ''amount'' = Some (JNum a) \<Longrightarrow> c_amount cause = Some a"
    and "getProp c ''description'' = None \<Longrightarrow> c_description cause = []"
proof -
  from assms have nn: "c \<noteq> JNull" by (auto simp: normalizeCause_def split: if_splits)
  from assms nn obtain description where
    d: "js_String f (or_else (getProp c ''description'') (JStr [])) = Inr description"
    and cause: "cause = \<lparr> c_description = description,
              c_likelihood =
                (case getProp c ''likelihood'' of
                   Some (JStr l) \<Rightarrow> if l \<in> set [''high'', ''medium'', ''low''] then l else ''medium''
                 | _ \<Rightarrow> ''medium''),
              c_amount = (case getProp c ''amount'' of Some (JNum a) \<Rightarrow> Some a | _ \<Rightarrow> None),
              c_transactionIds =
                (case getProp c ''transactionIds'' of Some (JArr ids) \<Rightarrow> Some ids | _ \<Rightarrow> None) \<rparr>"
    unfolding normalizeCause_def by (auto dest!: bindE_Inr)
  show "c_likelihood cause \<in> likelihoods"
    unfolding cause likelihoods_def by (simp split: option.splits json.splits)
  show "getProp c ''likelihood'' \<notin> {Some (JStr ''high''), Some (JStr ''medium''), Some (JStr ''low'')}
           \<Longrightarrow> c_likelihood cause = ''medium''"
    unfolding cause by (auto split: option.splits json.splits)
  show "getProp c ''likelihood'' = Some (JStr l) \<Longrightarrow> l \<in> likelihoods \<Longrightarrow> c_likelihood cause = l"
    unfolding cause likelihoods_def by auto
  show "\<forall>a. getProp c ''amount'' \<noteq> Some (JNum a) \<Longrightarrow> c_amount cause = None"
    unfolding cause by (auto split: option.splits json.splits)
  show "getProp c ''amount'' = Some (JNum a) \<Longrightarrow> c_amount cause = Some a"
    unfolding cause by simp
  show "getProp c ''description'' = None \<Longrightarrow> c_description cause = []"
    using d unfolding cause by (simp add: or_else_missing js_String_empty)
qed

lemma normalizeReview_fields:
  assumes "normalizeReview f t = Inr rv"
  shows "\<forall>a. getProp t ''amount'' \<noteq> Some (JNum a) \<Longrightarrow> r_amount rv = 0"
    and "getProp t ''amount'' = Some (JNum a) \<Longrightarrow> r_amount rv = a"
    and "getProp t ''playerName'' = None \<Longrightarrow> r_playerName rv = ''Unknown''"
    and "getProp t ''id'' = None \<Longrightarrow> r_id rv = []"
    and "getProp t ''type'' = None \<Longrightarrow> r_type rv = []"
    and "getProp t ''paymentMethod'' = None \<Longrightarrow> r_paymentMethod rv = []"
    and "getProp t ''reason'' = None \<Longrightarrow> r_reason rv = []"
    and "getProp t ''notes'' = None \<Longrightarrow> r_notes rv = JNull"
proof -
  from assms have nn: "t \<noteq> JNull" by (auto simp: normalizeReview_def split: if_splits)
  from assms nn obtain i n ty m r where
    s: "js_String f (or_else (getProp t ''id'') (JStr [])) = Inr i"
       "js_String f (or_else (getProp t ''playerName'') (JStr ''Unknown'')) = Inr n"
       "js_String f (or_else (getProp t ''type'') (JStr [])) = Inr ty"
       "js_String f (or_else (getProp t ''paymentMethod'') (JStr [])) = Inr m"
       "js_String f (or_else (getProp t ''reason'') (JStr [])) = Inr r"
    and rv: "rv = \<lparr> r_id = i, r_playerName = n, r_type = ty,
              r_amount = (case getProp t ''amount'' of Some (JNum a) \<Rightarrow> a | _ \<Rightarrow> 0),
              r_paymentMethod = m,
              r_notes = or_else (getProp t ''notes'') JNull,
              r_reason = r \<rparr>"
    unfolding normalizeReview_def by (auto dest!: bindE_Inr)
  show "\<forall>a. getProp t ''amount'' \<noteq> Some (JNum a) \<Longrightarrow> r_amount rv = 0"
    unfolding rv by (auto split: option.splits json.splits)
  show "getProp t ''amount'' = Some (JNum a) \<Longrightarrow> r_amount rv = a"
    unfolding rv by simp
  show "getProp t ''playerName'' = None \<Longrightarrow> r_playerName rv = ''Unknown''"
    using s(2) unfolding rv by (simp add: or_else_missing js_String_empty)
  show "getProp t ''id'' = None \<Longrightarrow> r_id rv = []"
    using s(1) unfolding rv by (simp add: or_else_missing js_String_empty)
  show "getProp t ''type'' = None \<Longrightarrow> r_type rv = []"
    using s(3) unfolding rv by (simp add: or_else_missing js_String_empty)
  show "getProp t ''paymentMethod'' = None \<Longrightarrow> r_paymentMethod rv = []"
    using s(4) unfolding rv by (simp add: or_else_missing js_String_empty)
  show "getProp t ''reason'' = None \<Longrightarrow> r_reason rv = []"
    using s(5) unfolding rv by (simp add: or_else_missing js_String_empty)
  show "getProp t ''notes'' = None \<Longrightarrow> r_notes rv = JNull"
    unfolding rv by (simp add: or_else_missing)
qed

lemma mapE_Inr_all:
  assumes "\<And>x y. g x = Inr y \<Longrightarrow> P y"
  shows "mapE g xs = Inr ys \<Longrightarrow> list_all P ys"
proof (induction xs arbitrary: ys)
  case Nil
  then show ?case by simp
next
  case (Cons x xs)
  from Cons.prems obtain y ys' where "g x = Inr y" "mapE g xs = Inr ys'" "ys = y # ys'"
    by (auto dest!: bindE_Inr)
  then show ?case using assms Cons.IH by simp
qed

lemma mapArrayOrEmpty_missing: "mapArrayOrEmpty g None = Inr []"
  by (simp add: mapArrayOrEmpty_def or_else_def)

lemma mapArrayOrEmpty_all:
  assumes "\<And>x y. g x = Inr y \<Longrightarrow> P y" "mapArrayOrEmpty g v = Inr ys"
  shows "list_all P ys"
  using assms(2) mapE_Inr_all[of g P, OF assms(1)]
  by (auto simp: mapArrayOrEmpty_def split: json.splits)

lemma normalizeResponse_fields:
  assumes "normalizeResponse f d e a j = Inr r"
  shows "getProp j ''possibleCauses'' = None \<Longrightarrow> a_possibleCauses r = []"
    and "getProp j ''transactionsToReview'' = None \<Longrightarrow> a_transactionsToReview r = []"
    and "\<forall>xs. getProp j ''recommendations'' \<noteq> Some (JArr xs) \<Longrightarrow> a_recommendations r = defaultRecommendations"
    and "getProp j ''summary'' = None \<Longrightarrow> a_summary r = fallbackSummary f d"
    and "list_all (\<lambda>c. c_likelihood c \<in> likelihoods) (a_possibleCauses r)"
proof -
  from assms have nn: "j \<noteq> JNull" by (auto simp: normalizeResponse_def split: if_splits)
  from assms nn obtain causes reviews recs summ where
    c: "mapArrayOrEmpty (normalizeCause f) (getProp j ''possibleCauses'') = Inr causes"
    and v: "mapArrayOrEmpty (normalizeReview f) (getProp j ''transactionsToReview'') = Inr reviews"
    and rc: "(case getProp j ''recommendations'' of
                 Some (JArr rs) \<Rightarrow> mapE (js_String f) rs
               | _ \<Rightarrow> Inr defaultRecommendations) = Inr recs"
    and su: "js_String f (or_else (getProp j ''summary'') (JStr (fallbackSummary f d))) = Inr summ"
    and r: "r = \<lparr> a_discrepancyAmount = d, a_expectedTill = e, a_actualTill = a, a_summary = summ,
           a_possibleCauses = causes, a_transactionsToReview = reviews, a_recommendations = recs \<rparr>"
    unfolding normalizeResponse_def by (auto dest!: bindE_Inr)
  show "getProp j ''possibleCauses'' = None \<Longrightarrow> a_possibleCauses r = []"
    using c unfolding r by (simp add: mapArrayOrEmpty_missing)
  show "getProp j ''transactionsToReview'' = None \<Longrightarrow> a_transactionsToReview r = []"
    using v unfolding r by (simp add: mapArrayOrEmpty_missing)
  show "\<forall>xs. getProp j ''recommendations'' \<noteq> Some (JArr xs) \<Longrightarrow> a_recommendations r = defaultRecommendations"
    using rc unfolding r by (auto split: option.splits json.splits)
  show "getProp j ''summary'' = None \<Longrightarrow> a_summary r = fallbackSummary f d"
    using su unfolding r by (simp add: or_else_missing js_String_empty)
  show "list_all (\<lambda>c. c_likelihood c \<in> likelihoods) (a_possibleCauses r)"
    unfolding r using mapArrayOrEmpty_all[OF normalizeCause_fields(1) c] by simp
qed

text \<open>
  C5, as the code has it. For a session the user can access and an actual till amount
  within 1.00 of the expected till, the collaborator is never invoked; when the
  collaborator's API key is configured the analyzer returns discrepancyAmount = 0, no
  possible causes, no transactions to review and the single affirming recommendation;
  when the key is missing or empty it returns the 500 "not configured" error instead,
  because the route tests the key before it computes anything.
\<close>

theorem immaterial_discrepancy_short_circuit:
  assumes "findAccessibleSession db uid (sessionId req) = Some row"
    and "\<bar>actualTillAmount req - expectedTill (orderByTimestamp (includeEvents db row))\<bar> < 1"
  shows "snd (analyzeTill f openaiApiKey db uid req collaborator) = []
       \<and> (openaiApiKey = Some k \<and> k \<noteq> [] \<longrightarrow>
            analyzeTill f openaiApiKey db uid req collaborator =
              (Json \<lparr> a_discrepancyAmount = 0,
                      a_expectedTill = expectedTill (orderByTimestamp (includeEvents db row)),
                      a_actualTill = actualTillAmount req,
                      a_summary = ''Your till matches the expected amount. No discrepancy detected.'',
                      a_possibleCauses = [],
                      a_transactionsToReview = [],
                      a_recommendations =
                        [''Your records appear to be accurate. Keep up the good work!''] \<rparr>,
               []))
       \<and> (openaiApiKey = None \<or> openaiApiKey = Some [] \<longrightarrow>
            analyzeTill f openaiApiKey db uid req collaborator =
              (Error 500 ''AI analysis is not configured. Please contact support.'', []))"
  using assms by (auto simp: analyzeTill_def Let_def tillMatches_def)

text \<open>
  The theorem at a session whose expected till is 200 and a count of 200, with a key
  and with an empty key.
\<close>

theorem immaterial_discrepancy_witness:
  "analyzeTill plain_format (Some ''sk-key'') till_db ''u1'' count_200 failing_collaborator =
     (Json \<lparr> a_discrepancyAmount = 0, a_expectedTill = 200, a_actualTill = 200,
             a_summary = ''Your till matches the expected amount. No discrepancy detected.'',
             a_possibleCauses = [], a_transactionsToReview = [],
             a_recommendations = [''Your records appear to be accurate. Keep up the good work!''] \<rparr>,
      [])
   \<and> analyzeTill plain_format (Some []) till_db ''u1'' count_200 failing_collaborator =
     (Error 500 ''AI analysis is not configured. Please contact support.'', [])"
proof -
  have s: "findAccessibleSession till_db ''u1'' (sessionId count_200)
             = Some \<lparr> s_id = ''s1'', userId = ''u1'', totalRake = 0 \<rparr>"
    using till_db_session by (simp add: count_200_def)
  have d: "\<bar>actualTillAmount count_200
             - expectedTill (orderByTimestamp (includeEvents till_db \<lparr> s_id = ''s1'', userId = ''u1'', totalRake = 0 \<rparr>))\<bar> < 1"
    unfolding till_db_expected by (simp add: count_200_def)
  have a: "actualTillAmount count_200 = 200" by (simp add: count_200_def)
  show ?thesis
    using immaterial_discrepancy_short_circuit[OF s d, of plain_format "Some ''sk-key''" failing_collaborator "''sk-key''"]
      immaterial_discrepancy_short_circuit[OF s d, of plain_format "Some []" failing_collaborator]
    unfolding till_db_expected a by simp
qed

text \<open>
  C5 as stated fails without an API key: the session is accessible and the count
  matches the expected till exactly, and the analyzer answers with the 500 error, not
  with a zero-discrepancy result.
\<close>

theorem unconfigured_key_counterexample:
  "findAccessibleSession till_db ''u1'' (sessionId count_200)
     = Some \<lparr> s_id = ''s1'', userId = ''u1'', totalRake = 0 \<rparr>
   \<and> \<bar>actualTillAmount count_200
        - expectedTill (orderByTimestamp (includeEvents till_db \<lparr> s_id = ''s1'', userId = ''u1'', totalRake = 0 \<rparr>))\<bar> < 1
   \<and> analyzeTill plain_format None till_db ''u1'' count_200 failing_collaborator =
       (Error 500 ''AI analysis is not configured. Please contact support.'', [])"
  unfolding till_db_expected
  by (simp add: till_db_session count_200_def analyzeTill_def)

text \<open>
  C10. Take two runs of the analyzer on the same database, user, request and
  configuration with any two collaborators. Whenever both return an analysis, its
  expectedTill and actualTill are the route's own values in both, the
  discrepancyAmount is the same in both and, for a material discrepancy, equals
  actualTill - expectedTill; the prompts sent are the same too. (A run that does not
  return an analysis returns an error without any figure.)
\<close>

theorem figures_independent_of_collaborator:
  assumes "findAccessibleSession db uid (sessionId req) = Some row"
    and "analyzeTill f key db uid req c1 = (Json r1, ps1)"
    and "analyzeTill f key db uid req c2 = (Json r2, ps2)"
  shows "a_expectedTill r1 = expectedTill (orderByTimestamp (includeEvents db row))
       \<and> a_expectedTill r2 = expectedTill (orderByTimestamp (includeEvents db row))
       \<and> a_actualTill r1 = actualTillAmount req
       \<and> a_actualTill r2 = actualTillAmount req
       \<and> a_discrepancyAmount r1 = a_discrepancyAmount r2
       \<and> (1 \<le> \<bar>actualTillAmount req - expectedTill (orderByTimestamp (includeEvents db row))\<bar> \<longrightarrow>
            a_discrepancyAmount r1 =
              actualTillAmount req - expectedTill (orderByTimestamp (includeEvents db row)))
       \<and> ps1 = ps2"
proof -
  let ?E = "expectedTill (orderByTimestamp (includeEvents db row))"
  let ?A = "actualTillAmount req"
  have k: "\<not> (key = None \<or> key = Some [])"
  proof
    assume "key = None \<or> key = Some []"
    then have "fst (analyzeTill f key db uid req c1) =
                 Error 500 ''AI analysis is not configured. Please contact support.''"
      by (simp add: analyzeTill_def)
    with assms(2) show False by simp
  qed
  show ?thesis
  proof (cases "\<bar>?A - ?E\<bar> < 1")
    case True
    then have "analyzeTill f key db uid req c = (Json (tillMatches ?E ?A), [])" for c
      using k assms(1) by (simp add: analyzeTill_def Let_def)
    with assms(2,3) have "r1 = tillMatches ?E ?A" "r2 = tillMatches ?E ?A" "ps1 = []" "ps2 = []"
      by simp_all
    then show ?thesis using True by (simp add: tillMatches_def)
  next
    case False
    let ?p = "buildPrompt (orderByTimestamp (includeEvents db row)) ?E ?A (?A - ?E)"
    have "analyzeTill f key db uid req c = (interpretReply f (?A - ?E) ?E ?A (c ?p), [?p])" for c
      using k assms(1) False by (simp add: analyzeTill_def Let_def)
    with assms(2,3) have i: "interpretReply f (?A - ?E) ?E ?A (c1 ?p) = Json r1"
      "interpretReply f (?A - ?E) ?E ?A (c2 ?p) = Json r2" "ps1 = [?p]" "ps2 = [?p]"
      by simp_all
    show ?thesis
      using interpretReply_figures[OF i(1)] interpretReply_figures[OF i(2)] i(3,4) by simp
  qed
qed

text \<open>
  The theorem at two collaborators, one replying with an empty object and one that
  tries to set the figures itself: the summaries differ, the figures do not.
\<close>

theorem figures_independent_witness:
  "\<exists>r1 r2 ps.
     analyzeTill plain_format (Some ''sk-key'') till_db ''u1'' count_150 terse_collaborator = (Json r1, ps)
   \<and> analyzeTill plain_format (Some ''sk-key'') till_db ''u1'' count_150 chatty_collaborator = (Json r2, ps)
   \<and> a_summary r1 \<noteq> a_summary r2
   \<and> a_expectedTill r1 = 200 \<and> a_expectedTill r2 = 200
   \<and> a_actualTill r1 = 150 \<and> a_actualTill r2 = 150
   \<and> a_discrepancyAmount r1 = - 50 \<and> a_discrepancyAmount r2 = - 50"
proof -
  let ?row = "\<lparr> s_id = ''s1'', userId = ''u1'', totalRake = 0 \<rparr>"
  let ?p = "buildPrompt (orderByTimestamp (includeEvents till_db ?row)) 200 150 (- 50)"
  let ?r1 = "\<lparr> a_discrepancyAmount = - 50, a_expectedTill = 200, a_actualTill = 150,
           a_summary = fallbackSummary plain_format (- 50), a_possibleCauses = [],
           a_transactionsToReview = [], a_recommendations = defaultRecommendations \<rparr>"
  let ?r2 = "\<lparr> a_discrepancyAmount = - 50, a_expectedTill = 200, a_actualTill = 150,
           a_summary = ''The till is short.'',
           a_possibleCauses = [\<lparr> c_description = ''Miscount'', c_likelihood = ''medium'',
                                  c_amount = None, c_transactionIds = None \<rparr>],
           a_transactionsToReview = [],
           a_recommendations = [''Recount''] \<rparr>"
  have s: "findAccessibleSession till_db ''u1'' (sessionId count_150) = Some ?row"
    using till_db_session by (simp add: count_150_def)
  have m: "\<not> \<bar>actualTillAmount count_150 - expectedTill (orderByTimestamp (includeEvents till_db ?row))\<bar> < 1"
    unfolding till_db_expected by (simp add: count_150_def)
  have a: "actualTillAmount count_150 = 150" by (simp add: count_150_def)
  have k: "''sk-key'' \<noteq> []" by simp
  note am = analyzeTill_material[OF refl k s m, unfolded till_db_expected a]
  have e1: "analyzeTill plain_format (Some ''sk-key'') till_db ''u1'' count_150 terse_collaborator
              = (Json ?r1, [?p])"
    unfolding am
    by (simp add: terse_collaborator_def interpretReply_def normalize_empty_object)
  have e2: "analyzeTill plain_format (Some ''sk-key'') till_db ''u1'' count_150 chatty_collaborator
              = (Json ?r2, [?p])"
    unfolding am
    by (simp add: chatty_collaborator_def interpretReply_def normalize_chatty)
  have d: "a_summary ?r1 \<noteq> a_summary ?r2"
    by (simp add: fallbackSummary_def plain_format_def)
  from figures_independent_of_collaborator[OF s e1 e2]
  have "a_expectedTill ?r1 = 200 \<and> a_expectedTill ?r2 = 200
       \<and> a_actualTill ?r1 = 150 \<and> a_actualTill ?r2 = 150
       \<and> a_discrepancyAmount ?r1 = - 50 \<and> a_discrepancyAmount ?r2 = - 50"
    unfolding till_db_expected a by simp
  with e1 e2 d show ?thesis by blast
qed

text \<open>
  C6, as the code has it. Of a normalized reply: a likelihood that is not one of high,
  medium, low becomes "medium" (one that is stays); a missing possibleCauses or
  transactionsToReview becomes the empty list, a missing or non-array recommendations
  becomes the two default recommendations; a missing or non-numeric amount of a cause
  becomes absent (a numeric one, zero included, stays), while a missing or non-numeric
  amount of a transaction becomes 0; a missing playerName becomes "Unknown", a missing
  description, id, type, paymentMethod or reason becomes the empty string, missing
  notes become null and a missing summary becomes the generated sentence. Every reply
  is answered: with the normalized analysis, or with the route's 500 error.
\<close>

theorem normalization_fallbacks:
  "(normalizeCause f c = Inr cause \<longrightarrow>
        c_likelihood cause \<in> likelihoods
      \<and> (getProp c ''likelihood'' \<notin> {Some (JStr ''high''), Some (JStr ''medium''), Some (JStr ''low'')}
           \<longrightarrow> c_likelihood cause = ''medium'')
      \<and> (getProp c ''likelihood'' = Some (JStr l) \<and> l \<in> likelihoods \<longrightarrow> c_likelihood cause = l)
      \<and> ((\<forall>n. getProp c ''amount'' \<noteq> Some (JNum n)) \<longrightarrow> c_amount cause = None)
      \<and> (getProp c ''amount'' = Some (JNum a) \<longrightarrow> c_amount cause = Some a)
      \<and> (getProp c ''description'' = None \<longrightarrow> c_description cause = []))
   \<and> (normalizeReview f t = Inr rv \<longrightarrow>
        ((\<forall>n. getProp t ''amount'' \<noteq> Some (JNum n)) \<longrightarrow> r_amount rv = 0)
      \<and> (getProp t ''amount'' = Some (JNum a) \<longrightarrow> r_amount rv = a)
      \<and> (getProp t ''playerName'' = None \<longrightarrow> r_playerName rv = ''Unknown'')
      \<and> (getProp t ''id'' = None \<longrightarrow> r_id rv = [])
      \<and> (getProp t ''type'' = None \<longrightarrow> r_type rv = [])
      \<and> (getProp t ''paymentMethod'' = None \<longrightarrow> r_paymentMethod rv = [])
      \<and> (getProp t ''reason'' = None \<longrightarrow> r_reason rv = [])
      \<and> (getProp t ''notes'' = None \<longrightarrow> r_notes rv = JNull))
   \<and> (normalizeResponse f d e actual j = Inr r \<longrightarrow>
        (getProp j ''possibleCauses'' = None \<longrightarrow> a_possibleCauses r = [])
      \<and> (getProp j ''transactionsToReview'' = None \<longrightarrow> a_transactionsToReview r = [])
      \<and> ((\<forall>xs. getProp j ''recommendations'' \<noteq> Some (JArr xs))
           \<longrightarrow> a_recommendations r = defaultRecommendations)
      \<and> (getProp j ''summary'' = None \<longrightarrow> a_summary r = fallbackSummary f d)
      \<and> list_all (\<lambda>c. c_likelihood c \<in> likelihoods) (a_possibleCauses r))
   \<and> (interpretReply f d e actual reply = analysisFailed
        \<or> (\<exists>r. interpretReply f d e actual reply = Json r))"
proof -
  have A: "normalizeCause f c = Inr cause \<longrightarrow>
        c_likelihood cause \<in> likelihoods
      \<and> (getProp c ''likelihood'' \<notin> {Some (JStr ''high''), Some (JStr ''medium''), Some (JStr ''low'')}
           \<longrightarrow> c_likelihood cause = ''medium'')
      \<and> (getProp c ''likelihood'' = Some (JStr l) \<and> l \<in> likelihoods \<longrightarrow> c_likelihood cause = l)
      \<and> ((\<forall>n. getProp c ''amount'' \<noteq> Some (JNum n)) \<longrightarrow> c_amount cause = None)
      \<and> (getProp c ''amount'' = Some (JNum a) \<longrightarrow> c_amount cause = Some a)
      \<and> (getProp c ''description'' = None \<longrightarrow> c_description cause = [])"
  proof
    assume h: "normalizeCause f c = Inr cause"
    note n = normalizeCause_fields[OF h]
    show "c_likelihood cause \<in> likelihoods
      \<and> (getProp c ''likelihood'' \<notin> {Some (JStr ''high''), Some (JStr ''medium''), Some (JStr ''low'')}
           \<longrightarrow> c_likelihood cause = ''medium'')
      \<and> (getProp c ''likelihood'' = Some (JStr l) \<and> l \<in> likelihoods \<longrightarrow> c_likelihood cause = l)
      \<and> ((\<forall>n. getProp c ''amount'' \<noteq> Some (JNum n)) \<longrightarrow> c_amount cause = None)
      \<and> (getProp c ''amount'' = Some (JNum a) \<longrightarrow> c_amount cause = Some a)
      \<and> (getProp c ''description'' = None \<longrightarrow> c_description cause = [])"
      using n(1) n(2) n(3)[of l] n(4) n(5)[of a] n(6) by blast
  qed
  have B: "normalizeReview f t = Inr rv \<longrightarrow>
        ((\<forall>n. getProp t ''amount'' \<noteq> Some (JNum n)) \<longrightarrow> r_amount rv = 0)
      \<and> (getProp t ''amount'' = Some (JNum a) \<longrightarrow> r_amount rv = a)
      \<and> (getProp t ''playerName'' = None \<longrightarrow> r_playerName rv = ''Unknown'')
      \<and> (getProp t ''id'' = None \<longrightarrow> r_id rv = [])
      \<and> (getProp t ''type'' = None \<longrightarrow> r_type rv = [])
      \<and> (getProp t ''paymentMethod'' = None \<longrightarrow> r_paymentMethod rv = [])
      \<and> (getProp t ''reason'' = None \<longrightarrow> r_reason rv = [])
      \<and> (getProp t ''notes'' = None \<longrightarrow> r_notes rv = JNull)"
  proof
    assume h: "normalizeReview f t = Inr rv"
    note n = normalizeReview_fields[OF h]
    show "((\<forall>n. getProp t ''amount'' \<noteq> Some (JNum n)) \<longrightarrow> r_amount rv = 0)
      \<and> (getProp t ''amount'' = Some (JNum a) \<longrightarrow> r_amount rv = a)
      \<and> (getProp t ''playerName'' = None \<longrightarrow> r_playerName rv = ''Unknown'')
      \<and> (getProp t ''id'' = None \<longrightarrow> r_id rv = [])
      \<and> (getProp t ''type'' = None \<longrightarrow> r_type rv = [])
      \<and> (getProp t ''paymentMethod'' = None \<longrightarrow> r_paymentMethod rv = [])
      \<and> (getProp t ''reason'' = None \<longrightarrow> r_reason rv = [])
      \<and> (getProp t ''notes'' = None \<longrightarrow> r_notes rv = JNull)"
      using n(1) n(2)[of a] n(3) n(4) n(5) n(6) n(7) n(8) by blast
  qed
  have C: "normalizeResponse f d e actual j = Inr r \<longrightarrow>
        (getProp j ''possibleCauses'' = None \<longrightarrow> a_possibleCauses r = [])
      \<and> (getProp j ''transactionsToReview'' = None \<longrightarrow> a_transactionsToReview r = [])
      \<and> ((\<forall>xs. getProp j ''recommendations'' \<noteq> Some (JArr xs))
           \<longrightarrow> a_recommendations r = defaultRecommendations)
      \<and> (getProp j ''summary'' = None \<longrightarrow> a_summary r = fallbackSummary f d)
      \<and> list_all (\<lambda>c. c_likelihood c \<in> likelihoods) (a_possibleCauses r)"
  proof
    assume h: "normalizeResponse f d e actual j = Inr r"
    note n = normalizeResponse_fields[OF h]
    show "(getProp j ''possibleCauses'' = None \<longrightarrow> a_possibleCauses r = [])
      \<and> (getProp j ''transactionsToReview'' = None \<longrightarrow> a_transactionsToReview r = [])
      \<and> ((\<forall>xs. getProp j ''recommendations'' \<noteq> Some (JArr xs))
           \<longrightarrow> a_recommendations r = defaultRecommendations)
      \<and> (getProp j ''summary'' = None \<longrightarrow> a_summary r = fallbackSummary f d)
      \<and> list_all (\<lambda>c. c_likelihood c \<in> likelihoods) (a_possibleCauses r)"
      using n(1) n(2) n(3) n(4) n(5) by blast
  qed
  have D: "interpretReply f d e actual reply = analysisFailed
        \<or> (\<exists>r. interpretReply f d e actual reply = Json r)"
    by (auto simp: interpretReply_def split: collaboratorReply.splits sum.splits)
  from A B C D show ?thesis by (intro conjI)
qed

text \<open>
  The theorem at a cause with an unknown likelihood and a textual amount, at a cause
  with a numeric zero amount, at an empty transaction and at an empty reply; and four
  replies that end in the 500 error: \<open>null\<close>, possibleCauses that is a string,
  possibleCauses that holds \<open>null\<close>, and a summary that cannot be converted to a
  string.
\<close>

theorem normalization_fallbacks_witness:
  "normalizeCause plain_format vague_cause =
     Inr \<lparr> c_description = [], c_likelihood = ''medium'', c_amount = None, c_transactionIds = None \<rparr>
   \<and> normalizeCause plain_format exact_cause =
     Inr \<lparr> c_description = ''Tip not marked'', c_likelihood = ''high'', c_amount = Some 0,
           c_transactionIds = None \<rparr>
   \<and> normalizeReview plain_format (JObj []) =
     Inr \<lparr> r_id = [], r_playerName = ''Unknown'', r_type = [], r_amount = 0, r_paymentMethod = [],
           r_notes = JNull, r_reason = [] \<rparr>
   \<and> normalizeResponse plain_format 5 0 5 (JObj []) =
     Inr \<lparr> a_discrepancyAmount = 5, a_expectedTill = 0, a_actualTill = 5,
           a_summary = ''Till is over by $<amount>'', a_possibleCauses = [],
           a_transactionsToReview = [], a_recommendations = defaultRecommendations \<rparr>
   \<and> interpretReply plain_format 5 0 5 (ParsedJson JNull) = analysisFailed
   \<and> interpretReply plain_format 5 0 5 (ParsedJson (JObj [(''possibleCauses'', JStr ''none'')]))
       = analysisFailed
   \<and> interpretReply plain_format 5 0 5 (ParsedJson (JObj [(''possibleCauses'', JArr [JNull])]))
       = analysisFailed
   \<and> interpretReply plain_format 5 0 5
         (ParsedJson (JObj [(''summary'', JObj [(''toString'', JNum 1)])])) = analysisFailed"
proof -
  obtain c1 where c1: "normalizeCause plain_format vague_cause = Inr c1"
    by (simp add: normalizeCause_def vague_cause_def bindE_def or_else_def js_String_def)
  have g1: "getProp vague_cause ''likelihood'' = Some (JStr ''certain'')"
    "getProp vague_cause ''amount'' = Some (JStr ''12'')"
    "getProp vague_cause ''description'' = None" "getProp vague_cause ''transactionIds'' = None"
    by (simp_all add: vague_cause_def)
  have t1: "c_transactionIds c1 = None"
    using c1 by (auto simp: normalizeCause_def vague_cause_def dest!: bindE_Inr)
  have "c_likelihood c1 = ''medium'' \<and> c_amount c1 = None \<and> c_description c1 = []"
    using normalization_fallbacks[where f = plain_format and c = vague_cause and cause = c1] c1
    unfolding g1 by simp
  then have w1: "c1 = \<lparr> c_description = [], c_likelihood = ''medium'', c_amount = None,
                         c_transactionIds = None \<rparr>"
    using t1 by (cases c1) simp
  obtain c2 where c2: "normalizeCause plain_format exact_cause = Inr c2"
    by (simp add: normalizeCause_def exact_cause_def bindE_def or_else_def js_String_def)
  have g2: "getProp exact_cause ''likelihood'' = Some (JStr ''high'')"
    "getProp exact_cause ''amount'' = Some (JNum 0)"
    by (simp_all add: exact_cause_def)
  have t2: "c_transactionIds c2 = None" "c_description c2 = ''Tip not marked''"
    using c2
    by (auto simp: normalizeCause_def exact_cause_def or_else_def js_String_def dest!: bindE_Inr)
  have "c_likelihood c2 = ''high'' \<and> c_amount c2 = Some 0"
    using normalization_fallbacks[where f = plain_format and c = exact_cause and cause = c2
        and l = "''high''" and a = 0] c2
    unfolding g2 by (simp add: likelihoods_def)
  then have w2: "c2 = \<lparr> c_description = ''Tip not marked'', c_likelihood = ''high'', c_amount = Some 0,
           c_transactionIds = None \<rparr>"
    using t2 by (cases c2) simp
  obtain rv where rv: "normalizeReview plain_format (JObj []) = Inr rv"
    by (simp add: normalizeReview_def bindE_def or_else_def js_String_def)
  have w3: "rv = \<lparr> r_id = [], r_playerName = ''Unknown'', r_type = [], r_amount = 0,
                    r_paymentMethod = [], r_notes = JNull, r_reason = [] \<rparr>"
    using normalization_fallbacks[where f = plain_format and t = "JObj []" and rv = rv] rv
    by (cases rv) simp
  obtain r where r: "normalizeResponse plain_format 5 0 5 (JObj []) = Inr r"
    by (simp add: normalize_empty_object)
  have "a_possibleCauses r = [] \<and> a_transactionsToReview r = []
        \<and> a_recommendations r = defaultRecommendations
        \<and> a_summary r = fallbackSummary plain_format 5"
    using normalization_fallbacks[where f = plain_format and d = 5 and e = 0 and actual = 5
        and j = "JObj []" and r = r] r
    by simp
  then have w4: "r = \<lparr> a_discrepancyAmount = 5, a_expectedTill = 0, a_actualTill = 5,
           a_summary = ''Till is over by $<amount>'', a_possibleCauses = [],
           a_transactionsToReview = [], a_recommendations = defaultRecommendations \<rparr>"
    using normalizeResponse_figures[OF r]
    by (cases r) (simp add: fallbackSummary_def plain_format_def)
  have w5: "interpretReply plain_format 5 0 5 (ParsedJson JNull) = analysisFailed"
    "interpretReply plain_format 5 0 5 (ParsedJson (JObj [(''possibleCauses'', JStr ''none'')]))
       = analysisFailed"
    "interpretReply plain_format 5 0 5 (ParsedJson (JObj [(''possibleCauses'', JArr [JNull])]))
       = analysisFailed"
    "interpretReply plain_format 5 0 5
         (ParsedJson (JObj [(''summary'', JObj [(''toString'', JNum 1)])])) = analysisFailed"
    by (simp_all add: interpretReply_def normalizeResponse_def mapArrayOrEmpty_def or_else_def
        bindE_def normalizeCause_def js_String_def)
  show ?thesis
    using c1 c2 rv r w5 unfolding w1 w2 w3 w4 by simp
qed

text \<open>
  C6 as stated fails at the empty reply: its missing recommendations become the two
  default strings, not an empty array; and the missing amount of an empty transaction
  becomes 0, not absent.
\<close>

theorem normalization_defaults_counterexample:
  "getProp (JObj []) ''recommendations'' = None
   \<and> normalizeResponse plain_format 5 0 5 (JObj []) =
     Inr \<lparr> a_discrepancyAmount = 5, a_expectedTill = 0, a_actualTill = 5,
           a_summary = ''Till is over by $<amount>'', a_possibleCauses = [],
           a_transactionsToReview = [],
           a_recommendations =
             [''Review all transactions for accuracy'', ''Double-check cash counts''] \<rparr>
   \<and> getProp (JObj []) ''amount'' = None
   \<and> normalizeReview plain_format (JObj []) =
     Inr \<lparr> r_id = [], r_playerName = ''Unknown'', r_type = [], r_amount = 0, r_paymentMethod = [],
           r_notes = JNull, r_reason = [] \<rparr>"
  by (simp add: normalize_empty_object defaultRecommendations_def fallbackSummary_def
      plain_format_def normalizeReview_def bindE_def or_else_def js_String_def)

end
